theory Spec2Isabelle
  imports Main "HOL-Library.Word"
begin

unbundle bit_operations_syntax

section \<open>The C types of \<^verbatim>\<open>lib/copydir.c\<close>\<close>

text \<open>
  The identifier types are those of the Linux x86-64 ABI: 32-bit user and group ids and
  mode words, 64-bit device numbers, inode numbers and link counts, all unsigned.
  The sentinel \<^verbatim>\<open>(uid_t) -1\<close> is the word \<open>- 1\<close>.
\<close>

type_synonym uid_t = "32 word"
type_synonym gid_t = "32 word"
type_synonym mode_t = "32 word"
type_synonym dev_t = "64 word"
type_synonym ino_t = "64 word"
type_synonym nlink_t = "64 word"

record timespec =
  tv_sec :: int
  tv_nsec :: int

record stat =
  st_dev :: dev_t
  st_ino :: ino_t
  st_mode :: mode_t
  st_nlink :: nlink_t
  st_uid :: uid_t
  st_gid :: gid_t
  st_rdev :: dev_t
  st_atim :: timespec
  st_mtim :: timespec

text \<open>The file type bits of \<^verbatim>\<open>st_mode\<close> (octal 0170000 and below), as Linux defines them.\<close>

abbreviation S_IFMT :: mode_t where "S_IFMT \<equiv> 61440"
abbreviation S_IFIFO :: mode_t where "S_IFIFO \<equiv> 4096"
abbreviation S_IFCHR :: mode_t where "S_IFCHR \<equiv> 8192"
abbreviation S_IFDIR :: mode_t where "S_IFDIR \<equiv> 16384"
abbreviation S_IFREG :: mode_t where "S_IFREG \<equiv> 32768"
abbreviation S_IFLNK :: mode_t where "S_IFLNK \<equiv> 40960"

definition S_ISDIR :: "mode_t \<Rightarrow> bool" where
  "S_ISDIR m = (m AND S_IFMT = S_IFDIR)"

definition S_ISLNK :: "mode_t \<Rightarrow> bool" where
  "S_ISLNK m = (m AND S_IFMT = S_IFLNK)"

definition S_ISREG :: "mode_t \<Rightarrow> bool" where
  "S_ISREG m = (m AND S_IFMT = S_IFREG)"

text \<open>The values of \<^verbatim>\<open>errno\<close> the program tests or the file system reports; 0 is no error.\<close>

abbreviation EPERM :: nat where "EPERM \<equiv> 1"
abbreviation ENOENT :: nat where "ENOENT \<equiv> 2"
abbreviation EINTR :: nat where "EINTR \<equiv> 4"
abbreviation EEXIST :: nat where "EEXIST \<equiv> 17"
abbreviation ENOTDIR :: nat where "ENOTDIR \<equiv> 20"
abbreviation EINVAL :: nat where "EINVAL \<equiv> 22"
abbreviation ENOSPC :: nat where "ENOSPC \<equiv> 28"
abbreviation ELOOP :: nat where "ELOOP \<equiv> 40"
abbreviation ENOTSUP :: nat where "ENOTSUP \<equiv> 95"

text \<open>
  A descriptor is \<^verbatim>\<open>AT_FDCWD\<close> or refers to the entry that was opened, remembered by the
  path it was opened under. The program never renames or unlinks, so the path keeps
  naming the same entry.
\<close>

datatype fd = AT_FDCWD | Fd string

record path_info =
  full_path :: string
  dirfd :: fd
  name :: string

record link_name =
  ln_dev :: dev_t
  ln_ino :: ino_t
  ln_count :: nlink_t
  ln_name :: string

section \<open>The file system and the process state\<close>

text \<open>
  An inode carries the attributes \<^verbatim>\<open>struct stat\<close> reports and what the entry holds:
  the bytes of a regular file, the target of a symbolic link, the names \<^verbatim>\<open>readdir\<close>
  lists for a directory, an access control list and extended attributes.
\<close>

record inode =
  i_mode :: mode_t
  i_nlink :: nlink_t
  i_uid :: uid_t
  i_gid :: gid_t
  i_rdev :: dev_t
  i_atim :: timespec
  i_mtim :: timespec
  i_data :: "8 word list"
  i_target :: string
  i_entries :: "string list"
  i_acl :: "nat list"
  i_xattr :: "(string \<times> string) list"

datatype open_how =
    OpenDir     \<comment> \<open>\<^verbatim>\<open>O_DIRECTORY | O_RDONLY | O_NOFOLLOW | O_CLOEXEC\<close>\<close>
  | OpenRead    \<comment> \<open>\<^verbatim>\<open>O_RDONLY | O_NOFOLLOW | O_CLOEXEC\<close>, with or without \<^verbatim>\<open>O_NONBLOCK\<close>\<close>
  | OpenCreat mode_t
                \<comment> \<open>\<^verbatim>\<open>O_WRONLY | O_CREAT | O_EXCL | O_TRUNC | O_NOFOLLOW | O_CLOEXEC\<close> and the mode\<close>

text \<open>Every call that leaves the program, with its arguments, in the order it is made.\<close>

datatype syscall =
    Fstatat fd string bool
  | Openat fd string open_how
  | Fdopendir fd
  | Readdir fd
  | Closedir fd
  | Close fd
  | Mkdirat fd string mode_t
  | Mknodat fd string mode_t dev_t
  | Symlinkat string fd string
  | Linkat string fd string
  | Fchownat fd string uid_t gid_t
  | Fchown fd uid_t gid_t
  | Fchmodat fd string mode_t
  | Fchmod fd mode_t
  | Utimensat fd string timespec timespec
  | Areadlink string
  | Read fd
  | Write_full fd "8 word list"
  | Perm_copy_fd fd fd
  | Attr_copy_fd fd fd
  | Aprintf string
  | Set_selinux_file_context string mode_t
  | Reset_selinux_file_context

text \<open>
  The state is the file system (path names bound to inodes, inodes by device and inode
  number), the position of each descriptor opened for reading, \<^verbatim>\<open>errno\<close>, the calls made
  so far, and the three static variables of the file: \<^verbatim>\<open>src_orig\<close>, \<^verbatim>\<open>dst_orig\<close> and the
  list \<^verbatim>\<open>links\<close> (its head first). \<open>fault\<close> is the environment's part: the \<open>n\<close>-th
  call fails with \<open>fault n\<close> when that is not 0, whatever the file system holds, which
  stands for every failure the model does not derive (permissions, a full disk, an
  interrupted call, memory).
\<close>

record state =
  names :: "string \<rightharpoonup> dev_t \<times> ino_t"
  inodes :: "dev_t \<times> ino_t \<rightharpoonup> inode"
  next_ino :: ino_t
  offsets :: "string \<rightharpoonup> nat"
  errno :: nat
  trace :: "syscall list"
  fault :: "nat \<Rightarrow> nat"
  src_orig :: "string option"
  dst_orig :: "string option"
  links :: "link_name list"

text \<open>A call's result: what the function returns and the state it leaves.\<close>

datatype 'a outcome =
    Return 'a state
  | Abort state    \<comment> \<open>a failed \<^verbatim>\<open>assert\<close>: the process is killed\<close>
  | Diverge        \<comment> \<open>the recursion or the read loop did not end within the fuel given\<close>

definition fault_now :: "state \<Rightarrow> nat" where
  "fault_now s = fault s (length (trace s))"

definition now :: "state \<Rightarrow> timespec" where
  "now s = \<lparr>tv_sec = int (length (trace s)), tv_nsec = 0\<rparr>"

definition logged :: "syscall \<Rightarrow> state \<Rightarrow> state" where
  "logged c s = s\<lparr>trace := trace s @ [c]\<rparr>"

definition failing :: "syscall \<Rightarrow> nat \<Rightarrow> state \<Rightarrow> state" where
  "failing c e s = (logged c s)\<lparr>errno := e\<rparr>"

fun at_path :: "fd \<Rightarrow> string \<Rightarrow> string" where
  "at_path AT_FDCWD nm = nm"
| "at_path (Fd d) nm = d @ ''/'' @ nm"

text \<open>The entry a descriptor refers to; \<^verbatim>\<open>AT_FDCWD\<close> is the working directory.\<close>

fun fd_path :: "fd \<Rightarrow> string" where
  "fd_path AT_FDCWD = ''.''"
| "fd_path (Fd p) = p"

definition lookup :: "state \<Rightarrow> string \<Rightarrow> ((dev_t \<times> ino_t) \<times> inode) option" where
  "lookup s p =
     (case names s p of
        None \<Rightarrow> None
      | Some k \<Rightarrow> (case inodes s k of None \<Rightarrow> None | Some i \<Rightarrow> Some (k, i)))"

definition stat_of :: "dev_t \<times> ino_t \<Rightarrow> inode \<Rightarrow> stat" where
  "stat_of k i =
     \<lparr>st_dev = fst k, st_ino = snd k, st_mode = i_mode i, st_nlink = i_nlink i,
      st_uid = i_uid i, st_gid = i_gid i, st_rdev = i_rdev i,
      st_atim = i_atim i, st_mtim = i_mtim i\<rparr>"

text \<open>
  Following a symbolic link (only the \<^verbatim>\<open>fstatat\<close> with flags 0 does): the target is looked
  up as a path of its own, at most 40 links deep.
\<close>

fun follow :: "nat \<Rightarrow> state \<Rightarrow> string \<Rightarrow> ((dev_t \<times> ino_t) \<times> inode) option" where
  "follow 0 s p = None"
| "follow (Suc n) s p =
     (case lookup s p of
        None \<Rightarrow> None
      | Some (k, i) \<Rightarrow> if S_ISLNK (i_mode i) then follow n s (i_target i) else Some (k, i))"

definition fstatat :: "fd \<Rightarrow> string \<Rightarrow> bool \<Rightarrow> state \<Rightarrow> stat option \<times> state" where
  "fstatat d nm nofollow s =
     (let c = Fstatat d nm nofollow in
      if fault_now s \<noteq> 0 then (None, failing c (fault_now s) s)
      else case (if nofollow then lookup s (at_path d nm) else follow 40 s (at_path d nm)) of
        None \<Rightarrow> (None, failing c ENOENT s)
      | Some (k, i) \<Rightarrow> (Some (stat_of k i), logged c s))"

text \<open>
  Creating an entry: a fresh inode on the device of the parent directory, bound to the
  new name and listed in the parent, whose modification time changes. The parent of a
  path given relative to the working directory lies outside the tree the program walks
  and is not tracked.
\<close>

definition parent_dev :: "fd \<Rightarrow> state \<Rightarrow> dev_t option" where
  "parent_dev d s =
     (case d of
        AT_FDCWD \<Rightarrow> Some 0
      | Fd dp \<Rightarrow> (case lookup s dp of
                   None \<Rightarrow> None
                 | Some (k, i) \<Rightarrow> if S_ISDIR (i_mode i) then Some (fst k) else None))"

definition enter :: "fd \<Rightarrow> string \<Rightarrow> dev_t \<times> ino_t \<Rightarrow> state \<Rightarrow> state" where
  "enter d nm k s =
     (let s1 = s\<lparr>names := (names s)(at_path d nm \<mapsto> k)\<rparr> in
      case d of
        AT_FDCWD \<Rightarrow> s1
      | Fd dp \<Rightarrow>
          (case lookup s1 dp of
             None \<Rightarrow> s1
           | Some (pk, pi) \<Rightarrow>
               s1\<lparr>inodes := (inodes s1)(pk \<mapsto> pi\<lparr>i_entries := i_entries pi @ [nm],
                                                    i_mtim := now s\<rparr>)\<rparr>))"

definition new_inode :: "mode_t \<Rightarrow> state \<Rightarrow> inode" where
  "new_inode m s =
     \<lparr>i_mode = m, i_nlink = (if S_ISDIR m then 2 else 1), i_uid = 0, i_gid = 0, i_rdev = 0,
      i_atim = now s, i_mtim = now s, i_data = [], i_target = [], i_entries = [],
      i_acl = [], i_xattr = []\<rparr>"

definition create :: "syscall \<Rightarrow> fd \<Rightarrow> string \<Rightarrow> inode \<Rightarrow> state \<Rightarrow> int \<times> state" where
  "create c d nm i s =
     (if fault_now s \<noteq> 0 then (-1, failing c (fault_now s) s)
      else if names s (at_path d nm) \<noteq> None then (-1, failing c EEXIST s)
      else case parent_dev d s of
        None \<Rightarrow> (-1, failing c ENOENT s)
      | Some dv \<Rightarrow>
          if inodes s (dv, next_ino s) \<noteq> None then (-1, failing c ENOSPC s)
          else (0, logged c (enter d nm (dv, next_ino s)
                  (s\<lparr>inodes := (inodes s)((dv, next_ino s) \<mapsto> i),
                     next_ino := next_ino s + 1\<rparr>))))"

definition mkdirat :: "fd \<Rightarrow> string \<Rightarrow> mode_t \<Rightarrow> state \<Rightarrow> int \<times> state" where
  "mkdirat d nm m s = create (Mkdirat d nm m) d nm (new_inode (S_IFDIR OR (m AND 4095)) s) s"

text \<open>\<^verbatim>\<open>mknod\<close> makes regular files, devices, fifos and sockets, never a directory or a link.\<close>

definition mknodat :: "fd \<Rightarrow> string \<Rightarrow> mode_t \<Rightarrow> dev_t \<Rightarrow> state \<Rightarrow> int \<times> state" where
  "mknodat d nm m rdev s =
     (if fault_now s = 0 \<and> (S_ISDIR m \<or> S_ISLNK m)
      then (-1, failing (Mknodat d nm m rdev) EINVAL s)
      else create (Mknodat d nm m rdev) d nm ((new_inode m s)\<lparr>i_rdev := rdev\<rparr>) s)"

definition symlinkat :: "string \<Rightarrow> fd \<Rightarrow> string \<Rightarrow> state \<Rightarrow> int \<times> state" where
  "symlinkat target d nm s =
     create (Symlinkat target d nm) d nm ((new_inode (S_IFLNK OR 511) s)\<lparr>i_target := target\<rparr>) s"

text \<open>
  \<^verbatim>\<open>linkat (AT_FDCWD, old, d, nm, 0)\<close>: a second name for the inode \<open>old\<close> names, whose link
  count grows; directories cannot be linked.
\<close>

definition linkat :: "string \<Rightarrow> fd \<Rightarrow> string \<Rightarrow> state \<Rightarrow> int \<times> state" where
  "linkat old d nm s =
     (let c = Linkat old d nm in
      if fault_now s \<noteq> 0 then (-1, failing c (fault_now s) s)
      else case lookup s old of
        None \<Rightarrow> (-1, failing c ENOENT s)
      | Some (k, i) \<Rightarrow>
          if S_ISDIR (i_mode i) then (-1, failing c EPERM s)
          else if names s (at_path d nm) \<noteq> None then (-1, failing c EEXIST s)
          else if parent_dev d s = None then (-1, failing c ENOENT s)
          else (0, logged c (enter d nm k
                  (s\<lparr>inodes := (inodes s)(k \<mapsto> i\<lparr>i_nlink := i_nlink i + 1\<rparr>)\<rparr>))))"

text \<open>Changing the attributes of the entry a path names.\<close>

definition modify :: "syscall \<Rightarrow> string \<Rightarrow> (inode \<Rightarrow> inode) \<Rightarrow> state \<Rightarrow> int \<times> state" where
  "modify c p f s =
     (if fault_now s \<noteq> 0 then (-1, failing c (fault_now s) s)
      else case lookup s p of
        None \<Rightarrow> (-1, failing c ENOENT s)
      | Some (k, i) \<Rightarrow> (0, logged c (s\<lparr>inodes := (inodes s)(k \<mapsto> f i)\<rparr>)))"

text \<open>\<^verbatim>\<open>chown\<close> leaves an id alone when it is given as \<open>-1\<close>.\<close>

definition set_owner :: "uid_t \<Rightarrow> gid_t \<Rightarrow> inode \<Rightarrow> inode" where
  "set_owner u g i =
     i\<lparr>i_uid := (if u = - 1 then i_uid i else u), i_gid := (if g = - 1 then i_gid i else g)\<rparr>"

definition fchownat :: "fd \<Rightarrow> string \<Rightarrow> uid_t \<Rightarrow> gid_t \<Rightarrow> state \<Rightarrow> int \<times> state" where
  "fchownat d nm u g s = modify (Fchownat d nm u g) (at_path d nm) (set_owner u g) s"

definition fchown :: "fd \<Rightarrow> uid_t \<Rightarrow> gid_t \<Rightarrow> state \<Rightarrow> int \<times> state" where
  "fchown f u g s = modify (Fchown f u g) (fd_path f) (set_owner u g) s"

definition set_mode :: "mode_t \<Rightarrow> inode \<Rightarrow> inode" where
  "set_mode m i = i\<lparr>i_mode := (i_mode i AND S_IFMT) OR (m AND 4095)\<rparr>"

definition fchmodat :: "fd \<Rightarrow> string \<Rightarrow> mode_t \<Rightarrow> state \<Rightarrow> int \<times> state" where
  "fchmodat d nm m s = modify (Fchmodat d nm m) (at_path d nm) (set_mode m) s"

definition fchmod :: "fd \<Rightarrow> mode_t \<Rightarrow> state \<Rightarrow> int \<times> state" where
  "fchmod f m s = modify (Fchmod f m) (fd_path f) (set_mode m) s"

definition utimensat :: "fd \<Rightarrow> string \<Rightarrow> timespec \<times> timespec \<Rightarrow> state \<Rightarrow> int \<times> state" where
  "utimensat d nm mt s =
     modify (Utimensat d nm (fst mt) (snd mt)) (at_path d nm)
       (\<lambda>i. i\<lparr>i_atim := fst mt, i_mtim := snd mt\<rparr>) s"

text \<open>
  \<^verbatim>\<open>openat\<close> in the three ways the program calls it. None of them follows a symbolic
  link in the last component; creating is exclusive.
\<close>

definition openat :: "fd \<Rightarrow> string \<Rightarrow> open_how \<Rightarrow> state \<Rightarrow> fd option \<times> state" where
  "openat d nm how s =
     (let c = Openat d nm how; p = at_path d nm in
      case how of
        OpenCreat m \<Rightarrow>
          (case create c d nm (new_inode (S_IFREG OR (m AND 4095)) s) s of
             (r, s') \<Rightarrow> (if r = 0 then Some (Fd p) else None, s'))
      | _ \<Rightarrow>
          if fault_now s \<noteq> 0 then (None, failing c (fault_now s) s)
          else case lookup s p of
            None \<Rightarrow> (None, failing c ENOENT s)
          | Some (k, i) \<Rightarrow>
              if S_ISLNK (i_mode i) then (None, failing c ELOOP s)
              else if how = OpenDir \<and> \<not> S_ISDIR (i_mode i) then (None, failing c ENOTDIR s)
              else (Some (Fd p), logged c (s\<lparr>offsets := (offsets s)(p \<mapsto> 0)\<rparr>)))"

text \<open>
  \<^verbatim>\<open>fdopendir\<close> gives the stream of names \<^verbatim>\<open>readdir\<close> will return: \<open>.\<close>, \<open>..\<close> and the
  entries the directory lists when it is opened. \<^verbatim>\<open>readdir\<close> returns the next name, or
  \<^verbatim>\<open>NULL\<close> at the end or on an error.
\<close>

definition fdopendir :: "fd \<Rightarrow> state \<Rightarrow> string list option \<times> state" where
  "fdopendir f s =
     (let c = Fdopendir f in
      if fault_now s \<noteq> 0 then (None, failing c (fault_now s) s)
      else case lookup s (fd_path f) of
        None \<Rightarrow> (None, failing c ENOENT s)
      | Some (k, i) \<Rightarrow>
          if S_ISDIR (i_mode i) then (Some (''.'' # ''..'' # i_entries i), logged c s)
          else (None, failing c ENOTDIR s))"

definition readdir :: "fd \<Rightarrow> string list \<Rightarrow> state \<Rightarrow> (string \<times> string list) option \<times> state" where
  "readdir f ents s =
     (let c = Readdir f in
      if fault_now s \<noteq> 0 then (None, failing c (fault_now s) s)
      else case ents of
        [] \<Rightarrow> (None, logged c s)
      | e # es \<Rightarrow> (Some (e, es), logged c s))"

definition simple_call :: "syscall \<Rightarrow> state \<Rightarrow> int \<times> state" where
  "simple_call c s =
     (if fault_now s \<noteq> 0 then (-1, failing c (fault_now s) s) else (0, logged c s))"

definition closedir :: "fd \<Rightarrow> state \<Rightarrow> int \<times> state" where
  "closedir f s = simple_call (Closedir f) s"

definition close :: "fd \<Rightarrow> state \<Rightarrow> int \<times> state" where
  "close f s = simple_call (Close f) s"

definition set_selinux_file_context :: "string \<Rightarrow> mode_t \<Rightarrow> state \<Rightarrow> int \<times> state" where
  "set_selinux_file_context p m s = simple_call (Set_selinux_file_context p m) s"

definition reset_selinux_file_context :: "state \<Rightarrow> int \<times> state" where
  "reset_selinux_file_context s = simple_call Reset_selinux_file_context s"

text \<open>\<^verbatim>\<open>aprintf\<close> returns the formatted string, or \<^verbatim>\<open>NULL\<close> when memory is short.\<close>

definition aprintf :: "string \<Rightarrow> state \<Rightarrow> string option \<times> state" where
  "aprintf str s =
     (case simple_call (Aprintf str) s of (r, s') \<Rightarrow> (if r = 0 then Some str else None, s'))"

definition areadlink :: "string \<Rightarrow> state \<Rightarrow> string option \<times> state" where
  "areadlink p s =
     (let c = Areadlink p in
      if fault_now s \<noteq> 0 then (None, failing c (fault_now s) s)
      else case lookup s p of
        None \<Rightarrow> (None, failing c ENOENT s)
      | Some (k, i) \<Rightarrow>
          if S_ISLNK (i_mode i) then (Some (i_target i), logged c s)
          else (None, failing c EINVAL s))"

text \<open>
  \<^verbatim>\<open>read (fd, buf, 8192)\<close>: the next bytes of the file, at most 8192 of them, and the
  descriptor moves on; \<open>None\<close> is the result \<open>-1\<close>.
\<close>

definition read :: "fd \<Rightarrow> state \<Rightarrow> 8 word list option \<times> state" where
  "read f s =
     (let c = Read f; p = fd_path f in
      if fault_now s \<noteq> 0 then (None, failing c (fault_now s) s)
      else case lookup s p of
        None \<Rightarrow> (None, failing c ENOENT s)
      | Some (k, i) \<Rightarrow>
          (let off = (case offsets s p of None \<Rightarrow> 0 | Some n \<Rightarrow> n);
               buf = take 8192 (drop off (i_data i))
           in (Some buf, logged c (s\<lparr>offsets := (offsets s)(p \<mapsto> off + length buf)\<rparr>))))"

text \<open>\<^verbatim>\<open>write_full\<close> writes the whole buffer at the end of the file, or fails.\<close>

definition write_full :: "fd \<Rightarrow> 8 word list \<Rightarrow> state \<Rightarrow> int \<times> state" where
  "write_full f buf s =
     modify (Write_full f buf) (fd_path f) (\<lambda>i. i\<lparr>i_data := i_data i @ buf, i_mtim := now s\<rparr>) s"

text \<open>
  \<^verbatim>\<open>error_acl\<close> is the callback the ACL and attribute libraries report an error to: it
  clears \<^verbatim>\<open>errno\<close> when the destination does not support them and logs the others.
\<close>

definition error_acl :: "nat \<Rightarrow> nat" where
  "error_acl e = (if ENOTSUP = e then 0 else e)"

text \<open>
  The library calls that copy the access control list and the extended attributes from
  one open file to another. On a failure they call \<^verbatim>\<open>error_acl\<close> and return \<open>-1\<close>.
\<close>

definition lib_copy :: "syscall \<Rightarrow> fd \<Rightarrow> fd \<Rightarrow> (inode \<Rightarrow> inode \<Rightarrow> inode) \<Rightarrow> state \<Rightarrow> int \<times> state" where
  "lib_copy c ifd ofd f s =
     (if fault_now s \<noteq> 0 then (-1, failing c (error_acl (fault_now s)) s)
      else case lookup s (fd_path ifd) of
        None \<Rightarrow> (-1, failing c ENOENT s)
      | Some (k, i) \<Rightarrow>
          (case lookup s (fd_path ofd) of
             None \<Rightarrow> (-1, failing c ENOENT s)
           | Some (k', i') \<Rightarrow> (0, logged c (s\<lparr>inodes := (inodes s)(k' \<mapsto> f i i')\<rparr>))))"

definition perm_copy_fd :: "fd \<Rightarrow> fd \<Rightarrow> state \<Rightarrow> int \<times> state" where
  "perm_copy_fd ifd ofd s = lib_copy (Perm_copy_fd ifd ofd) ifd ofd (\<lambda>i i'. i'\<lparr>i_acl := i_acl i\<rparr>) s"

definition attr_copy_fd :: "fd \<Rightarrow> fd \<Rightarrow> state \<Rightarrow> int \<times> state" where
  "attr_copy_fd ifd ofd s =
     lib_copy (Attr_copy_fd ifd ofd) ifd ofd (\<lambda>i i'. i'\<lparr>i_xattr := i_xattr i\<rparr>) s"

section \<open>The functions of \<^verbatim>\<open>lib/copydir.c\<close>\<close>

text \<open>
  The model is the file as built with \<^verbatim>\<open>WITH_SELINUX\<close>, \<^verbatim>\<open>WITH_ACL\<close> and \<^verbatim>\<open>WITH_ATTR\<close>.
  Messages written to the log are left out. \<^verbatim>\<open>XMALLOC\<close> and \<^verbatim>\<open>xaprintf\<close> end the process
  when memory is short and are taken to succeed.
\<close>

definition perm_copy_path :: "path_info \<Rightarrow> path_info \<Rightarrow> state \<Rightarrow> int \<times> state" where
  "perm_copy_path src dst s =
     (case openat (dirfd src) (name src) OpenRead s of
        (None, s) \<Rightarrow> (-1, s)
      | (Some src_fd, s) \<Rightarrow>
     (case openat (dirfd dst) (name dst) OpenRead s of
        (None, s) \<Rightarrow> (-1, snd (close src_fd s))
      | (Some dst_fd, s) \<Rightarrow>
     (case perm_copy_fd src_fd dst_fd s of
        (ret, s) \<Rightarrow> (ret, snd (close dst_fd (snd (close src_fd s)))))))"

definition attr_copy_path :: "path_info \<Rightarrow> path_info \<Rightarrow> state \<Rightarrow> int \<times> state" where
  "attr_copy_path src dst s =
     (case openat (dirfd src) (name src) OpenRead s of
        (None, s) \<Rightarrow> (-1, s)
      | (Some src_fd, s) \<Rightarrow>
     (case openat (dirfd dst) (name dst) OpenRead s of
        (None, s) \<Rightarrow> (-1, snd (close src_fd s))
      | (Some dst_fd, s) \<Rightarrow>
     (case attr_copy_fd src_fd dst_fd s of
        (ret, s) \<Rightarrow> (ret, snd (close dst_fd (snd (close src_fd s)))))))"

text \<open>
  A pointer to a node of the list \<^verbatim>\<open>links\<close> is the node's position in the list.
  \<^verbatim>\<open>remove_link\<close> unlinks the node the pointer names and frees it; a pointer to no node of
  the list changes nothing in it.
\<close>

definition remove_link :: "nat \<Rightarrow> state \<Rightarrow> state" where
  "remove_link ln s =
     (if ln < length (links s)
      then s\<lparr>links := take ln (links s) @ drop (Suc ln) (links s)\<rparr>
      else s)"

fun find_link :: "dev_t \<Rightarrow> ino_t \<Rightarrow> link_name list \<Rightarrow> nat option" where
  "find_link dv ino [] = None"
| "find_link dv ino (lp # lps) =
     (if ln_dev lp = dv \<and> ln_ino lp = ino then Some 0
      else map_option Suc (find_link dv ino lps))"

text \<open>
  \<^verbatim>\<open>name + strlen (src_orig)\<close> is the name without its first \<^verbatim>\<open>strlen (src_orig)\<close>
  characters; the program only calls \<^verbatim>\<open>check_link\<close> with names that are that long.
\<close>

definition check_link :: "string \<Rightarrow> stat \<Rightarrow> state \<Rightarrow> nat option outcome" where
  "check_link nm sb s =
     (case (src_orig s, dst_orig s) of
        (Some so, Some dsto) \<Rightarrow>
          (case find_link (st_dev sb) (st_ino sb) (links s) of
             Some lp \<Rightarrow> Return (Some lp) s
           | None \<Rightarrow>
               if st_nlink sb = 1 then Return None s
               else Return None
                      (s\<lparr>links := \<lparr>ln_dev = st_dev sb, ln_ino = st_ino sb,
                                    ln_count = st_nlink sb,
                                    ln_name = dsto @ drop (length so) nm\<rparr> # links s\<rparr>))
      | _ \<Rightarrow> Abort s)"

text \<open>
  \<^verbatim>\<open>chownat_if_needed\<close> and the \<^verbatim>\<open>fchown_if_needed\<close> the macro \<^verbatim>\<open>def_chown_if_needed\<close>
  generates compute the same two ids; \<open>tmp_id\<close> is that computation for one of them.
\<close>

definition tmp_id :: "32 word \<Rightarrow> 32 word \<Rightarrow> 32 word \<Rightarrow> 32 word" where
  "tmp_id old_id new_id st_id =
     (let tmpid = (if - 1 = old_id \<or> st_id = old_id then new_id else - 1)
      in if - 1 = tmpid then st_id else tmpid)"

definition chownat_if_needed ::
  "path_info \<Rightarrow> stat \<Rightarrow> uid_t \<Rightarrow> uid_t \<Rightarrow> gid_t \<Rightarrow> gid_t \<Rightarrow> state \<Rightarrow> int \<times> state" where
  "chownat_if_needed dst statp old_uid new_uid old_gid new_gid s =
     fchownat (dirfd dst) (name dst)
       (tmp_id old_uid new_uid (st_uid statp)) (tmp_id old_gid new_gid (st_gid statp)) s"

definition fchown_if_needed ::
  "fd \<Rightarrow> stat \<Rightarrow> uid_t \<Rightarrow> uid_t \<Rightarrow> gid_t \<Rightarrow> gid_t \<Rightarrow> state \<Rightarrow> int \<times> state" where
  "fchown_if_needed dst statp old_uid new_uid old_gid new_gid s =
     fchown dst
       (tmp_id old_uid new_uid (st_uid statp)) (tmp_id old_gid new_gid (st_gid statp)) s"

text \<open>
  \<^verbatim>\<open>copy_hardlink\<close>: \<open>lp\<close> points into \<^verbatim>\<open>links\<close>. The count is unsigned, so \<open>\<le> 0\<close> is
  \<open>= 0\<close> and the decrement of 0 wraps around.
\<close>

definition copy_hardlink :: "path_info \<Rightarrow> bool \<Rightarrow> nat \<Rightarrow> state \<Rightarrow> int outcome" where
  "copy_hardlink dst reset_selinux lp s =
     (if \<not> lp < length (links s) then Abort s
      else case linkat (ln_name (links s ! lp)) (dirfd dst) (name dst) s of
        (r, s) \<Rightarrow>
          if r \<noteq> 0 then Return (-1) s
          else
            (let s = s\<lparr>links := (links s)[lp := (links s ! lp)\<lparr>ln_count := ln_count (links s ! lp) - 1\<rparr>]\<rparr>
             in if ln_count (links s ! lp) \<le> 0 then Return 0 (remove_link lp s)
                else Return 0 s))"

text \<open>
  Modelled from the spec: \<^verbatim>\<open>strprefix\<close> (\<^verbatim>\<open>string/strcmp/strprefix.h\<close> is not among the
  sources) tells whether a string begins with a prefix.
\<close>

definition strprefix :: "string \<Rightarrow> string \<Rightarrow> bool" where
  "strprefix str pfx = (take (length pfx) str = pfx)"

definition copy_symlink ::
  "path_info \<Rightarrow> path_info \<Rightarrow> bool \<Rightarrow> stat \<Rightarrow> timespec \<times> timespec \<Rightarrow>
   uid_t \<Rightarrow> uid_t \<Rightarrow> gid_t \<Rightarrow> gid_t \<Rightarrow> state \<Rightarrow> int outcome" where
  "copy_symlink src dst reset_selinux statp mt old_uid new_uid old_gid new_gid s =
     (case (src_orig s, dst_orig s) of
        (Some so, Some dsto) \<Rightarrow>
          (case areadlink (full_path src) s of
             (None, s) \<Rightarrow> Return (-1) s
           | (Some oldlink, s) \<Rightarrow>
          (let oldlink = (if strprefix oldlink so then dsto @ drop (length so) oldlink
                          else oldlink)
           in
          (case set_selinux_file_context (full_path dst) S_IFLNK s of (r, s) \<Rightarrow>
             if r \<noteq> 0 then Return (-1) s else
          (case symlinkat oldlink (dirfd dst) (name dst) s of (r, s) \<Rightarrow>
             if r \<noteq> 0 then Return (-1) s else
          (case chownat_if_needed dst statp old_uid new_uid old_gid new_gid s of (r, s) \<Rightarrow>
             if r \<noteq> 0 then Return (-1) s else
          (case utimensat (dirfd dst) (name dst) mt s of (r, s) \<Rightarrow>
             if r \<noteq> 0 then Return (-1) s else Return 0 s))))))
      | _ \<Rightarrow> Abort s)"

text \<open>\<open>07777\<close> is 4095; \<^verbatim>\<open>st_mode & ~07777U\<close> keeps the file type bits.\<close>

definition copy_special ::
  "path_info \<Rightarrow> path_info \<Rightarrow> bool \<Rightarrow> stat \<Rightarrow> timespec \<times> timespec \<Rightarrow>
   uid_t \<Rightarrow> uid_t \<Rightarrow> gid_t \<Rightarrow> gid_t \<Rightarrow> state \<Rightarrow> int outcome" where
  "copy_special src dst reset_selinux statp mt old_uid new_uid old_gid new_gid s =
     (case set_selinux_file_context (full_path dst) (st_mode statp AND S_IFMT) s of (r, s) \<Rightarrow>
        if r \<noteq> 0 then Return (-1) s else
     (case mknodat (dirfd dst) (name dst) (st_mode statp AND NOT 4095) (st_rdev statp) s of
        (r, s) \<Rightarrow>
        if r = -1 then Return (-1) s else
     (case chownat_if_needed dst statp old_uid new_uid old_gid new_gid s of (r, s) \<Rightarrow>
        if r = -1 then Return (-1) s else
     (case fchmodat (dirfd dst) (name dst) (st_mode statp AND 4095) s of (r, s) \<Rightarrow>
        if r = -1 then Return (-1) s else
     (case perm_copy_path src dst s of (r, s) \<Rightarrow>
        if r = -1 \<and> errno s \<noteq> 0 then Return (-1) s else
     (case (if \<not> reset_selinux then attr_copy_path src dst s else (0, s)) of (r, s) \<Rightarrow>
        if \<not> reset_selinux \<and> r = -1 \<and> errno s \<noteq> 0 then Return (-1) s else
     (case utimensat (dirfd dst) (name dst) mt s of (r, s) \<Rightarrow>
        if r = -1 then Return (-1) s else Return 0 s)))))))"

text \<open>
  The read loop of \<^verbatim>\<open>copy_file\<close>. An interrupted read is tried again, so the loop has
  no bound of its own: one unit of fuel per pass. It returns 0 at the end of the file
  and \<open>-1\<close> where the function returns early, both descriptors closed.
\<close>

fun copy_data :: "nat \<Rightarrow> fd \<Rightarrow> fd \<Rightarrow> state \<Rightarrow> int outcome" where
  "copy_data 0 ifd ofd s = Diverge"
| "copy_data (Suc n) ifd ofd s =
     (case read ifd s of
        (None, s) \<Rightarrow>
          if errno s = EINTR then copy_data n ifd ofd s
          else Return (-1) (snd (close ifd (snd (close ofd s))))
      | (Some buf, s) \<Rightarrow>
          if buf = [] then Return 0 s
          else (case write_full ofd buf s of (r, s) \<Rightarrow>
                  if r = -1 then Return (-1) (snd (close ifd (snd (close ofd s))))
                  else copy_data n ifd ofd s))"

text \<open>\<open>0600\<close> is 384.\<close>

definition copy_file ::
  "nat \<Rightarrow> path_info \<Rightarrow> path_info \<Rightarrow> bool \<Rightarrow> stat \<Rightarrow> timespec \<times> timespec \<Rightarrow>
   uid_t \<Rightarrow> uid_t \<Rightarrow> gid_t \<Rightarrow> gid_t \<Rightarrow> state \<Rightarrow> int outcome" where
  "copy_file fuel src dst reset_selinux statp mt old_uid new_uid old_gid new_gid s =
     (case openat (dirfd src) (name src) OpenRead s of
        (None, s) \<Rightarrow> Return (-1) s
      | (Some ifd, s) \<Rightarrow>
     (case set_selinux_file_context (full_path dst) S_IFREG s of (r, s) \<Rightarrow>
        if r \<noteq> 0 then Return (-1) (snd (close ifd s)) else
     (case openat (dirfd dst) (name dst) (OpenCreat 384) s of
        (None, s) \<Rightarrow> Return (-1) (snd (close ifd s))
      | (Some ofd, s) \<Rightarrow>
     (case fchown_if_needed ofd statp old_uid new_uid old_gid new_gid s of (r, s) \<Rightarrow>
        if r \<noteq> 0 then Return (-1) (snd (close ifd (snd (close ofd s)))) else
     (case fchmod ofd (st_mode statp AND 4095) s of (r, s) \<Rightarrow>
        if r \<noteq> 0 then Return (-1) (snd (close ifd (snd (close ofd s)))) else
     (case perm_copy_fd ifd ofd s of (r, s) \<Rightarrow>
        if r \<noteq> 0 \<and> errno s \<noteq> 0 then Return (-1) (snd (close ifd (snd (close ofd s)))) else
     (case (if \<not> reset_selinux then attr_copy_fd ifd ofd s else (0, s)) of (r, s) \<Rightarrow>
        if \<not> reset_selinux \<and> r \<noteq> 0 \<and> errno s \<noteq> 0
        then Return (-1) (snd (close ifd (snd (close ofd s)))) else
     (case copy_data fuel ifd ofd s of
        Diverge \<Rightarrow> Diverge
      | Abort s \<Rightarrow> Abort s
      | Return r s \<Rightarrow>
          if r \<noteq> 0 then Return (-1) s else
     (case close ifd s of (r, s) \<Rightarrow>
     (case close ofd s of (r, s) \<Rightarrow>
        if r \<noteq> 0 \<and> errno s \<noteq> EINTR then Return (-1) s else
     (case utimensat (dirfd dst) (name dst) mt s of (r, s) \<Rightarrow>
        if r \<noteq> 0 then Return (-1) s else Return 0 s)))))))))))"

text \<open>
  The walker. \<^verbatim>\<open>copy_tree_impl\<close>, \<^verbatim>\<open>copy_entry\<close> and \<^verbatim>\<open>copy_dir\<close> call each other, and a
  destination inside the source makes the recursion endless, so each call of
  \<^verbatim>\<open>copy_tree_impl\<close> takes one unit of fuel. The three bodies are written first, with
  \<open>impl\<close> standing for the recursive call of \<^verbatim>\<open>copy_tree_impl\<close> and \<open>n\<close> for the fuel
  left; \<open>copy_tree_impl\<close> then closes the recursion. \<open>0700\<close> is 448.
\<close>

type_synonym copy_tree_impl_t =
  "path_info \<Rightarrow> path_info \<Rightarrow> bool \<Rightarrow> bool \<Rightarrow>
   uid_t \<Rightarrow> uid_t \<Rightarrow> gid_t \<Rightarrow> gid_t \<Rightarrow> state \<Rightarrow> int outcome"

definition copy_dir_body ::
  "copy_tree_impl_t \<Rightarrow> path_info \<Rightarrow> path_info \<Rightarrow> bool \<Rightarrow> stat \<Rightarrow> timespec \<times> timespec \<Rightarrow>
   uid_t \<Rightarrow> uid_t \<Rightarrow> gid_t \<Rightarrow> gid_t \<Rightarrow> state \<Rightarrow> int outcome" where
  "copy_dir_body impl src dst reset_selinux statp mt old_uid new_uid old_gid new_gid s =
     (case set_selinux_file_context (full_path dst) S_IFDIR s of (r, s) \<Rightarrow>
        if r \<noteq> 0 then Return (-1) s else
     (case fstatat (dirfd dst) (name dst) True s of (dst_sb, s) \<Rightarrow>
        if (case dst_sb of None \<Rightarrow> False | Some sb \<Rightarrow> S_ISDIR (st_mode sb))
        then
          (case impl src dst False reset_selinux old_uid new_uid old_gid new_gid s of
             Diverge \<Rightarrow> Diverge
           | Abort s \<Rightarrow> Abort s
           | Return r s \<Rightarrow> Return (if r \<noteq> 0 then 1 else 0) s)
        else
     (case mkdirat (dirfd dst) (name dst) 448 s of (r, s) \<Rightarrow>
        if r \<noteq> 0 then Return (-1) s else
     (case chownat_if_needed dst statp old_uid new_uid old_gid new_gid s of (r, s) \<Rightarrow>
        if r \<noteq> 0 then Return (-1) s else
     (case fchmodat (dirfd dst) (name dst) (st_mode statp AND 4095) s of (r, s) \<Rightarrow>
        if r \<noteq> 0 then Return (-1) s else
     (case perm_copy_path src dst s of (r, s) \<Rightarrow>
        if r \<noteq> 0 \<and> errno s \<noteq> 0 then Return (-1) s else
     (case (if \<not> reset_selinux then attr_copy_path src dst s else (0, s)) of (r, s) \<Rightarrow>
        if \<not> reset_selinux \<and> r \<noteq> 0 \<and> errno s \<noteq> 0 then Return (-1) s else
     (case impl src dst False reset_selinux old_uid new_uid old_gid new_gid s of
        Diverge \<Rightarrow> Diverge
      | Abort s \<Rightarrow> Abort s
      | Return r s \<Rightarrow>
          if r \<noteq> 0 then Return (-1) s else
     (case utimensat (dirfd dst) (name dst) mt s of (r, s) \<Rightarrow>
        if r \<noteq> 0 then Return (-1) s else Return 0 s)))))))))"

definition copy_entry_body ::
  "copy_tree_impl_t \<Rightarrow> nat \<Rightarrow> path_info \<Rightarrow> path_info \<Rightarrow> bool \<Rightarrow>
   uid_t \<Rightarrow> uid_t \<Rightarrow> gid_t \<Rightarrow> gid_t \<Rightarrow> state \<Rightarrow> int outcome" where
  "copy_entry_body impl n src dst reset_selinux old_uid new_uid old_gid new_gid s =
     (case fstatat (dirfd src) (name src) True s of
        (None, s) \<Rightarrow> Return 0 s
      | (Some sb, s) \<Rightarrow>
     (let mt = (\<lparr>tv_sec = tv_sec (st_atim sb), tv_nsec = tv_nsec (st_atim sb)\<rparr>,
                \<lparr>tv_sec = tv_sec (st_mtim sb), tv_nsec = tv_nsec (st_mtim sb)\<rparr>)
      in
     (case (if S_ISDIR (st_mode sb)
            then copy_dir_body impl src dst reset_selinux sb mt
                   old_uid new_uid old_gid new_gid s
            else Return 0 s) of
        Diverge \<Rightarrow> Diverge
      | Abort s \<Rightarrow> Abort s
      | Return err s \<Rightarrow>
     (case fstatat (dirfd dst) (name dst) True s of
        (Some tmp_sb, s) \<Rightarrow> Return err s
      | (None, s) \<Rightarrow>
          if S_ISLNK (st_mode sb)
          then copy_symlink src dst reset_selinux sb mt old_uid new_uid old_gid new_gid s
          else
     (case check_link (full_path src) sb s of
        Diverge \<Rightarrow> Diverge
      | Abort s \<Rightarrow> Abort s
      | Return (Some lp) s \<Rightarrow> copy_hardlink dst reset_selinux lp s
      | Return None s \<Rightarrow>
          if \<not> S_ISREG (st_mode sb)
          then copy_special src dst reset_selinux sb mt old_uid new_uid old_gid new_gid s
          else copy_file n src dst reset_selinux sb mt old_uid new_uid old_gid new_gid s)))))"

text \<open>
  The \<^verbatim>\<open>while\<close> loop of \<^verbatim>\<open>copy_tree_impl\<close>, over the stream \<open>ents\<close> of the open source
  directory and with the value of \<^verbatim>\<open>err\<close>.
\<close>

function copy_loop ::
  "copy_tree_impl_t \<Rightarrow> nat \<Rightarrow> path_info \<Rightarrow> path_info \<Rightarrow> fd \<Rightarrow> fd \<Rightarrow> bool \<Rightarrow>
   uid_t \<Rightarrow> uid_t \<Rightarrow> gid_t \<Rightarrow> gid_t \<Rightarrow> string list \<Rightarrow> int \<Rightarrow> state \<Rightarrow> int outcome" where
  "copy_loop impl n src dst dir dst_fd reset_selinux old_uid new_uid old_gid new_gid ents err s =
     (if 0 \<noteq> err then Return err s else
      (case readdir dir ents s of
         (None, s) \<Rightarrow> Return err s
       | (Some (d_name, ents), s) \<Rightarrow>
           if d_name = ''.'' \<or> d_name = ''..''
           then copy_loop impl n src dst dir dst_fd reset_selinux
                  old_uid new_uid old_gid new_gid ents err s
           else
      (case aprintf (full_path src @ ''/'' @ d_name) s of
         (None, s) \<Rightarrow>
           copy_loop impl n src dst dir dst_fd reset_selinux
             old_uid new_uid old_gid new_gid ents (-1) s
       | (Some src_name, s) \<Rightarrow>
      (case aprintf (full_path dst @ ''/'' @ d_name) s of
         (None, s) \<Rightarrow>
           copy_loop impl n src dst dir dst_fd reset_selinux
             old_uid new_uid old_gid new_gid ents (-1) s
       | (Some dst_name, s) \<Rightarrow>
      (case copy_entry_body impl n \<lparr>full_path = src_name, dirfd = dir, name = d_name\<rparr>
              \<lparr>full_path = dst_name, dirfd = dst_fd, name = d_name\<rparr>
              reset_selinux old_uid new_uid old_gid new_gid s of
         Diverge \<Rightarrow> Diverge
       | Abort s \<Rightarrow> Abort s
       | Return err s \<Rightarrow>
           copy_loop impl n src dst dir dst_fd reset_selinux
             old_uid new_uid old_gid new_gid ents err s)))))"
  by pat_completeness simp
termination
  by (relation "measure (\<lambda>(impl, n, src, dst, dir, dst_fd, rs, ou, nu, og, ng, ents, err, s).
                  length ents)")
     (auto simp: readdir_def Let_def split: if_splits list.splits)

declare copy_loop.simps [simp del]

definition copy_tree_impl_body ::
  "copy_tree_impl_t \<Rightarrow> nat \<Rightarrow> path_info \<Rightarrow> path_info \<Rightarrow> bool \<Rightarrow> bool \<Rightarrow>
   uid_t \<Rightarrow> uid_t \<Rightarrow> gid_t \<Rightarrow> gid_t \<Rightarrow> state \<Rightarrow> int outcome" where
  "copy_tree_impl_body impl n src dst copy_root reset_selinux old_uid new_uid old_gid new_gid s =
     (if copy_root then
        (case fstatat (dirfd dst) (name dst) False s of (sb, s) \<Rightarrow>
           if sb \<noteq> None \<or> errno s \<noteq> ENOENT then Return (-1) s else
        (case fstatat (dirfd src) (name src) True s of
           (None, s) \<Rightarrow> Return (-1) s
         | (Some sb, s) \<Rightarrow>
             if \<not> S_ISDIR (st_mode sb) then Return (-1) s
             else copy_entry_body impl n src dst reset_selinux
                    old_uid new_uid old_gid new_gid s))
      else
        (case openat (dirfd src) (name src) OpenDir s of
           (None, s) \<Rightarrow> Return (-1) s
         | (Some src_fd, s) \<Rightarrow>
        (case openat (dirfd dst) (name dst) OpenDir s of
           (None, s) \<Rightarrow> Return (-1) (snd (close src_fd s))
         | (Some dst_fd, s) \<Rightarrow>
        (case fdopendir src_fd s of
           (None, s) \<Rightarrow> Return (-1) (snd (close dst_fd (snd (close src_fd s))))
         | (Some ents, s) \<Rightarrow>
        (let set_orig = (src_orig s = None);
             s = (if set_orig
                  then s\<lparr>src_orig := Some (full_path src), dst_orig := Some (full_path dst)\<rparr>
                  else s)
         in
        (case copy_loop impl n src dst src_fd dst_fd reset_selinux
                old_uid new_uid old_gid new_gid ents 0 s of
           Diverge \<Rightarrow> Diverge
         | Abort s \<Rightarrow> Abort s
         | Return err s \<Rightarrow>
        (let s = snd (close dst_fd (snd (closedir src_fd s)));
             s = (if set_orig then s\<lparr>src_orig := None, dst_orig := None\<rparr> else s)
         in
        (case reset_selinux_file_context s of (r, s) \<Rightarrow>
           if r \<noteq> 0 then Return (-1) s else Return err s))))))))"

primrec copy_tree_impl :: "nat \<Rightarrow> copy_tree_impl_t" where
  "copy_tree_impl 0 = (\<lambda>src dst copy_root reset_selinux old_uid new_uid old_gid new_gid s. Diverge)"
| "copy_tree_impl (Suc n) = copy_tree_impl_body (copy_tree_impl n) n"

definition copy_entry ::
  "nat \<Rightarrow> path_info \<Rightarrow> path_info \<Rightarrow> bool \<Rightarrow> uid_t \<Rightarrow> uid_t \<Rightarrow> gid_t \<Rightarrow> gid_t \<Rightarrow>
   state \<Rightarrow> int outcome" where
  "copy_entry n = copy_entry_body (copy_tree_impl n) n"

definition copy_dir ::
  "nat \<Rightarrow> path_info \<Rightarrow> path_info \<Rightarrow> bool \<Rightarrow> stat \<Rightarrow> timespec \<times> timespec \<Rightarrow>
   uid_t \<Rightarrow> uid_t \<Rightarrow> gid_t \<Rightarrow> gid_t \<Rightarrow> state \<Rightarrow> int outcome" where
  "copy_dir n = copy_dir_body (copy_tree_impl n)"

definition copy_tree ::
  "nat \<Rightarrow> string \<Rightarrow> string \<Rightarrow> bool \<Rightarrow> bool \<Rightarrow>
   uid_t \<Rightarrow> uid_t \<Rightarrow> gid_t \<Rightarrow> gid_t \<Rightarrow> state \<Rightarrow> int outcome" where
  "copy_tree fuel src_root dst_root copy_root reset_selinux old_uid new_uid old_gid new_gid s =
     copy_tree_impl fuel
       \<lparr>full_path = src_root, dirfd = AT_FDCWD, name = src_root\<rparr>
       \<lparr>full_path = dst_root, dirfd = AT_FDCWD, name = dst_root\<rparr>
       copy_root reset_selinux old_uid new_uid old_gid new_gid s"

section \<open>Example file systems\<close>

text \<open>
  A skeleton directory \<open>skel\<close> on device 1 with two names \<open>a\<close> and \<open>b\<close> of one regular
  file (mode 0644, link count 2) and a symbolic link \<open>bin\<close>, and an empty directory
  \<open>home\<close> on device 2. No call fails by the environment.
\<close>

definition node :: "mode_t \<Rightarrow> nlink_t \<Rightarrow> uid_t \<Rightarrow> int \<Rightarrow> inode" where
  "node m n u t =
     \<lparr>i_mode = m, i_nlink = n, i_uid = u, i_gid = u, i_rdev = 0,
      i_atim = \<lparr>tv_sec = t, tv_nsec = 0\<rparr>, i_mtim = \<lparr>tv_sec = t, tv_nsec = 0\<rparr>,
      i_data = [], i_target = [], i_entries = [], i_acl = [], i_xattr = []\<rparr>"

definition skel_state :: state where
  "skel_state =
     \<lparr>names = [''skel'' \<mapsto> (1, 10), ''skel/a'' \<mapsto> (1, 11), ''skel/b'' \<mapsto> (1, 11),
               ''skel/bin'' \<mapsto> (1, 12), ''home'' \<mapsto> (2, 20)],
      inodes = [(1, 10) \<mapsto> (node 16877 2 0 100)\<lparr>i_entries := [''a'', ''b'', ''bin'']\<rparr>,
                (1, 11) \<mapsto> (node 33188 2 0 101)\<lparr>i_data := [104, 105]\<rparr>,
                (1, 12) \<mapsto> (node 41471 1 0 102)\<lparr>i_target := ''../usr/bin''\<rparr>,
                (2, 20) \<mapsto> node 16877 2 0 103],
      next_ino = 21, offsets = Map.empty, errno = 0, trace = [], fault = (\<lambda>n. 0),
      src_orig = None, dst_orig = None, links = []\<rparr>"

text \<open>The same tree in the middle of a walk: \<open>a\<close> has been copied and registered.\<close>

definition walking_state :: state where
  "walking_state =
     skel_state
       \<lparr>names := (names skel_state)(''home/a'' \<mapsto> (2, 21)),
        inodes := (inodes skel_state)
                    ((2, 21) \<mapsto> (node 33188 1 1001 101)\<lparr>i_data := [104, 105]\<rparr>),
        next_ino := 22,
        src_orig := Some ''skel'', dst_orig := Some ''home'',
        links := [\<lparr>ln_dev = 1, ln_ino = 11, ln_count = 2, ln_name = ''home/a''\<rparr>]\<rparr>"

definition stat_a :: stat where
  "stat_a = stat_of (1, 11) ((node 33188 2 0 101)\<lparr>i_data := [104, 105]\<rparr>)"

text \<open>The destination entries \<open>home/a\<close> and \<open>home/b\<close>, as the walk names them.\<close>

definition dst_a :: path_info where
  "dst_a = \<lparr>full_path = ''home/a'', dirfd = Fd ''home'', name = ''a''\<rparr>"

definition dst_b :: path_info where
  "dst_b = \<lparr>full_path = ''home/b'', dirfd = Fd ''home'', name = ''b''\<rparr>"

text \<open>The walk with one reference to \<open>a\<close> left in the registry.\<close>

definition last_link_state :: state where
  "last_link_state =
     walking_state\<lparr>links := [\<lparr>ln_dev = 1, ln_ino = 11, ln_count = 1, ln_name = ''home/a''\<rparr>]\<rparr>"

text \<open>
  What the statements below need to say: that a step left the file system and the
  static variables as they were, what a finished call returned, and the state it left.
\<close>

definition unchanged :: "state \<Rightarrow> state \<Rightarrow> bool" where
  "unchanged s s' =
     (names s' = names s \<and> inodes s' = inodes s \<and> next_ino s' = next_ino s \<and>
      links s' = links s \<and> src_orig s' = src_orig s \<and> dst_orig s' = dst_orig s \<and>
      fault s' = fault s)"

definition returned :: "'a outcome \<Rightarrow> 'a option" where
  "returned out = (case out of Return r s \<Rightarrow> Some r | Abort s \<Rightarrow> None | Diverge \<Rightarrow> None)"

definition final :: "state \<Rightarrow> 'a outcome \<Rightarrow> state" where
  "final s out = (case out of Return r s' \<Rightarrow> s' | Abort s' \<Rightarrow> s' | Diverge \<Rightarrow> s)"

text \<open>A second symbolic link in the skeleton, whose target lies under the source root.\<close>

definition link_state :: state where
  "link_state =
     walking_state
       \<lparr>names := (names walking_state)(''skel/self'' \<mapsto> (1, 13)),
        inodes := (inodes walking_state)
                    ((1, 13) \<mapsto> (node 41471 1 0 104)\<lparr>i_target := ''skel/a''\<rparr>)\<rparr>"

definition path_of :: "string \<Rightarrow> string \<Rightarrow> path_info" where
  "path_of d nm = \<lparr>full_path = d @ ''/'' @ nm, dirfd = Fd d, name = nm\<rparr>"

text \<open>
  The tree in the middle of a walk with a subdirectory \<open>d\<close> of mode 0500 that holds one
  file; and the same with a directory \<open>home/d\<close> already there.
\<close>

definition tree_state :: state where
  "tree_state =
     \<lparr>names = [''skel'' \<mapsto> (1, 10), ''skel/a'' \<mapsto> (1, 11), ''skel/b'' \<mapsto> (1, 11),
               ''skel/d'' \<mapsto> (1, 14), ''skel/d/f'' \<mapsto> (1, 15), ''home'' \<mapsto> (2, 20)],
      inodes = [(1, 10) \<mapsto> (node 16877 3 0 100)\<lparr>i_entries := [''a'', ''b'', ''d'']\<rparr>,
                (1, 11) \<mapsto> (node 33188 2 0 101)\<lparr>i_data := [104, 105]\<rparr>,
                (1, 14) \<mapsto> (node 16704 2 0 105)\<lparr>i_entries := [''f'']\<rparr>,
                (1, 15) \<mapsto> (node 33188 1 0 106)\<lparr>i_data := [33]\<rparr>,
                (2, 20) \<mapsto> node 16877 2 0 103],
      next_ino = 21, offsets = Map.empty, errno = 0, trace = [], fault = (\<lambda>n. 0),
      src_orig = Some ''skel'', dst_orig = Some ''home'', links = []\<rparr>"

definition merge_state :: state where
  "merge_state =
     tree_state
       \<lparr>names := (names tree_state)(''home/d'' \<mapsto> (2, 30)),
        inodes := (inodes tree_state)((2, 30) \<mapsto> node 16877 2 0 200)\<rparr>"

definition stat_d :: stat where
  "stat_d = stat_of (1, 14) ((node 16704 2 0 105)\<lparr>i_entries := [''f'']\<rparr>)"



text \<open>A root entry, as \<open>copy_tree\<close> names it.\<close>

definition root_of :: "string \<Rightarrow> path_info" where
  "root_of p = \<lparr>full_path = p, dirfd = AT_FDCWD, name = p\<rparr>"

text \<open>The mode of the entry a path names.\<close>

definition mode_at :: "state \<Rightarrow> string \<Rightarrow> mode_t option" where
  "mode_at s p = map_option (\<lambda>(k, i). i_mode i) (lookup s p)"

text \<open>
  The state in which \<open>copy_dir\<close>, copying the subdirectory \<open>d\<close> of the tree, calls
  \<open>copy_tree_impl\<close> for the children of \<open>d\<close>: the seven steps before that call, one
  after the other.
\<close>

definition d_made_state :: state where
  "d_made_state =
     snd (attr_copy_path (path_of ''skel'' ''d'') (path_of ''home'' ''d'')
     (snd (perm_copy_path (path_of ''skel'' ''d'') (path_of ''home'' ''d'')
     (snd (fchmodat (Fd ''home'') ''d'' (st_mode stat_d AND 4095)
     (snd (chownat_if_needed (path_of ''home'' ''d'') stat_d (- 1) 1001 (- 1) 1001
     (snd (mkdirat (Fd ''home'') ''d'' 448
     (snd (fstatat (Fd ''home'') ''d'' True
     (snd (set_selinux_file_context ''home/d'' S_IFDIR tree_state)))))))))))))"

text \<open>
  Every binding of a name to an inode that \<open>N\<close> holds is still there: in a state, and in
  the state a call ends in.
\<close>

definition keeps :: "(string \<rightharpoonup> dev_t \<times> ino_t) \<Rightarrow> state \<Rightarrow> bool" where
  "keeps N s = (N \<subseteq>\<^sub>m names s)"

definition okeeps :: "(string \<rightharpoonup> dev_t \<times> ino_t) \<Rightarrow> 'a outcome \<Rightarrow> bool" where
  "okeeps N out = (case out of Return r s \<Rightarrow> keeps N s | Abort s \<Rightarrow> keeps N s | Diverge \<Rightarrow> True)"

text \<open>
  A tree whose copy fails in the middle: the skeleton holds the file \<open>a\<close>, the directory
  \<open>d\<close> with a directory \<open>e\<close> in it, and the file \<open>z\<close>; \<open>home/d\<close> is there already, a
  directory in which \<open>e\<close> is a regular file, so that the copy of \<open>d\<close> goes into the
  existing directory and fails there. Then the state in which the loop of
  \<open>copy_tree_impl\<close> starts on the stream of \<open>skel\<close>, the state in which it comes to
  \<open>d\<close>, with \<open>a\<close> copied, and the state the copy of \<open>d\<close> ends in.
\<close>

definition clash_state :: state where
  "clash_state =
     \<lparr>names = [''skel'' \<mapsto> (1, 10), ''skel/a'' \<mapsto> (1, 11), ''skel/d'' \<mapsto> (1, 14),
               ''skel/d/e'' \<mapsto> (1, 15), ''skel/z'' \<mapsto> (1, 16), ''home'' \<mapsto> (2, 20),
               ''home/d'' \<mapsto> (2, 30), ''home/d/e'' \<mapsto> (2, 31)],
      inodes = [(1, 10) \<mapsto> (node 16877 3 0 100)\<lparr>i_entries := [''a'', ''d'', ''z'']\<rparr>,
                (1, 11) \<mapsto> (node 33188 1 0 101)\<lparr>i_data := [104, 105]\<rparr>,
                (1, 14) \<mapsto> (node 16877 3 0 105)\<lparr>i_entries := [''e'']\<rparr>,
                (1, 15) \<mapsto> node 16877 2 0 106,
                (1, 16) \<mapsto> (node 33188 1 0 107)\<lparr>i_data := [122]\<rparr>,
                (2, 20) \<mapsto> (node 16877 3 0 103)\<lparr>i_entries := [''d'']\<rparr>,
                (2, 30) \<mapsto> (node 16877 2 0 200)\<lparr>i_entries := [''e'']\<rparr>,
                (2, 31) \<mapsto> node 33188 1 0 201],
      next_ino = 32, offsets = Map.empty, errno = 0, trace = [], fault = (\<lambda>n. 0),
      src_orig = None, dst_orig = None, links = []\<rparr>"

definition clash_start :: state where
  "clash_start =
     (snd (fdopendir (Fd ''skel'')
        (snd (openat AT_FDCWD ''home'' OpenDir
           (snd (openat AT_FDCWD ''skel'' OpenDir clash_state))))))
       \<lparr>src_orig := Some ''skel'', dst_orig := Some ''home''\<rparr>"

definition clash_at_d :: state where
  "clash_at_d =
     final clash_start
       (copy_entry 4 (path_of ''skel'' ''a'') (path_of ''home'' ''a'') False
          (- 1) 1001 (- 1) 1001
          (snd (aprintf ''home/a''
             (snd (aprintf ''skel/a''
                (snd (readdir (Fd ''skel'') [''a'', ''d'', ''z'']
                   (snd (readdir (Fd ''skel'') [''..'', ''a'', ''d'', ''z'']
                      (snd (readdir (Fd ''skel'') [''.'', ''..'', ''a'', ''d'', ''z'']
                         clash_start)))))))))))"

definition clash_end :: state where
  "clash_end =
     final clash_at_d
       (copy_entry 4 (path_of ''skel'' ''d'') (path_of ''home'' ''d'') False
          (- 1) 1001 (- 1) 1001
          (snd (aprintf ''home/d''
             (snd (aprintf ''skel/d''
                (snd (readdir (Fd ''skel'') [''d'', ''z''] clash_at_d)))))))"

text \<open>
  The same tree when the forty-ninth call fails, which is the \<^verbatim>\<open>reset_selinux_file_context\<close>
  that ends the walk; and the state in which the loop then calls \<open>copy_entry\<close> for \<open>d\<close>.
\<close>

definition reset_fails_state :: state where
  "reset_fails_state = clash_state\<lparr>fault := (\<lambda>n. if n = 48 then EPERM else 0)\<rparr>"

definition reset_fails_at_d :: state where
  "reset_fails_at_d =
     snd (aprintf ''home/d''
       (snd (aprintf ''skel/d''
          (snd (readdir (Fd ''skel'') [''d'', ''z'']
             (final reset_fails_state
                (copy_entry 4 (path_of ''skel'' ''a'') (path_of ''home'' ''a'') False
                   (- 1) 1001 (- 1) 1001
                   (snd (aprintf ''home/a''
                      (snd (aprintf ''skel/a''
                         (snd (readdir (Fd ''skel'') [''a'', ''d'', ''z'']
                            (snd (readdir (Fd ''skel'') [''..'', ''a'', ''d'', ''z'']
                               (snd (readdir (Fd ''skel'') [''.'', ''..'', ''a'', ''d'', ''z'']
                                  ((snd (fdopendir (Fd ''skel'')
                                      (snd (openat AT_FDCWD ''home'' OpenDir
                                         (snd (openat AT_FDCWD ''skel'' OpenDir
                                            reset_fails_state))))))
                                     \<lparr>src_orig := Some ''skel'',
                                       dst_orig := Some ''home''\<rparr>))))))))))))))))))"

text \<open>
  The owner and the group of the entry a path names. \<open>owns\<close> says what they are, in a
  state and in the state a call ends in; \<open>gives\<close> says it of the state a call ends in
  when the call returns 0.
\<close>

definition owner_at :: "state \<Rightarrow> string \<Rightarrow> (uid_t \<times> gid_t) option" where
  "owner_at s p = map_option (\<lambda>(k, i). (i_uid i, i_gid i)) (lookup s p)"

definition owns :: "string \<Rightarrow> uid_t \<times> gid_t \<Rightarrow> state \<Rightarrow> bool" where
  "owns p ow s = (owner_at s p = Some ow)"

definition oowns :: "string \<Rightarrow> uid_t \<times> gid_t \<Rightarrow> 'a outcome \<Rightarrow> bool" where
  "oowns p ow out = (case out of Return r s \<Rightarrow> owns p ow s | Abort s \<Rightarrow> owns p ow s | Diverge \<Rightarrow> True)"

definition gives :: "string \<Rightarrow> uid_t \<times> gid_t \<Rightarrow> int outcome \<Rightarrow> bool" where
  "gives p ow out = (case out of Return r s \<Rightarrow> r \<noteq> 0 \<or> owns p ow s | Abort s \<Rightarrow> True | Diverge \<Rightarrow> True)"

text \<open>
  The skeleton with the file of \<open>a\<close> and \<open>b\<close> owned by the user and group 7; and the
  skeleton beside two home directories.
\<close>

definition seven_state :: state where
  "seven_state =
     skel_state\<lparr>inodes := (inodes skel_state)
                             ((1, 11) \<mapsto> (node 33188 2 7 101)\<lparr>i_data := [104, 105]\<rparr>)\<rparr>"

definition two_homes_state :: state where
  "two_homes_state =
     skel_state\<lparr>names := (names skel_state)(''home2'' \<mapsto> (2, 40)),
                 inodes := (inodes skel_state)((2, 40) \<mapsto> node 16877 2 0 104)\<rparr>"

section \<open>Properties\<close>

subsection \<open>The hardlink registry\<close>

lemma find_link_None:
  "find_link dv ino ls = None \<longleftrightarrow> \<not> (\<exists>l \<in> set ls. ln_dev l = dv \<and> ln_ino l = ino)"
  by (induction ls) auto

lemma find_link_Some:
  "find_link dv ino ls = Some lp \<Longrightarrow>
     lp < length ls \<and> ln_dev (ls ! lp) = dv \<and> ln_ino (ls ! lp) = ino"
  by (induction ls arbitrary: lp) (auto split: if_splits)

text \<open>
  C8, as the code has it. Inside a walk (both roots recorded), \<open>check_link\<close> on a device
  and inode pair that an entry of the registry carries returns a pointer to such an
  entry and changes nothing. On a pair no entry carries it returns nothing, and it
  leaves the registry alone exactly when the link count is 1: with any other link
  count, 0 included, it puts a new entry in front whose key is the pair, whose count
  is the link count and whose name is the destination root followed by the name
  without the source root.
\<close>

theorem check_link_contract:
  assumes "src_orig s = Some so" and "dst_orig s = Some dsto"
  shows "((\<exists>l \<in> set (links s). ln_dev l = st_dev sb \<and> ln_ino l = st_ino sb) \<longrightarrow>
            (\<exists>lp. check_link nm sb s = Return (Some lp) s \<and> lp < length (links s) \<and>
                  ln_dev (links s ! lp) = st_dev sb \<and> ln_ino (links s ! lp) = st_ino sb)) \<and>
         (\<not> (\<exists>l \<in> set (links s). ln_dev l = st_dev sb \<and> ln_ino l = st_ino sb) \<and>
            st_nlink sb = 1 \<longrightarrow> check_link nm sb s = Return None s) \<and>
         (\<not> (\<exists>l \<in> set (links s). ln_dev l = st_dev sb \<and> ln_ino l = st_ino sb) \<and>
            st_nlink sb \<noteq> 1 \<longrightarrow>
            check_link nm sb s =
              Return None
                (s\<lparr>links := \<lparr>ln_dev = st_dev sb, ln_ino = st_ino sb, ln_count = st_nlink sb,
                              ln_name = dsto @ drop (length so) nm\<rparr> # links s\<rparr>))"
proof (cases "find_link (st_dev sb) (st_ino sb) (links s)")
  case None
  then have "\<not> (\<exists>l \<in> set (links s). ln_dev l = st_dev sb \<and> ln_ino l = st_ino sb)"
    by (simp add: find_link_None)
  with None assms show ?thesis by (simp add: check_link_def)
next
  case (Some lp)
  then have "check_link nm sb s = Return (Some lp) s" using assms by (simp add: check_link_def)
  moreover from find_link_Some [OF Some]
  have m: "lp < length (links s) \<and> ln_dev (links s ! lp) = st_dev sb \<and>
           ln_ino (links s ! lp) = st_ino sb" .
  moreover from m have "\<exists>l \<in> set (links s). ln_dev l = st_dev sb \<and> ln_ino l = st_ino sb"
    using nth_mem [of lp "links s"] by blast
  ultimately show ?thesis by blast
qed

theorem check_link_contract_witness:
  "check_link ''skel/b'' stat_a walking_state = Return (Some 0) walking_state \<and>
   check_link ''skel/c'' (stat_a\<lparr>st_ino := 13, st_nlink := 1\<rparr>) walking_state =
     Return None walking_state \<and>
   check_link ''skel/c'' (stat_a\<lparr>st_ino := 13, st_nlink := 3\<rparr>) walking_state =
     Return None
       (walking_state\<lparr>links := [\<lparr>ln_dev = 1, ln_ino = 13, ln_count = 3, ln_name = ''home/c''\<rparr>,
                                  \<lparr>ln_dev = 1, ln_ino = 11, ln_count = 2, ln_name = ''home/a''\<rparr>]\<rparr>)"
proof -
  have o: "src_orig walking_state = Some ''skel''" "dst_orig walking_state = Some ''home''"
    and l: "links walking_state = [\<lparr>ln_dev = 1, ln_ino = 11, ln_count = 2, ln_name = ''home/a''\<rparr>]"
    by (simp_all add: walking_state_def)
  show ?thesis
    using check_link_contract [OF o, of stat_a "''skel/b''"]
      check_link_contract [OF o, of "stat_a\<lparr>st_ino := 13, st_nlink := 1\<rparr>" "''skel/c''"]
      check_link_contract [OF o, of "stat_a\<lparr>st_ino := 13, st_nlink := 3\<rparr>" "''skel/c''"]
    by (simp add: l stat_a_def stat_of_def)
qed

text \<open>
  The claim as the specification words it fails at link count 0: the pair is not in the
  registry, the count is at most 1, and an entry is registered all the same.
\<close>

theorem check_link_counterexample:
  "st_nlink (stat_a\<lparr>st_ino := 13, st_nlink := 0\<rparr>) \<le> 1 \<and>
   find_link 1 13 (links walking_state) = None \<and>
   check_link ''skel/c'' (stat_a\<lparr>st_ino := 13, st_nlink := 0\<rparr>) walking_state =
     Return None
       (walking_state\<lparr>links := [\<lparr>ln_dev = 1, ln_ino = 13, ln_count = 0, ln_name = ''home/c''\<rparr>,
                                  \<lparr>ln_dev = 1, ln_ino = 11, ln_count = 2, ln_name = ''home/a''\<rparr>]\<rparr>)"
  by (simp add: check_link_def walking_state_def stat_a_def stat_of_def)

lemma logged_frame [simp]:
  "links (logged c s) = links s" "src_orig (logged c s) = src_orig s"
  "dst_orig (logged c s) = dst_orig s" "names (logged c s) = names s"
  "inodes (logged c s) = inodes s" "fault (logged c s) = fault s"
  by (simp_all add: logged_def)

lemma failing_frame [simp]:
  "links (failing c e s) = links s" "src_orig (failing c e s) = src_orig s"
  "dst_orig (failing c e s) = dst_orig s" "names (failing c e s) = names s"
  "inodes (failing c e s) = inodes s" "fault (failing c e s) = fault s"
  by (simp_all add: failing_def)

lemma enter_frame [simp]:
  "links (enter d nm k s) = links s" "src_orig (enter d nm k s) = src_orig s"
  "dst_orig (enter d nm k s) = dst_orig s" "fault (enter d nm k s) = fault s"
  "names (enter d nm k s) = (names s)(at_path d nm \<mapsto> k)"
  by (simp_all add: enter_def Let_def split: fd.splits option.splits prod.splits)

lemma linkat_fail:
  "linkat old d nm s = (r, s1) \<Longrightarrow> r \<noteq> 0 \<Longrightarrow>
     links s1 = links s \<and> names s1 = names s \<and> inodes s1 = inodes s"
  by (auto simp: linkat_def Let_def split: if_splits option.splits prod.splits)

lemma linkat_ok:
  "linkat old d nm s = (0, s1) \<Longrightarrow>
     links s1 = links s \<and> names s old \<noteq> None \<and> names s (at_path d nm) = None \<and>
     names s1 = (names s)(at_path d nm := names s old)"
  by (cases "names s (at_path d nm)")
     (auto simp: linkat_def Let_def lookup_def split: if_splits option.splits prod.splits)

text \<open>
  C10. \<open>copy_hardlink\<close> with a pointer into the registry: when \<open>linkat\<close> fails the
  function returns \<open>-1\<close> in the state \<open>linkat\<close> left, where the registry and the file
  system are what they were; when \<open>linkat\<close> succeeds the new name is bound to the inode
  of the recorded path, and only then is the entry's count decremented and the entry
  removed if the count is then 0.
\<close>

theorem copy_hardlink_registry:
  assumes "lp < length (links s)"
    and "linkat (ln_name (links s ! lp)) (dirfd dst) (name dst) s = (r, s1)"
  shows "(r \<noteq> 0 \<longrightarrow>
            copy_hardlink dst reset_selinux lp s = Return (- 1) s1 \<and>
            links s1 = links s \<and> names s1 = names s \<and> inodes s1 = inodes s) \<and>
         (r = 0 \<longrightarrow>
            copy_hardlink dst reset_selinux lp s =
              Return 0
                (s1\<lparr>links :=
                      (if ln_count (links s ! lp) - 1 = 0
                       then take lp (links s) @ drop (Suc lp) (links s)
                       else (links s)[lp := (links s ! lp)
                                             \<lparr>ln_count := ln_count (links s ! lp) - 1\<rparr>])\<rparr>) \<and>
            names s (ln_name (links s ! lp)) \<noteq> None \<and>
            names s1 (at_path (dirfd dst) (name dst)) = names s (ln_name (links s ! lp)))"
proof (intro conjI impI)
  assume r: "r \<noteq> 0"
  from linkat_fail [OF assms(2) r]
  show "links s1 = links s" "names s1 = names s" "inodes s1 = inodes s" by simp_all
  from assms r show "copy_hardlink dst reset_selinux lp s = Return (- 1) s1"
    by (simp add: copy_hardlink_def)
next
  assume r: "r = 0"
  with assms(2) have ok: "linkat (ln_name (links s ! lp)) (dirfd dst) (name dst) s = (0, s1)"
    by simp
  note l = linkat_ok [OF ok]
  from l show "names s (ln_name (links s ! lp)) \<noteq> None" by simp
  from l show "names s1 (at_path (dirfd dst) (name dst)) = names s (ln_name (links s ! lp))"
    by simp
  from l assms(1) ok
  show "copy_hardlink dst reset_selinux lp s =
          Return 0
            (s1\<lparr>links :=
                  (if ln_count (links s ! lp) - 1 = 0
                   then take lp (links s) @ drop (Suc lp) (links s)
                   else (links s)[lp := (links s ! lp)
                                         \<lparr>ln_count := ln_count (links s ! lp) - 1\<rparr>])\<rparr>)"
    by (simp add: copy_hardlink_def Let_def remove_link_def word_le_0_iff)
qed

theorem copy_hardlink_registry_witness:
  "fst (linkat ''home/a'' (Fd ''home'') ''a'' walking_state) \<noteq> 0 \<and>
   copy_hardlink dst_a False 0 walking_state =
     Return (- 1) (snd (linkat ''home/a'' (Fd ''home'') ''a'' walking_state)) \<and>
   links (snd (linkat ''home/a'' (Fd ''home'') ''a'' walking_state)) =
     [\<lparr>ln_dev = 1, ln_ino = 11, ln_count = 2, ln_name = ''home/a''\<rparr>] \<and>
   fst (linkat ''home/a'' (Fd ''home'') ''b'' walking_state) = 0 \<and>
   copy_hardlink dst_b False 0 walking_state =
     Return 0 ((snd (linkat ''home/a'' (Fd ''home'') ''b'' walking_state))
                 \<lparr>links := [\<lparr>ln_dev = 1, ln_ino = 11, ln_count = 1, ln_name = ''home/a''\<rparr>]\<rparr>) \<and>
   fst (linkat ''home/a'' (Fd ''home'') ''b'' last_link_state) = 0 \<and>
   copy_hardlink dst_b False 0 last_link_state =
     Return 0 ((snd (linkat ''home/a'' (Fd ''home'') ''b'' last_link_state))\<lparr>links := []\<rparr>)"
proof -
  have l: "links walking_state = [\<lparr>ln_dev = 1, ln_ino = 11, ln_count = 2, ln_name = ''home/a''\<rparr>]"
    "links last_link_state = [\<lparr>ln_dev = 1, ln_ino = 11, ln_count = 1, ln_name = ''home/a''\<rparr>]"
    by (simp_all add: walking_state_def last_link_state_def)
  have n: "(0::nat) < length (links walking_state)" "(0::nat) < length (links last_link_state)"
    by (simp_all add: l)
  have d: "dirfd dst_a = Fd ''home''" "name dst_a = ''a''"
    "dirfd dst_b = Fd ''home''" "name dst_b = ''b''"
    by (simp_all add: dst_a_def dst_b_def)
  have r1: "fst (linkat ''home/a'' (Fd ''home'') ''a'' walking_state) \<noteq> 0" by code_simp
  have r2: "fst (linkat ''home/a'' (Fd ''home'') ''b'' walking_state) = 0" by code_simp
  have r3: "fst (linkat ''home/a'' (Fd ''home'') ''b'' last_link_state) = 0" by code_simp
  have e1: "linkat (ln_name (links walking_state ! 0)) (dirfd dst_a) (name dst_a) walking_state =
      (fst (linkat ''home/a'' (Fd ''home'') ''a'' walking_state),
       snd (linkat ''home/a'' (Fd ''home'') ''a'' walking_state))"
    and e2: "linkat (ln_name (links walking_state ! 0)) (dirfd dst_b) (name dst_b) walking_state =
      (fst (linkat ''home/a'' (Fd ''home'') ''b'' walking_state),
       snd (linkat ''home/a'' (Fd ''home'') ''b'' walking_state))"
    and e3: "linkat (ln_name (links last_link_state ! 0)) (dirfd dst_b) (name dst_b) last_link_state =
      (fst (linkat ''home/a'' (Fd ''home'') ''b'' last_link_state),
       snd (linkat ''home/a'' (Fd ''home'') ''b'' last_link_state))"
    by (simp_all add: l d)
  show ?thesis
    using copy_hardlink_registry [OF n(1) e1, of False]
      copy_hardlink_registry [OF n(1) e2, of False]
      copy_hardlink_registry [OF n(2) e3, of False]
      r1 r2 r3
    by (simp add: l)
qed

text \<open>
  C1 on the skeleton tree: \<open>a\<close> and \<open>b\<close> are the two names of one inode with link
  count 2. The walk copies \<open>a\<close>, links \<open>b\<close> to the copy, and returns 0 with the entry
  still in the registry, its count at 1: the count starts at the link count and only the
  links decrement it, so it never reaches 0.
\<close>

theorem hardlink_registry_not_emptied:
  "(case copy_tree 5 ''skel'' ''home'' False False (- 1) 1001 (- 1) 1001 skel_state of
      Return r s \<Rightarrow>
        r = 0 \<and> names s ''home/a'' = Some (2, 21) \<and> names s ''home/b'' = Some (2, 21) \<and>
        map_option i_data (inodes s (2, 21)) = Some [104, 105] \<and>
        links s = [\<lparr>ln_dev = 1, ln_ino = 11, ln_count = 1, ln_name = ''home/a''\<rparr>]
    | Abort s \<Rightarrow> False
    | Diverge \<Rightarrow> False)"
  by code_simp

subsection \<open>The calls\<close>

lemma tmp_id_eq:
  "tmp_id old_id new_id u = (if (old_id = - 1 \<or> u = old_id) \<and> new_id \<noteq> - 1 then new_id else u)"
  by (auto simp: tmp_id_def Let_def)

lemma modify_ok:
  "modify c p f s = (0, s') \<Longrightarrow>
     \<exists>k i. lookup s p = Some (k, i) \<and> lookup s' p = Some (k, f i)"
  by (auto simp: modify_def lookup_def logged_def failing_def split: if_splits option.splits)

lemma set_owner_tmp_id:
  "u \<noteq> - 1 \<Longrightarrow> g \<noteq> - 1 \<Longrightarrow>
   i_uid (set_owner (tmp_id ou nu u) (tmp_id og ng g) i) = tmp_id ou nu u \<and>
   i_gid (set_owner (tmp_id ou nu u) (tmp_id og ng g) i) = tmp_id og ng g"
  by (simp add: set_owner_def tmp_id_def Let_def)

lemma returned_final: "returned out = Some r \<Longrightarrow> out = Return r (final s out)"
  by (cases out) (simp_all add: returned_def final_def)

lemma unchanged_refl [simp]: "unchanged s s"
  by (simp add: unchanged_def)

lemma unchanged_trans: "unchanged s s1 \<Longrightarrow> unchanged s1 s2 \<Longrightarrow> unchanged s s2"
  by (simp add: unchanged_def)

lemma unchanged_logged [simp]: "unchanged s (logged c s)"
  by (simp add: unchanged_def logged_def)

lemma unchanged_failing [simp]: "unchanged s (failing c e s)"
  by (simp add: unchanged_def failing_def logged_def)

lemma unchanged_lookup: "unchanged s s' \<Longrightarrow> lookup s' p = lookup s p"
  by (auto simp: unchanged_def lookup_def split: option.splits)

lemma lookup_logged [simp]: "lookup (logged c s) p = lookup s p"
  by (rule unchanged_lookup) simp

lemma lookup_failing [simp]: "lookup (failing c e s) p = lookup s p"
  by (rule unchanged_lookup) simp

lemma simple_call_unchanged: "unchanged s (snd (simple_call c s))"
  by (simp add: simple_call_def)

lemma close_unchanged [simp]: "unchanged s (snd (close f s))"
  by (simp add: close_def simple_call_unchanged)

lemma closedir_unchanged [simp]: "unchanged s (snd (closedir f s))"
  by (simp add: closedir_def simple_call_unchanged)

lemma set_selinux_unchanged [simp]: "unchanged s (snd (set_selinux_file_context p m s))"
  by (simp add: set_selinux_file_context_def simple_call_unchanged)

lemma reset_selinux_unchanged [simp]: "unchanged s (snd (reset_selinux_file_context s))"
  by (simp add: reset_selinux_file_context_def simple_call_unchanged)

lemma aprintf_unchanged [simp]: "unchanged s (snd (aprintf str s))"
  by (simp add: aprintf_def simple_call_def)

lemma fstatat_unchanged [simp]: "unchanged s (snd (fstatat d nm nf s))"
  by (simp add: fstatat_def Let_def split: option.splits prod.splits)

lemma areadlink_unchanged [simp]: "unchanged s (snd (areadlink p s))"
  by (simp add: areadlink_def Let_def split: option.splits prod.splits)

lemma readdir_unchanged [simp]: "unchanged s (snd (readdir f ents s))"
  by (simp add: readdir_def Let_def split: list.splits)

lemma fdopendir_unchanged [simp]: "unchanged s (snd (fdopendir f s))"
  by (simp add: fdopendir_def Let_def split: option.splits prod.splits)

lemma areadlink_Some:
  "areadlink p s = (Some t, s1) \<Longrightarrow>
     \<exists>k i. lookup s p = Some (k, i) \<and> S_ISLNK (i_mode i) \<and> t = i_target i"
  by (auto simp: areadlink_def Let_def split: if_splits option.splits prod.splits)

lemma lookup_enter_new:
  assumes "inodes s k = Some i" and "\<forall>dp. d = Fd dp \<longrightarrow> names s dp \<noteq> Some k"
    and "\<forall>dp. d = Fd dp \<longrightarrow> dp \<noteq> at_path d nm"
  shows "lookup (enter d nm k s) (at_path d nm) = Some (k, i)"
  using assms
  by (cases d) (auto simp: enter_def Let_def lookup_def split: option.splits prod.splits)

lemma at_path_neq: "dp \<noteq> at_path (Fd dp) nm"
  by simp

lemma create_ok:
  assumes "create c d nm i s = (0, s1)"
  shows "lookup s1 (at_path d nm) = Some ((the (parent_dev d s), next_ino s), i) \<and>
         names s (at_path d nm) = None"
proof -
  from assms obtain dv where dv: "parent_dev d s = Some dv"
    and free: "names s (at_path d nm) = None" and fresh: "inodes s (dv, next_ino s) = None"
    and s1: "s1 = logged c (enter d nm (dv, next_ino s)
                  (s\<lparr>inodes := (inodes s)((dv, next_ino s) \<mapsto> i),
                     next_ino := next_ino s + 1\<rparr>))"
    by (cases "names s (at_path d nm)") (auto simp: create_def split: if_splits option.splits)
  have "\<forall>dp. d = Fd dp \<longrightarrow> names s dp \<noteq> Some (dv, next_ino s)"
    using dv fresh by (auto simp: parent_dev_def lookup_def split: option.splits if_splits)
  then have "lookup (enter d nm (dv, next_ino s)
                  (s\<lparr>inodes := (inodes s)((dv, next_ino s) \<mapsto> i),
                     next_ino := next_ino s + 1\<rparr>)) (at_path d nm) = Some ((dv, next_ino s), i)"
    by (intro lookup_enter_new) auto
  with s1 dv free show ?thesis by simp
qed

lemma S_ISLNK_new: "S_ISLNK (S_IFLNK OR 511)"
  by (simp add: S_ISLNK_def)

lemma symlinkat_ok:
  "symlinkat t d nm s = (0, s1) \<Longrightarrow>
     \<exists>k i. lookup s1 (at_path d nm) = Some (k, i) \<and> S_ISLNK (i_mode i) \<and> i_target i = t"
  unfolding symlinkat_def
  by (drule create_ok) (simp add: new_inode_def S_ISLNK_def)

lemma chownat_ok:
  "chownat_if_needed dst statp ou nu og ng s = (0, s') \<Longrightarrow>
     \<exists>k i u g. lookup s (at_path (dirfd dst) (name dst)) = Some (k, i) \<and>
        lookup s' (at_path (dirfd dst) (name dst)) = Some (k, set_owner u g i)"
  unfolding chownat_if_needed_def fchownat_def by (blast dest: modify_ok)

lemma utimensat_ok:
  "utimensat d nm mt s = (0, s') \<Longrightarrow>
     \<exists>k i. lookup s (at_path d nm) = Some (k, i) \<and>
        lookup s' (at_path d nm) = Some (k, i\<lparr>i_atim := fst mt, i_mtim := snd mt\<rparr>)"
  unfolding utimensat_def by (blast dest: modify_ok)

subsection \<open>Symbolic links\<close>

text \<open>
  C6. Inside a walk whose recorded roots are \<open>so\<close> and \<open>dsto\<close>, a successful
  \<open>copy_symlink\<close> leaves a symbolic link at the destination. If the target of the source
  link is \<open>so\<close> followed by some rest, the target of the copy is \<open>dsto\<close> followed by
  that rest; if the target does not begin with \<open>so\<close>, the copy has the same target.
\<close>

theorem copy_symlink_target:
  assumes "src_orig s = Some so" and "dst_orig s = Some dsto"
    and "copy_symlink src dst reset_selinux statp mt old_uid new_uid old_gid new_gid s = Return 0 s'"
  shows "\<exists>k i k' i'.
           lookup s (full_path src) = Some (k, i) \<and> S_ISLNK (i_mode i) \<and>
           lookup s' (at_path (dirfd dst) (name dst)) = Some (k', i') \<and> S_ISLNK (i_mode i') \<and>
           (\<forall>rest. i_target i = so @ rest \<longrightarrow> i_target i' = dsto @ rest) \<and>
           ((\<forall>rest. i_target i \<noteq> so @ rest) \<longrightarrow> i_target i' = i_target i)"
proof -
  obtain ro s1 where a: "areadlink (full_path src) s = (ro, s1)" by (cases "areadlink (full_path src) s")
  with assms obtain oldlink where ro: "ro = Some oldlink"
    by (cases ro) (auto simp: copy_symlink_def)
  define t where "t = (if strprefix oldlink so then dsto @ drop (length so) oldlink else oldlink)"
  obtain r2 s2 where b: "set_selinux_file_context (full_path dst) S_IFLNK s1 = (r2, s2)"
    by (cases "set_selinux_file_context (full_path dst) S_IFLNK s1")
  obtain r3 s3 where c: "symlinkat t (dirfd dst) (name dst) s2 = (r3, s3)"
    by (cases "symlinkat t (dirfd dst) (name dst) s2")
  obtain r4 s4 where d: "chownat_if_needed dst statp old_uid new_uid old_gid new_gid s3 = (r4, s4)"
    by (cases "chownat_if_needed dst statp old_uid new_uid old_gid new_gid s3")
  obtain r5 s5 where e: "utimensat (dirfd dst) (name dst) mt s4 = (r5, s5)"
    by (cases "utimensat (dirfd dst) (name dst) mt s4")
  from assms a ro b c d e have z: "r3 = 0" "r4 = 0" "r5 = 0" "s' = s5"
    by (auto simp: copy_symlink_def Let_def t_def split: if_splits)
  from areadlink_Some [OF a [unfolded ro]] obtain k i where
    src: "lookup s (full_path src) = Some (k, i)" "S_ISLNK (i_mode i)" "oldlink = i_target i"
    by blast
  from symlinkat_ok [OF c [unfolded z]] obtain k' i3 where
    l3: "lookup s3 (at_path (dirfd dst) (name dst)) = Some (k', i3)" "S_ISLNK (i_mode i3)"
      "i_target i3 = t" by blast
  from chownat_ok [OF d [unfolded z]] l3 obtain u g where
    l4: "lookup s4 (at_path (dirfd dst) (name dst)) = Some (k', set_owner u g i3)" by auto
  from utimensat_ok [OF e [unfolded z]] l4 have
    l5: "lookup s5 (at_path (dirfd dst) (name dst)) =
           Some (k', (set_owner u g i3)\<lparr>i_atim := fst mt, i_mtim := snd mt\<rparr>)" by auto
  have t1: "\<forall>rest. i_target i = so @ rest \<longrightarrow> t = dsto @ rest"
    using src(3) by (auto simp: t_def strprefix_def)
  have t2: "(\<forall>rest. i_target i \<noteq> so @ rest) \<longrightarrow> t = i_target i"
    using src(3) by (auto simp: t_def strprefix_def) (metis append_take_drop_id)
  show ?thesis
    using src l5 l3 t1 t2 z by (simp add: set_owner_def)
qed

theorem copy_symlink_target_witness:
  "src_orig link_state = Some ''skel'' \<and> dst_orig link_state = Some ''home'' \<and>
   returned (copy_symlink (path_of ''skel'' ''self'') (path_of ''home'' ''self'') False
               (stat_of (1, 13) ((node 41471 1 0 104)\<lparr>i_target := ''skel/a''\<rparr>))
               (\<lparr>tv_sec = 104, tv_nsec = 0\<rparr>, \<lparr>tv_sec = 104, tv_nsec = 0\<rparr>)
               (- 1) 1001 (- 1) 1001 link_state) = Some 0 \<and>
   map_option (\<lambda>(k, i). i_target i) (lookup link_state ''skel/self'') = Some (''skel'' @ ''/a'') \<and>
   (\<exists>k' i'. lookup (final link_state
                (copy_symlink (path_of ''skel'' ''self'') (path_of ''home'' ''self'') False
                   (stat_of (1, 13) ((node 41471 1 0 104)\<lparr>i_target := ''skel/a''\<rparr>))
                   (\<lparr>tv_sec = 104, tv_nsec = 0\<rparr>, \<lparr>tv_sec = 104, tv_nsec = 0\<rparr>)
                   (- 1) 1001 (- 1) 1001 link_state)) ''home/self'' = Some (k', i') \<and>
       i_target i' = ''home/a'')"
proof -
  let ?out = "copy_symlink (path_of ''skel'' ''self'') (path_of ''home'' ''self'') False
               (stat_of (1, 13) ((node 41471 1 0 104)\<lparr>i_target := ''skel/a''\<rparr>))
               (\<lparr>tv_sec = 104, tv_nsec = 0\<rparr>, \<lparr>tv_sec = 104, tv_nsec = 0\<rparr>)
               (- 1) 1001 (- 1) 1001 link_state"
  have o: "src_orig link_state = Some ''skel''" "dst_orig link_state = Some ''home''"
    by (simp_all add: link_state_def walking_state_def)
  have r: "returned ?out = Some 0" by code_simp
  have t: "map_option (\<lambda>(k, i). i_target i) (lookup link_state ''skel/self'') = Some (''skel'' @ ''/a'')"
    by code_simp
  have p: "full_path (path_of ''skel'' ''self'') = ''skel/self''"
    "at_path (dirfd (path_of ''home'' ''self'')) (name (path_of ''home'' ''self'')) = ''home/self''"
    by (simp_all add: path_of_def)
  from copy_symlink_target [OF o returned_final [OF r, of link_state]] t
  show ?thesis using o r by (auto simp: p)
qed

subsection \<open>Timestamps\<close>






lemma fstatat_None:
  "lookup s (at_path d nm) = None \<Longrightarrow> fst (fstatat d nm True s) = None"
  by (simp add: fstatat_def Let_def)


lemma timespec_eta: "\<lparr>tv_sec = tv_sec (x::timespec), tv_nsec = tv_nsec x\<rparr> = x"
  by simp

lemma fstatat_links: "fstatat d nm nf s = (r, s1) \<Longrightarrow> unchanged s s1"
  using fstatat_unchanged [of s d nm nf] by simp


lemma copy_entry_probed:
  assumes "fstatat (dirfd src) (name src) True s = (Some sb, s1)"
  shows "copy_entry n src dst reset_selinux old_uid new_uid old_gid new_gid s =
     (case (if S_ISDIR (st_mode sb)
            then copy_dir n src dst reset_selinux sb (st_atim sb, st_mtim sb)
                   old_uid new_uid old_gid new_gid s1
            else Return 0 s1) of
        Diverge \<Rightarrow> Diverge
      | Abort s \<Rightarrow> Abort s
      | Return err s \<Rightarrow>
     (case fstatat (dirfd dst) (name dst) True s of
        (Some tmp_sb, s) \<Rightarrow> Return err s
      | (None, s) \<Rightarrow>
          if S_ISLNK (st_mode sb)
          then copy_symlink src dst reset_selinux sb (st_atim sb, st_mtim sb)
                 old_uid new_uid old_gid new_gid s
          else
     (case check_link (full_path src) sb s of
        Diverge \<Rightarrow> Diverge
      | Abort s \<Rightarrow> Abort s
      | Return (Some lp) s \<Rightarrow> copy_hardlink dst reset_selinux lp s
      | Return None s \<Rightarrow>
          if \<not> S_ISREG (st_mode sb)
          then copy_special src dst reset_selinux sb (st_atim sb, st_mtim sb)
                 old_uid new_uid old_gid new_gid s
          else copy_file n src dst reset_selinux sb (st_atim sb, st_mtim sb)
                 old_uid new_uid old_gid new_gid s)))"
  unfolding copy_entry_def copy_entry_body_def copy_dir_def Let_def timespec_eta
  using assms by simp




subsection \<open>The entry dispatcher\<close>

lemma copy_entry_unprobed:
  assumes "fstatat (dirfd src) (name src) True s = (None, s1)"
  shows "copy_entry n src dst reset_selinux old_uid new_uid old_gid new_gid s = Return 0 s1"
  using assms by (simp add: copy_entry_def copy_entry_body_def)

text \<open>
  C5. \<open>copy_entry\<close> probes the source without following a link. If the probe fails it
  returns 0 and has changed nothing. Otherwise a directory source goes through
  \<open>copy_dir\<close> first; then the destination is probed without following a link. If that
  probe succeeds \<open>copy_entry\<close> returns what it has (0 for a source that is not a
  directory, and then nothing at all was changed). If it fails, a symbolic link goes to
  \<open>copy_symlink\<close>; anything else is looked up with \<open>check_link\<close>, a hit goes to
  \<open>copy_hardlink\<close>, and without a hit a source that is not a regular file goes to
  \<open>copy_special\<close> and a regular file to \<open>copy_file\<close>.
\<close>

theorem copy_entry_dispatch:
  assumes "fstatat (dirfd src) (name src) True s = (po, s1)"
  shows "(po = None \<longrightarrow>
            copy_entry n src dst reset_selinux old_uid new_uid old_gid new_gid s = Return 0 s1 \<and>
            unchanged s s1) \<and>
         (po = Some sb \<and>
          (if S_ISDIR (st_mode sb)
           then copy_dir n src dst reset_selinux sb (st_atim sb, st_mtim sb)
                  old_uid new_uid old_gid new_gid s1
           else Return 0 s1) = Return err s2 \<and>
          fstatat (dirfd dst) (name dst) True s2 = (ro, s3) \<longrightarrow>
            unchanged s2 s3 \<and>
            (ro \<noteq> None \<longrightarrow>
               copy_entry n src dst reset_selinux old_uid new_uid old_gid new_gid s =
                 Return err s3 \<and>
               (\<not> S_ISDIR (st_mode sb) \<longrightarrow> err = 0 \<and> unchanged s s3)) \<and>
            (ro = None \<and> S_ISLNK (st_mode sb) \<longrightarrow>
               copy_entry n src dst reset_selinux old_uid new_uid old_gid new_gid s =
                 copy_symlink src dst reset_selinux sb (st_atim sb, st_mtim sb)
                   old_uid new_uid old_gid new_gid s3) \<and>
            (ro = None \<and> \<not> S_ISLNK (st_mode sb) \<longrightarrow>
               (\<forall>lp s4. check_link (full_path src) sb s3 = Return (Some lp) s4 \<longrightarrow>
                  copy_entry n src dst reset_selinux old_uid new_uid old_gid new_gid s =
                    copy_hardlink dst reset_selinux lp s4) \<and>
               (\<forall>s4. check_link (full_path src) sb s3 = Return None s4 \<and>
                      \<not> S_ISREG (st_mode sb) \<longrightarrow>
                  copy_entry n src dst reset_selinux old_uid new_uid old_gid new_gid s =
                    copy_special src dst reset_selinux sb (st_atim sb, st_mtim sb)
                      old_uid new_uid old_gid new_gid s4) \<and>
               (\<forall>s4. check_link (full_path src) sb s3 = Return None s4 \<and>
                      S_ISREG (st_mode sb) \<longrightarrow>
                  copy_entry n src dst reset_selinux old_uid new_uid old_gid new_gid s =
                    copy_file n src dst reset_selinux sb (st_atim sb, st_mtim sb)
                      old_uid new_uid old_gid new_gid s4)))"
proof -
  have A: "copy_entry n src dst reset_selinux old_uid new_uid old_gid new_gid s = Return 0 s1"
    if "po = None"
    using that assms by (simp add: copy_entry_unprobed)
  have B: "unchanged s s1" using fstatat_links [OF assms] .
  have C: "unchanged s2 s3 \<and>
            (ro \<noteq> None \<longrightarrow>
               copy_entry n src dst reset_selinux old_uid new_uid old_gid new_gid s =
                 Return err s3 \<and>
               (\<not> S_ISDIR (st_mode sb) \<longrightarrow> err = 0 \<and> unchanged s s3)) \<and>
            (ro = None \<and> S_ISLNK (st_mode sb) \<longrightarrow>
               copy_entry n src dst reset_selinux old_uid new_uid old_gid new_gid s =
                 copy_symlink src dst reset_selinux sb (st_atim sb, st_mtim sb)
                   old_uid new_uid old_gid new_gid s3) \<and>
            (ro = None \<and> \<not> S_ISLNK (st_mode sb) \<longrightarrow>
               (\<forall>lp s4. check_link (full_path src) sb s3 = Return (Some lp) s4 \<longrightarrow>
                  copy_entry n src dst reset_selinux old_uid new_uid old_gid new_gid s =
                    copy_hardlink dst reset_selinux lp s4) \<and>
               (\<forall>s4. check_link (full_path src) sb s3 = Return None s4 \<and>
                      \<not> S_ISREG (st_mode sb) \<longrightarrow>
                  copy_entry n src dst reset_selinux old_uid new_uid old_gid new_gid s =
                    copy_special src dst reset_selinux sb (st_atim sb, st_mtim sb)
                      old_uid new_uid old_gid new_gid s4) \<and>
               (\<forall>s4. check_link (full_path src) sb s3 = Return None s4 \<and>
                      S_ISREG (st_mode sb) \<longrightarrow>
                  copy_entry n src dst reset_selinux old_uid new_uid old_gid new_gid s =
                    copy_file n src dst reset_selinux sb (st_atim sb, st_mtim sb)
                      old_uid new_uid old_gid new_gid s4))"
    if p: "fstatat (dirfd src) (name src) True s = (Some sb, s1)"
      and d: "(if S_ISDIR (st_mode sb)
           then copy_dir n src dst reset_selinux sb (st_atim sb, st_mtim sb)
                  old_uid new_uid old_gid new_gid s1
           else Return 0 s1) = Return err s2"
      and r: "fstatat (dirfd dst) (name dst) True s2 = (ro, s3)"
  proof -
    note e = copy_entry_probed [OF p, of n dst reset_selinux old_uid new_uid old_gid new_gid,
      unfolded d, simplified, unfolded r, simplified]
    have u: "unchanged s2 s3" using fstatat_links [OF r] .
    have v: "err = 0 \<and> unchanged s s3" if "\<not> S_ISDIR (st_mode sb)"
      using that d u fstatat_links [OF p] by (auto intro: unchanged_trans)
    have w: "copy_entry n src dst reset_selinux old_uid new_uid old_gid new_gid s =
        Return err s3" if "ro \<noteq> None"
      using that e by auto
    from u v w e show ?thesis by (cases ro) simp_all
  qed
  from A B C assms show ?thesis by simp
qed

theorem copy_entry_dispatch_witness:
  "copy_entry 3 (path_of ''skel'' ''zz'') (path_of ''home'' ''zz'') False (- 1) 1001 (- 1) 1001
     tree_state = Return 0 (snd (fstatat (Fd ''skel'') ''zz'' True tree_state)) \<and>
   copy_entry 3 (path_of ''skel'' ''a'') (path_of ''home'' ''a'') False (- 1) 1001 (- 1) 1001
     walking_state =
     Return 0 (snd (fstatat (Fd ''home'') ''a'' True
                      (snd (fstatat (Fd ''skel'') ''a'' True walking_state)))) \<and>
   unchanged walking_state
     (snd (fstatat (Fd ''home'') ''a'' True
             (snd (fstatat (Fd ''skel'') ''a'' True walking_state)))) \<and>
   copy_entry 3 (path_of ''skel'' ''b'') (path_of ''home'' ''b'') False (- 1) 1001 (- 1) 1001
     walking_state =
     copy_hardlink (path_of ''home'' ''b'') False 0
       (snd (fstatat (Fd ''home'') ''b'' True
               (snd (fstatat (Fd ''skel'') ''b'' True walking_state))))"
proof -
  have n: "dirfd (path_of d nm) = Fd d" "name (path_of d nm) = nm"
    "full_path (path_of d nm) = d @ ''/'' @ nm" for d nm
    by (simp_all add: path_of_def)
  let ?pz = "fstatat (Fd ''skel'') ''zz'' True tree_state"
  have "fst ?pz = None" by code_simp
  then have pz: "fstatat (dirfd (path_of ''skel'' ''zz'')) (name (path_of ''skel'' ''zz'')) True
      tree_state = (None, snd ?pz)"
    by (simp add: n prod_eq_iff)
  note Z = copy_entry_dispatch [OF pz, THEN conjunct1, rule_format, OF refl, THEN conjunct1]
  let ?pa = "fstatat (Fd ''skel'') ''a'' True walking_state"
  let ?qa = "fstatat (Fd ''home'') ''a'' True (snd ?pa)"
  have "fst ?pa = Some stat_a" by code_simp
  then have pa: "fstatat (dirfd (path_of ''skel'' ''a'')) (name (path_of ''skel'' ''a'')) True
      walking_state = (Some stat_a, snd ?pa)"
    by (simp add: n prod_eq_iff)
  have ta: "\<not> S_ISDIR (st_mode stat_a)" "\<not> S_ISLNK (st_mode stat_a)" by code_simp+
  have da: "(if S_ISDIR (st_mode stat_a)
           then copy_dir 3 (path_of ''skel'' ''a'') (path_of ''home'' ''a'') False stat_a
                  (st_atim stat_a, st_mtim stat_a) (- 1) 1001 (- 1) 1001 (snd ?pa)
           else Return 0 (snd ?pa)) = Return 0 (snd ?pa)"
    using ta by simp
  have "fst ?qa \<noteq> None" by code_simp
  then have qa: "fstatat (dirfd (path_of ''home'' ''a'')) (name (path_of ''home'' ''a'')) True
      (snd ?pa) = (fst ?qa, snd ?qa)" and qa': "fst ?qa \<noteq> None"
    by (simp_all add: n)
  note A = copy_entry_dispatch [OF pa, THEN conjunct2, rule_format, OF conjI [OF refl conjI [OF da qa]],
      THEN conjunct2, THEN conjunct1, rule_format, OF qa']
  let ?pb = "fstatat (Fd ''skel'') ''b'' True walking_state"
  let ?qb = "fstatat (Fd ''home'') ''b'' True (snd ?pb)"
  have "fst ?pb = Some stat_a" by code_simp
  then have pb: "fstatat (dirfd (path_of ''skel'' ''b'')) (name (path_of ''skel'' ''b'')) True
      walking_state = (Some stat_a, snd ?pb)"
    by (simp add: n prod_eq_iff)
  have db: "(if S_ISDIR (st_mode stat_a)
           then copy_dir 3 (path_of ''skel'' ''b'') (path_of ''home'' ''b'') False stat_a
                  (st_atim stat_a, st_mtim stat_a) (- 1) 1001 (- 1) 1001 (snd ?pb)
           else Return 0 (snd ?pb)) = Return 0 (snd ?pb)"
    using ta by simp
  have "fst ?qb = None" by code_simp
  then have qb: "fstatat (dirfd (path_of ''home'' ''b'')) (name (path_of ''home'' ''b'')) True
      (snd ?pb) = (None, snd ?qb)"
    by (simp add: n prod_eq_iff)
  have "unchanged walking_state (snd ?qb)"
    using fstatat_unchanged [of walking_state "Fd ''skel''" "''b''" True]
      fstatat_unchanged [of "snd ?pb" "Fd ''home''" "''b''" True]
    by (rule unchanged_trans)
  then have "links (snd ?qb) = links walking_state" "src_orig (snd ?qb) = src_orig walking_state"
    "dst_orig (snd ?qb) = dst_orig walking_state"
    by (simp_all add: unchanged_def)
  then have cb: "check_link (full_path (path_of ''skel'' ''b'')) stat_a (snd ?qb) =
      Return (Some 0) (snd ?qb)"
    by (simp add: check_link_def walking_state_def stat_a_def stat_of_def)
  note B = copy_entry_dispatch [OF pb, THEN conjunct2, rule_format, OF conjI [OF refl conjI [OF db qb]],
      THEN conjunct2, THEN conjunct2, THEN conjunct2, rule_format, OF conjI [OF refl ta(2)],
      THEN conjunct1, rule_format, OF cb]
  from Z A B ta show ?thesis by (simp add: n)
qed

subsection \<open>The root entry\<close>

lemma copy_tree_impl_Suc:
  "copy_tree_impl (Suc n) src dst copy_root rs ou nu og ng s =
     copy_tree_impl_body (copy_tree_impl n) n src dst copy_root rs ou nu og ng s"
  by simp

lemma fstatat_follow_Some:
  "follow 40 s (at_path d nm) \<noteq> None \<Longrightarrow> fault_now s \<noteq> ENOENT \<Longrightarrow>
     fstatat d nm False s = (po, s1) \<Longrightarrow> po \<noteq> None \<or> errno s1 \<noteq> ENOENT"
  by (auto simp: fstatat_def Let_def failing_def logged_def split: if_splits option.splits)

lemma fstatat_nodir:
  "\<forall>k i. lookup s (at_path d nm) = Some (k, i) \<longrightarrow> \<not> S_ISDIR (i_mode i) \<Longrightarrow>
     fstatat d nm True s = (Some sb, s1) \<Longrightarrow> \<not> S_ISDIR (st_mode sb)"
  by (auto simp: fstatat_def Let_def stat_of_def split: if_splits option.splits)

text \<open>
  C2, as the code has it. With \<open>copy_root\<close> set, \<open>copy_tree_impl\<close> returns \<open>-1\<close> and
  changes nothing when the destination exists (and the probe is not answered with
  \<^verbatim>\<open>ENOENT\<close> all the same) and when the source is not an existing directory. When the
  destination is reported missing and the source is a directory, the call is the call of
  \<open>copy_entry\<close> on the two roots: the dispatcher every directory entry goes through,
  which creates the directory and copies what it holds.
\<close>

theorem copy_root_checks:
  "(follow 40 s (at_path (dirfd dst) (name dst)) \<noteq> None \<and> fault_now s \<noteq> ENOENT \<longrightarrow>
      (\<exists>s'. copy_tree_impl (Suc n) src dst True reset_selinux old_uid new_uid old_gid new_gid s =
               Return (- 1) s' \<and> unchanged s s')) \<and>
   ((\<forall>k i. lookup s (at_path (dirfd src) (name src)) = Some (k, i) \<longrightarrow> \<not> S_ISDIR (i_mode i)) \<longrightarrow>
      (\<exists>s'. copy_tree_impl (Suc n) src dst True reset_selinux old_uid new_uid old_gid new_gid s =
               Return (- 1) s' \<and> unchanged s s')) \<and>
   (fstatat (dirfd dst) (name dst) False s = (None, s1) \<and> errno s1 = ENOENT \<and>
    fstatat (dirfd src) (name src) True s1 = (Some sb, s2) \<and> S_ISDIR (st_mode sb) \<longrightarrow>
      copy_tree_impl (Suc n) src dst True reset_selinux old_uid new_uid old_gid new_gid s =
        copy_entry n src dst reset_selinux old_uid new_uid old_gid new_gid s2)"
proof -
  obtain po s1' where p: "fstatat (dirfd dst) (name dst) False s = (po, s1')"
    by (cases "fstatat (dirfd dst) (name dst) False s")
  obtain qo s2' where q: "fstatat (dirfd src) (name src) True s1' = (qo, s2')"
    by (cases "fstatat (dirfd src) (name src) True s1'")
  have u1: "unchanged s s1'" using fstatat_links [OF p] .
  have u2: "unchanged s s2'" using u1 fstatat_links [OF q] by (rule unchanged_trans)
  have A: "\<exists>s'. copy_tree_impl (Suc n) src dst True reset_selinux old_uid new_uid old_gid new_gid s =
               Return (- 1) s' \<and> unchanged s s'"
    if "follow 40 s (at_path (dirfd dst) (name dst)) \<noteq> None" "fault_now s \<noteq> ENOENT"
    using fstatat_follow_Some [OF that p] p u1
    by (auto simp: copy_tree_impl_body_def)
  have B: "\<exists>s'. copy_tree_impl (Suc n) src dst True reset_selinux old_uid new_uid old_gid new_gid s =
               Return (- 1) s' \<and> unchanged s s'"
    if h: "\<forall>k i. lookup s (at_path (dirfd src) (name src)) = Some (k, i) \<longrightarrow> \<not> S_ISDIR (i_mode i)"
  proof -
    from h u1 have "\<forall>k i. lookup s1' (at_path (dirfd src) (name src)) = Some (k, i) \<longrightarrow>
        \<not> S_ISDIR (i_mode i)" by (simp add: unchanged_lookup)
    then have "\<not> S_ISDIR (st_mode sb')" if "qo = Some sb'" for sb'
      using fstatat_nodir q that by blast
    then show ?thesis using p q u1 u2
      by (cases qo) (auto simp: copy_tree_impl_body_def)
  qed
  have C: "copy_tree_impl (Suc n) src dst True reset_selinux old_uid new_uid old_gid new_gid s =
        copy_entry n src dst reset_selinux old_uid new_uid old_gid new_gid s2"
    if "fstatat (dirfd dst) (name dst) False s = (None, s1)" "errno s1 = ENOENT"
      "fstatat (dirfd src) (name src) True s1 = (Some sb, s2)" "S_ISDIR (st_mode sb)"
    using that by (simp add: copy_tree_impl_body_def copy_entry_def)
  from A B C show ?thesis by blast
qed

theorem copy_root_checks_witness:
  "returned (copy_tree_impl 5 (root_of ''skel'') (root_of ''home'') True False
               (- 1) 1001 (- 1) 1001 skel_state) = Some (- 1) \<and>
   returned (copy_tree_impl 5 (root_of ''skel/a'') (root_of ''new'') True False
               (- 1) 1001 (- 1) 1001 skel_state) = Some (- 1) \<and>
   copy_tree_impl 5 (root_of ''skel'') (root_of ''new'') True False
     (- 1) 1001 (- 1) 1001 skel_state =
     copy_entry 4 (root_of ''skel'') (root_of ''new'') False (- 1) 1001 (- 1) 1001
       (snd (fstatat AT_FDCWD ''skel'' True (snd (fstatat AT_FDCWD ''new'' False skel_state))))"
proof -
  have n: "dirfd (root_of p) = AT_FDCWD" "name (root_of p) = p" for p
    by (simp_all add: root_of_def)
  have five: "(5::nat) = Suc 4" by simp
  have a1: "follow 40 skel_state (at_path (dirfd (root_of ''home'')) (name (root_of ''home''))) \<noteq> None"
    unfolding n by code_simp
  have a2: "fault_now skel_state \<noteq> ENOENT" by code_simp
  from copy_root_checks [where n = 4 and src = "root_of ''skel''" and reset_selinux = False
      and old_uid = "- 1" and new_uid = 1001 and old_gid = "- 1" and new_gid = 1001,
      THEN conjunct1, rule_format, OF conjI [OF a1 a2]]
  have A: "returned (copy_tree_impl 5 (root_of ''skel'') (root_of ''home'') True False
               (- 1) 1001 (- 1) 1001 skel_state) = Some (- 1)"
    unfolding five by (auto simp: returned_def)
  have "map_option (\<lambda>(k, i). S_ISDIR (i_mode i)) (lookup skel_state ''skel/a'') = Some False"
    by code_simp
  then have b1: "\<forall>k i. lookup skel_state (at_path (dirfd (root_of ''skel/a'')) (name (root_of ''skel/a'')))
      = Some (k, i) \<longrightarrow> \<not> S_ISDIR (i_mode i)"
    unfolding n by auto
  from copy_root_checks [where n = 4 and dst = "root_of ''new''" and reset_selinux = False
      and old_uid = "- 1" and new_uid = 1001 and old_gid = "- 1" and new_gid = 1001
      and s = skel_state and src = "root_of ''skel/a''",
      THEN conjunct2, THEN conjunct1, THEN mp, OF b1]
  have B: "returned (copy_tree_impl 5 (root_of ''skel/a'') (root_of ''new'') True False
               (- 1) 1001 (- 1) 1001 skel_state) = Some (- 1)"
    unfolding five by (auto simp: returned_def)
  let ?p = "fstatat AT_FDCWD ''new'' False skel_state"
  let ?q = "fstatat AT_FDCWD ''skel'' True (snd ?p)"
  have "fst ?p = None" by code_simp
  then have p: "fstatat (dirfd (root_of ''new'')) (name (root_of ''new'')) False skel_state =
      (None, snd ?p)" by (simp add: n prod_eq_iff)
  have e: "errno (snd ?p) = ENOENT" by code_simp
  have "map_option (\<lambda>sb. S_ISDIR (st_mode sb)) (fst ?q) = Some True" by code_simp
  then obtain sb where q: "fstatat (dirfd (root_of ''skel'')) (name (root_of ''skel'')) True (snd ?p)
      = (Some sb, snd ?q)" and d: "S_ISDIR (st_mode sb)"
    by (cases "fst ?q") (auto simp: n prod_eq_iff)
  from copy_root_checks [where n = 4 and reset_selinux = False
      and old_uid = "- 1" and new_uid = 1001 and old_gid = "- 1" and new_gid = 1001,
      THEN conjunct2, THEN conjunct2, rule_format,
      OF conjI [OF p conjI [OF e conjI [OF q d]]]]
  have C: "copy_tree_impl 5 (root_of ''skel'') (root_of ''new'') True False
     (- 1) 1001 (- 1) 1001 skel_state =
     copy_entry 4 (root_of ''skel'') (root_of ''new'') False (- 1) 1001 (- 1) 1001 (snd ?q)"
    unfolding five .
  from A B C show ?thesis by simp
qed

text \<open>
  The root is not copied alone: with \<open>copy_root\<close> set and \<open>new\<close> missing, the walk
  over the skeleton returns 0 and the file \<open>a\<close> and the link \<open>bin\<close> of the source are
  below the new root.
\<close>

theorem copy_root_descends:
  "returned (copy_tree 5 ''skel'' ''new'' True False (- 1) 1001 (- 1) 1001 skel_state) = Some 0 \<and>
   map_option (\<lambda>(k, i). i_data i)
     (lookup (final skel_state
        (copy_tree 5 ''skel'' ''new'' True False (- 1) 1001 (- 1) 1001 skel_state)) ''new/a'') =
     Some [104, 105] \<and>
   map_option (\<lambda>(k, i). i_target i)
     (lookup (final skel_state
        (copy_tree 5 ''skel'' ''new'' True False (- 1) 1001 (- 1) 1001 skel_state)) ''new/bin'') =
     Some ''../usr/bin''"
  by code_simp

subsection \<open>Directories\<close>

lemma mode_at_unchanged: "unchanged s s' \<Longrightarrow> mode_at s' p = mode_at s p"
  by (simp add: mode_at_def unchanged_lookup)

lemma mkdirat_mode:
  "mkdirat d nm m s = (0, s1) \<Longrightarrow> mode_at s1 (at_path d nm) = Some (S_IFDIR OR (m AND 4095))"
  unfolding mkdirat_def by (drule create_ok) (simp add: mode_at_def new_inode_def)

lemma chownat_mode:
  "chownat_if_needed dst statp ou nu og ng s = (0, s') \<Longrightarrow>
     mode_at s' (at_path (dirfd dst) (name dst)) = mode_at s (at_path (dirfd dst) (name dst))"
  by (drule chownat_ok) (auto simp: mode_at_def set_owner_def)

lemma fchmodat_mode:
  "fchmodat d nm m s = (0, s') \<Longrightarrow> mode_at s (at_path d nm) = Some m0 \<Longrightarrow>
     mode_at s' (at_path d nm) = Some ((m0 AND S_IFMT) OR (m AND 4095))"
  unfolding fchmodat_def by (drule modify_ok) (auto simp: mode_at_def set_mode_def)

lemma openat_read_unchanged:
  "(\<And>m. how \<noteq> OpenCreat m) \<Longrightarrow> unchanged s (snd (openat d nm how s))"
  by (cases how) (auto simp: openat_def Let_def unchanged_def logged_def failing_def
       split: option.splits prod.splits)

lemma lib_copy_mode:
  assumes "\<And>i i'. i_mode (f i i') = i_mode i'"
  shows "mode_at (snd (lib_copy c ifd ofd f s)) p = mode_at s p"
  using assms
  by (auto simp: lib_copy_def mode_at_def lookup_def logged_def failing_def
           split: option.splits prod.splits)

lemma perm_copy_path_mode: "mode_at (snd (perm_copy_path src dst s)) p = mode_at s p"
proof -
  have o: "mode_at (snd (openat d nm OpenRead s)) p = mode_at s p" for d nm s
    by (rule mode_at_unchanged) (rule openat_read_unchanged, simp)
  have c: "mode_at (snd (close f s)) p = mode_at s p" for f s
    by (rule mode_at_unchanged) simp
  have l: "mode_at (snd (perm_copy_fd f g s)) p = mode_at s p" for f g s
    unfolding perm_copy_fd_def by (rule lib_copy_mode) simp
  show ?thesis
    unfolding perm_copy_path_def
    by (auto split: prod.splits option.splits)
       (metis o c l snd_conv)+
qed

lemma attr_copy_path_mode: "mode_at (snd (attr_copy_path src dst s)) p = mode_at s p"
proof -
  have o: "mode_at (snd (openat d nm OpenRead s)) p = mode_at s p" for d nm s
    by (rule mode_at_unchanged) (rule openat_read_unchanged, simp)
  have c: "mode_at (snd (close f s)) p = mode_at s p" for f s
    by (rule mode_at_unchanged) simp
  have l: "mode_at (snd (attr_copy_fd f g s)) p = mode_at s p" for f g s
    unfolding attr_copy_fd_def by (rule lib_copy_mode) simp
  show ?thesis
    unfolding attr_copy_path_def
    by (auto split: prod.splits option.splits)
       (metis o c l snd_conv)+
qed

text \<open>
  C3, as the code has it. When the destination does not exist and \<open>copy_dir\<close> returns
  0, it has made these calls, each from the state the one before it left: the directory
  is made with mode 0700; then the owner is set; then the mode is set to the permission
  bits of the source; then the access control list and, unless \<open>reset_selinux\<close> is set,
  the extended attributes are copied; then \<open>copy_tree_impl\<close> copies the children; then
  the times are set. The children are copied into a directory whose permission bits are
  already those of the source.
\<close>

theorem copy_dir_steps:
  assumes "lookup s (at_path (dirfd dst) (name dst)) = None"
    and "copy_dir n src dst reset_selinux statp mt old_uid new_uid old_gid new_gid s = Return 0 s'"
  shows "\<exists>s0 s0' s1 s2 s3 r4 s4 r5 s5 s6.
           set_selinux_file_context (full_path dst) S_IFDIR s = (0, s0) \<and>
           fstatat (dirfd dst) (name dst) True s0 = (None, s0') \<and>
           mkdirat (dirfd dst) (name dst) 448 s0' = (0, s1) \<and>
           mode_at s1 (at_path (dirfd dst) (name dst)) = Some (S_IFDIR OR 448) \<and>
           chownat_if_needed dst statp old_uid new_uid old_gid new_gid s1 = (0, s2) \<and>
           fchmodat (dirfd dst) (name dst) (st_mode statp AND 4095) s2 = (0, s3) \<and>
           perm_copy_path src dst s3 = (r4, s4) \<and> (r4 = 0 \<or> errno s4 = 0) \<and>
           (if reset_selinux then s5 = s4
            else attr_copy_path src dst s4 = (r5, s5) \<and> (r5 = 0 \<or> errno s5 = 0)) \<and>
           mode_at s5 (at_path (dirfd dst) (name dst)) =
             Some (S_IFDIR OR (st_mode statp AND 4095)) \<and>
           copy_tree_impl n src dst False reset_selinux old_uid new_uid old_gid new_gid s5 =
             Return 0 s6 \<and>
           utimensat (dirfd dst) (name dst) mt s6 = (0, s')"
proof -
  let ?p = "at_path (dirfd dst) (name dst)"
  obtain r0 s0 where a: "set_selinux_file_context (full_path dst) S_IFDIR s = (r0, s0)"
    by (cases "set_selinux_file_context (full_path dst) S_IFDIR s")
  have "unchanged s s0" using set_selinux_unchanged [of s "full_path dst" S_IFDIR] a by simp
  then have "lookup s0 ?p = None" using assms(1) by (simp add: unchanged_lookup)
  then have "fst (fstatat (dirfd dst) (name dst) True s0) = None" by (rule fstatat_None)
  then obtain s0' where b: "fstatat (dirfd dst) (name dst) True s0 = (None, s0')"
    by (cases "fstatat (dirfd dst) (name dst) True s0") simp
  obtain r1 s1 where c: "mkdirat (dirfd dst) (name dst) 448 s0' = (r1, s1)"
    by (cases "mkdirat (dirfd dst) (name dst) 448 s0'")
  obtain r2 s2 where d: "chownat_if_needed dst statp old_uid new_uid old_gid new_gid s1 = (r2, s2)"
    by (cases "chownat_if_needed dst statp old_uid new_uid old_gid new_gid s1")
  obtain r3 s3 where e: "fchmodat (dirfd dst) (name dst) (st_mode statp AND 4095) s2 = (r3, s3)"
    by (cases "fchmodat (dirfd dst) (name dst) (st_mode statp AND 4095) s2")
  obtain r4 s4 where f: "perm_copy_path src dst s3 = (r4, s4)"
    by (cases "perm_copy_path src dst s3")
  obtain r5 s5 where g: "(if \<not> reset_selinux then attr_copy_path src dst s4 else (0, s4)) = (r5, s5)"
    by (cases "if \<not> reset_selinux then attr_copy_path src dst s4 else (0, s4)")
  from assms(2) a b c d e f g have z: "r0 = 0" "r1 = 0" "r2 = 0" "r3 = 0"
      "r4 = 0 \<or> errno s4 = 0" "reset_selinux \<or> r5 = 0 \<or> errno s5 = 0"
    by (auto simp: copy_dir_def copy_dir_body_def split: if_splits)
  from assms(2) a b c d e f g z obtain s6 where
    h: "copy_tree_impl n src dst False reset_selinux old_uid new_uid old_gid new_gid s5 = Return 0 s6"
    and i: "utimensat (dirfd dst) (name dst) mt s6 = (0, s')"
    by (auto simp: copy_dir_def copy_dir_body_def split: if_splits outcome.splits prod.splits)
  have m1: "mode_at s1 ?p = Some (S_IFDIR OR 448)"
    using mkdirat_mode [OF c [unfolded z]] by simp
  have m2: "mode_at s2 ?p = Some (S_IFDIR OR 448)"
    using chownat_mode [OF d [unfolded z]] m1 by simp
  have "mode_at s3 ?p = Some (((S_IFDIR OR 448) AND S_IFMT) OR ((st_mode statp AND 4095) AND 4095))"
    using fchmodat_mode [OF e [unfolded z] m2] .
  then have m3: "mode_at s3 ?p = Some (S_IFDIR OR (st_mode statp AND 4095))"
    by (simp add: and.assoc)
  have m4: "mode_at s4 ?p = Some (S_IFDIR OR (st_mode statp AND 4095))"
    using perm_copy_path_mode [of src dst s3 ?p] f m3 by simp
  have m5: "mode_at s5 ?p = Some (S_IFDIR OR (st_mode statp AND 4095))"
    using attr_copy_path_mode [of src dst s4 ?p] g m4 by (cases reset_selinux) auto
  have g': "if reset_selinux then s5 = s4
            else attr_copy_path src dst s4 = (r5, s5) \<and> (r5 = 0 \<or> errno s5 = 0)"
    using g z by (cases reset_selinux) auto
  show ?thesis
    using a b c d e f z(1-5) g' h i m1 m5 by blast
qed

theorem copy_dir_steps_witness:
  "lookup tree_state ''home/d'' = None \<and>
   returned (copy_dir 3 (path_of ''skel'' ''d'') (path_of ''home'' ''d'') False stat_d
               (st_atim stat_d, st_mtim stat_d) (- 1) 1001 (- 1) 1001 tree_state) = Some 0 \<and>
   (\<exists>s1 s5 s6.
      mode_at s1 ''home/d'' = Some (S_IFDIR OR 448) \<and>
      mode_at s5 ''home/d'' = Some (S_IFDIR OR 320) \<and>
      copy_tree_impl 3 (path_of ''skel'' ''d'') (path_of ''home'' ''d'') False False
        (- 1) 1001 (- 1) 1001 s5 = Return 0 s6 \<and>
      utimensat (Fd ''home'') ''d'' (st_atim stat_d, st_mtim stat_d) s6 =
        (0, final tree_state
              (copy_dir 3 (path_of ''skel'' ''d'') (path_of ''home'' ''d'') False stat_d
                 (st_atim stat_d, st_mtim stat_d) (- 1) 1001 (- 1) 1001 tree_state)))"
proof -
  let ?out = "copy_dir 3 (path_of ''skel'' ''d'') (path_of ''home'' ''d'') False stat_d
               (st_atim stat_d, st_mtim stat_d) (- 1) 1001 (- 1) 1001 tree_state"
  have n: "dirfd (path_of d nm) = Fd d" "name (path_of d nm) = nm" for d nm
    by (simp_all add: path_of_def)
  have l: "lookup tree_state ''home/d'' = None" by code_simp
  then have l': "lookup tree_state (at_path (dirfd (path_of ''home'' ''d''))
      (name (path_of ''home'' ''d''))) = None" by (simp add: n)
  have r: "returned ?out = Some 0" by code_simp
  have m: "st_mode stat_d AND 4095 = 320" by code_simp
  from copy_dir_steps [OF l' returned_final [OF r, of tree_state]]
  show ?thesis using l r by (simp add: n m) blast
qed

text \<open>
  So the directory is not writable by its owner while it is filled when the source is
  not: the subdirectory \<open>d\<close> of the tree has mode 0500, and in the state in which its
  children are copied the copy has mode 0500 too, without the owner's write bit (0200,
  that is 128), and the file \<open>f\<close> is created in it from that state.
\<close>

theorem copy_dir_mode_counterexample:
  "copy_dir 3 (path_of ''skel'' ''d'') (path_of ''home'' ''d'') False stat_d
     (st_atim stat_d, st_mtim stat_d) (- 1) 1001 (- 1) 1001 tree_state =
     (case copy_tree_impl 3 (path_of ''skel'' ''d'') (path_of ''home'' ''d'') False False
             (- 1) 1001 (- 1) 1001 d_made_state of
        Diverge \<Rightarrow> Diverge
      | Abort s \<Rightarrow> Abort s
      | Return r s \<Rightarrow>
          if r \<noteq> 0 then Return (- 1) s
          else (case utimensat (Fd ''home'') ''d'' (st_atim stat_d, st_mtim stat_d) s of
                  (r, s) \<Rightarrow> if r \<noteq> 0 then Return (- 1) s else Return 0 s)) \<and>
   mode_at d_made_state ''home/d'' = Some (S_IFDIR OR 320) \<and>
   (S_IFDIR OR 320) AND (128 :: mode_t) = 0 \<and>
   names d_made_state ''home/d/f'' = None \<and>
   returned (copy_tree_impl 3 (path_of ''skel'' ''d'') (path_of ''home'' ''d'') False False
               (- 1) 1001 (- 1) 1001 d_made_state) = Some 0 \<and>
   map_option (\<lambda>(k, i). i_data i)
     (lookup (final d_made_state
        (copy_tree_impl 3 (path_of ''skel'' ''d'') (path_of ''home'' ''d'') False False
           (- 1) 1001 (- 1) 1001 d_made_state)) ''home/d/f'') = Some [33]"
proof -
  have n: "dirfd (path_of d nm) = Fd d" "name (path_of d nm) = nm"
    "full_path (path_of d nm) = d @ ''/'' @ nm" for d nm
    by (simp_all add: path_of_def)
  let ?s0 = "snd (set_selinux_file_context ''home/d'' S_IFDIR tree_state)"
  let ?s0' = "snd (fstatat (Fd ''home'') ''d'' True ?s0)"
  let ?s1 = "snd (mkdirat (Fd ''home'') ''d'' 448 ?s0')"
  let ?s2 = "snd (chownat_if_needed (path_of ''home'' ''d'') stat_d (- 1) 1001 (- 1) 1001 ?s1)"
  let ?s3 = "snd (fchmodat (Fd ''home'') ''d'' (st_mode stat_d AND 4095) ?s2)"
  let ?s4 = "snd (perm_copy_path (path_of ''skel'' ''d'') (path_of ''home'' ''d'') ?s3)"
  have f0: "fst (set_selinux_file_context ''home/d'' S_IFDIR tree_state) = 0" by code_simp
  have f0': "fst (fstatat (Fd ''home'') ''d'' True ?s0) = None" by code_simp
  have f1: "fst (mkdirat (Fd ''home'') ''d'' 448 ?s0') = 0" by code_simp
  have f2: "fst (chownat_if_needed (path_of ''home'' ''d'') stat_d (- 1) 1001 (- 1) 1001 ?s1) = 0"
    by code_simp
  have f3: "fst (fchmodat (Fd ''home'') ''d'' (st_mode stat_d AND 4095) ?s2) = 0" by code_simp
  have f4: "fst (perm_copy_path (path_of ''skel'' ''d'') (path_of ''home'' ''d'') ?s3) = 0"
    by code_simp
  have f5: "fst (attr_copy_path (path_of ''skel'' ''d'') (path_of ''home'' ''d'') ?s4) = 0"
    by code_simp
  have A: "copy_dir 3 (path_of ''skel'' ''d'') (path_of ''home'' ''d'') False stat_d
     (st_atim stat_d, st_mtim stat_d) (- 1) 1001 (- 1) 1001 tree_state =
     (case copy_tree_impl 3 (path_of ''skel'' ''d'') (path_of ''home'' ''d'') False False
             (- 1) 1001 (- 1) 1001 d_made_state of
        Diverge \<Rightarrow> Diverge
      | Abort s \<Rightarrow> Abort s
      | Return r s \<Rightarrow>
          if r \<noteq> 0 then Return (- 1) s
          else (case utimensat (Fd ''home'') ''d'' (st_atim stat_d, st_mtim stat_d) s of
                  (r, s) \<Rightarrow> if r \<noteq> 0 then Return (- 1) s else Return 0 s))"
    unfolding copy_dir_def copy_dir_body_def d_made_state_def n
    by (simp add: split_beta f0 f0' f1 f2 f3 f4 f5 [unfolded n] f2 [unfolded n] f4 [unfolded n])
  have B: "mode_at d_made_state ''home/d'' = Some (S_IFDIR OR 320)" by code_simp
  have C: "(S_IFDIR OR 320) AND (128 :: mode_t) = 0" by simp
  have D: "names d_made_state ''home/d/f'' = None" by code_simp
  have E: "returned (copy_tree_impl 3 (path_of ''skel'' ''d'') (path_of ''home'' ''d'') False False
               (- 1) 1001 (- 1) 1001 d_made_state) = Some 0" by code_simp
  have F: "map_option (\<lambda>(k, i). i_data i)
     (lookup (final d_made_state
        (copy_tree_impl 3 (path_of ''skel'' ''d'') (path_of ''home'' ''d'') False False
           (- 1) 1001 (- 1) 1001 d_made_state)) ''home/d/f'') = Some [33]" by code_simp
  from A B C D E F show ?thesis by blast
qed

subsection \<open>Nothing is taken back\<close>

text \<open>
  No call removes a name or binds it to another inode, so whatever the walk has created
  stays where it is, however the walk ends.
\<close>

lemma keeps_unchanged: "unchanged x x' \<Longrightarrow> keeps N x \<Longrightarrow> keeps N x'"
  by (simp add: keeps_def unchanged_def)

lemma keeps_logged [simp]: "keeps N (logged c x) = keeps N x"
  by (simp add: keeps_def)

lemma keeps_failing [simp]: "keeps N (failing c e x) = keeps N x"
  by (simp add: keeps_def)

lemma keeps_simple_call [simp]: "keeps N (snd (simple_call c x)) = keeps N x"
  by (simp add: simple_call_def)

lemma keeps_close [simp]: "keeps N (snd (close f x)) = keeps N x"
  by (simp add: close_def)

lemma keeps_closedir [simp]: "keeps N (snd (closedir f x)) = keeps N x"
  by (simp add: closedir_def)

lemma keeps_set_selinux [simp]: "keeps N (snd (set_selinux_file_context p m x)) = keeps N x"
  by (simp add: set_selinux_file_context_def)

lemma keeps_reset_selinux [simp]: "keeps N (snd (reset_selinux_file_context x)) = keeps N x"
  by (simp add: reset_selinux_file_context_def)

lemma keeps_aprintf [simp]: "keeps N (snd (aprintf str x)) = keeps N x"
  by (simp add: aprintf_def split_beta)

lemma keeps_fstatat [simp]: "keeps N (snd (fstatat d nm nf x)) = keeps N x"
  by (simp add: fstatat_def Let_def split: option.splits prod.splits)

lemma keeps_areadlink [simp]: "keeps N (snd (areadlink p x)) = keeps N x"
  by (simp add: areadlink_def Let_def split: option.splits prod.splits)

lemma keeps_readdir [simp]: "keeps N (snd (readdir f ents x)) = keeps N x"
  by (simp add: readdir_def Let_def split: list.splits)

lemma keeps_fdopendir [simp]: "keeps N (snd (fdopendir f x)) = keeps N x"
  by (simp add: fdopendir_def Let_def split: option.splits prod.splits)

lemma keeps_modify [simp]: "keeps N (snd (modify c p f x)) = keeps N x"
  by (simp add: modify_def keeps_def split: option.splits prod.splits)

lemma keeps_fchownat [simp]: "keeps N (snd (fchownat d nm u g x)) = keeps N x"
  by (simp add: fchownat_def)

lemma keeps_fchown [simp]: "keeps N (snd (fchown f u g x)) = keeps N x"
  by (simp add: fchown_def)

lemma keeps_fchmodat [simp]: "keeps N (snd (fchmodat d nm m x)) = keeps N x"
  by (simp add: fchmodat_def)

lemma keeps_fchmod [simp]: "keeps N (snd (fchmod f m x)) = keeps N x"
  by (simp add: fchmod_def)

lemma keeps_utimensat [simp]: "keeps N (snd (utimensat d nm mt x)) = keeps N x"
  by (simp add: utimensat_def)

lemma keeps_write_full [simp]: "keeps N (snd (write_full f buf x)) = keeps N x"
  by (simp add: write_full_def)

lemma keeps_chownat_if_needed [simp]:
  "keeps N (snd (chownat_if_needed dst statp ou nu og ng x)) = keeps N x"
  by (simp add: chownat_if_needed_def)

lemma keeps_fchown_if_needed [simp]:
  "keeps N (snd (fchown_if_needed f statp ou nu og ng x)) = keeps N x"
  by (simp add: fchown_if_needed_def)

lemma keeps_read [simp]: "keeps N (snd (read f x)) = keeps N x"
  by (simp add: read_def Let_def keeps_def split: option.splits prod.splits)

lemma keeps_lib_copy [simp]: "keeps N (snd (lib_copy c ifd ofd f x)) = keeps N x"
  by (simp add: lib_copy_def keeps_def split: option.splits prod.splits)

lemma keeps_perm_copy_fd [simp]: "keeps N (snd (perm_copy_fd f g x)) = keeps N x"
  by (simp add: perm_copy_fd_def)

lemma keeps_attr_copy_fd [simp]: "keeps N (snd (attr_copy_fd f g x)) = keeps N x"
  by (simp add: attr_copy_fd_def)

lemma map_le_fresh: "N \<subseteq>\<^sub>m m \<Longrightarrow> m k = None \<Longrightarrow> N \<subseteq>\<^sub>m m(k \<mapsto> v)"
  by (force simp: map_le_def)

lemma keeps_create [simp]: "keeps N x \<Longrightarrow> keeps N (snd (create c d nm i x))"
  by (cases "names x (at_path d nm)")
     (auto simp: create_def keeps_def split: option.splits intro!: map_le_fresh)

lemma keeps_mkdirat [simp]: "keeps N x \<Longrightarrow> keeps N (snd (mkdirat d nm m x))"
  by (simp add: mkdirat_def)

lemma keeps_mknodat [simp]: "keeps N x \<Longrightarrow> keeps N (snd (mknodat d nm m r x))"
  by (simp add: mknodat_def)

lemma keeps_symlinkat [simp]: "keeps N x \<Longrightarrow> keeps N (snd (symlinkat t d nm x))"
  by (simp add: symlinkat_def)

lemma keeps_linkat [simp]: "keeps N x \<Longrightarrow> keeps N (snd (linkat old d nm x))"
  by (cases "names x (at_path d nm)")
     (auto simp: linkat_def Let_def keeps_def split: option.splits prod.splits
           intro!: map_le_fresh)

lemma keeps_openat [simp]: "keeps N x \<Longrightarrow> keeps N (snd (openat d nm how x))"
proof (cases how)
  case (OpenCreat m)
  then show "keeps N x \<Longrightarrow> ?thesis" by (simp add: openat_def split_beta Let_def)
qed (auto simp: openat_def Let_def keeps_def split: option.splits)

lemma keeps_perm_copy_path [simp]: "keeps N x \<Longrightarrow> keeps N (snd (perm_copy_path src dst x))"
  by (simp add: perm_copy_path_def split_beta split: option.splits)

lemma keeps_attr_copy_path [simp]: "keeps N x \<Longrightarrow> keeps N (snd (attr_copy_path src dst x))"
  by (simp add: attr_copy_path_def split_beta split: option.splits)

lemma okeeps_simps [simp]:
  "okeeps N (Return r x) = keeps N x" "okeeps N (Abort x) = keeps N x" "okeeps N Diverge"
  by (simp_all add: okeeps_def)

lemma okeeps_case:
  "okeeps N out \<Longrightarrow> (\<And>r x. keeps N x \<Longrightarrow> okeeps N (k r x)) \<Longrightarrow>
     okeeps N (case out of Return r x \<Rightarrow> k r x | Abort x \<Rightarrow> Abort x | Diverge \<Rightarrow> Diverge)"
  by (cases out) simp_all

lemma keeps_links_update [simp]: "keeps N (x\<lparr>links := l\<rparr>) = keeps N x"
  by (simp add: keeps_def)

lemma keeps_orig_update [simp]:
  "keeps N (x\<lparr>src_orig := a, dst_orig := b\<rparr>) = keeps N x"
  by (simp add: keeps_def)

lemma okeeps_check_link: "keeps N x \<Longrightarrow> okeeps N (check_link nm sb x)"
  by (simp add: check_link_def split: option.splits prod.splits)

lemma okeeps_copy_hardlink: "keeps N x \<Longrightarrow> okeeps N (copy_hardlink dst rs lp x)"
  by (simp add: copy_hardlink_def split_beta Let_def remove_link_def)

lemma okeeps_copy_symlink:
  "keeps N x \<Longrightarrow> okeeps N (copy_symlink src dst rs statp mt ou nu og ng x)"
  by (simp add: copy_symlink_def split_beta Let_def split: option.splits)

lemma okeeps_copy_special:
  "keeps N x \<Longrightarrow> okeeps N (copy_special src dst rs statp mt ou nu og ng x)"
  by (simp add: copy_special_def split_beta)

lemma okeeps_copy_data: "keeps N x \<Longrightarrow> okeeps N (copy_data n ifd ofd x)"
  by (induction n arbitrary: x) (simp_all add: split_beta split: option.splits)

lemma okeeps_copy_file:
  "keeps N x \<Longrightarrow> okeeps N (copy_file n src dst rs statp mt ou nu og ng x)"
  unfolding copy_file_def split_beta
  by (auto split: option.splits intro!: okeeps_case okeeps_copy_data)

lemma okeeps_copy_dir_body:
  assumes "\<And>src dst cr rs ou nu og ng x. keeps N x \<Longrightarrow> okeeps N (impl src dst cr rs ou nu og ng x)"
  shows "keeps N x \<Longrightarrow> okeeps N (copy_dir_body impl src dst rs statp mt ou nu og ng x)"
  unfolding copy_dir_body_def split_beta
  by (auto intro!: okeeps_case assms split: option.splits)

lemma okeeps_copy_entry_body:
  assumes "\<And>src dst cr rs ou nu og ng x. keeps N x \<Longrightarrow> okeeps N (impl src dst cr rs ou nu og ng x)"
  shows "keeps N x \<Longrightarrow> okeeps N (copy_entry_body impl n src dst rs ou nu og ng x)"
  unfolding copy_entry_body_def split_beta Let_def
  by (auto intro!: okeeps_case okeeps_copy_dir_body assms okeeps_copy_symlink okeeps_check_link
        okeeps_copy_hardlink okeeps_copy_special okeeps_copy_file
      split: option.splits)

lemma okeeps_copy_loop:
  assumes "\<And>src dst cr rs ou nu og ng x. keeps N x \<Longrightarrow> okeeps N (impl src dst cr rs ou nu og ng x)"
  shows "keeps N x \<Longrightarrow> okeeps N (copy_loop impl n src dst dir dst_fd rs ou nu og ng ents err x)"
proof (induction ents arbitrary: err x)
  case Nil
  then show ?case
    by (subst copy_loop.simps) (simp add: readdir_def Let_def)
next
  case (Cons e es)
  have r: "fst (readdir dir (e # es) x) = None \<or> fst (readdir dir (e # es) x) = Some (e, es)"
    by (simp add: readdir_def Let_def)
  from Cons.prems r show ?case
    by (subst copy_loop.simps)
       (auto simp: split_beta intro!: okeeps_case Cons.IH okeeps_copy_entry_body assms
             split: option.splits)
qed

lemma okeeps_copy_tree_impl_body:
  assumes "\<And>src dst cr rs ou nu og ng x. keeps N x \<Longrightarrow> okeeps N (impl src dst cr rs ou nu og ng x)"
  shows "keeps N x \<Longrightarrow> okeeps N (copy_tree_impl_body impl n src dst cr rs ou nu og ng x)"
  unfolding copy_tree_impl_body_def split_beta Let_def
  by (auto intro!: okeeps_case okeeps_copy_entry_body okeeps_copy_loop assms
      split: option.splits)

lemma okeeps_copy_tree_impl:
  "keeps N x \<Longrightarrow> okeeps N (copy_tree_impl n src dst cr rs ou nu og ng x)"
proof (induction n arbitrary: src dst cr rs ou nu og ng x)
  case 0
  then show ?case by simp
next
  case (Suc n)
  from Suc.prems show ?case
    by (simp only: copy_tree_impl.simps) (rule okeeps_copy_tree_impl_body, rule Suc.IH)
qed

lemma okeeps_copy_entry: "keeps N x \<Longrightarrow> okeeps N (copy_entry n src dst rs ou nu og ng x)"
  unfolding copy_entry_def by (rule okeeps_copy_entry_body) (rule okeeps_copy_tree_impl)

lemma copy_entry_names:
  "copy_entry n src dst rs ou nu og ng s = Return r s' \<Longrightarrow> names s \<subseteq>\<^sub>m names s'"
  using okeeps_copy_entry [of "names s" s n src dst rs ou nu og ng]
  by (simp add: keeps_def)

lemma copy_tree_impl_names:
  "copy_tree_impl n src dst cr rs ou nu og ng s = Return r s' \<Longrightarrow> names s \<subseteq>\<^sub>m names s'"
  using okeeps_copy_tree_impl [of "names s" s n src dst cr rs ou nu og ng]
  by (simp add: keeps_def)

subsection \<open>A child that fails\<close>

lemma copy_loop_failed:
  "err \<noteq> 0 \<Longrightarrow>
     copy_loop impl n src dst dir dst_fd rs ou nu og ng ents err s = Return err s"
  by (subst copy_loop.simps) simp

lemma copy_loop_dot:
  assumes "readdir dir ents s = (Some (d_name, rest), s1)" and "d_name = ''.'' \<or> d_name = ''..''"
  shows "copy_loop impl n src dst dir dst_fd rs ou nu og ng ents 0 s =
         copy_loop impl n src dst dir dst_fd rs ou nu og ng rest 0 s1"
  using assms by (subst copy_loop.simps) auto

lemma copy_loop_child:
  assumes "readdir dir ents s = (Some (d_name, rest), s1)"
    and "d_name \<noteq> ''.''" and "d_name \<noteq> ''..''"
    and "aprintf (full_path src @ ''/'' @ d_name) s1 = (Some src_name, s2)"
    and "aprintf (full_path dst @ ''/'' @ d_name) s2 = (Some dst_name, s3)"
    and "copy_entry_body impl n \<lparr>full_path = src_name, dirfd = dir, name = d_name\<rparr>
           \<lparr>full_path = dst_name, dirfd = dst_fd, name = d_name\<rparr> rs ou nu og ng s3 =
         Return err s4"
  shows "copy_loop impl n src dst dir dst_fd rs ou nu og ng ents 0 s =
         copy_loop impl n src dst dir dst_fd rs ou nu og ng rest err s4"
  using assms by (subst copy_loop.simps) simp

lemma simple_call_trace:
  "trace (snd (simple_call c s)) = trace s @ [c] \<and> fault (snd (simple_call c s)) = fault s"
  by (simp add: simple_call_def failing_def logged_def)

lemma reset_fault_now:
  "fault_now (if b then (snd (close f2 (snd (closedir f1 s))))\<lparr>src_orig := None, dst_orig := None\<rparr>
              else snd (close f2 (snd (closedir f1 s)))) = fault s (length (trace s) + 2)"
  by (simp add: fault_now_def close_def closedir_def simple_call_trace)

lemma copy_tree_impl_after_loop:
  assumes "openat (dirfd src) (name src) OpenDir s0 = (Some dir, sa)"
    and "openat (dirfd dst) (name dst) OpenDir sa = (Some dst_fd, sb)"
    and "fdopendir dir sb = (Some ents0, sc)"
    and "sd = (if src_orig sc = None
               then sc\<lparr>src_orig := Some (full_path src), dst_orig := Some (full_path dst)\<rparr>
               else sc)"
    and "copy_loop (copy_tree_impl n) n src dst dir dst_fd rs ou nu og ng ents0 0 sd =
           Return err s4"
  shows "\<exists>s'. copy_tree_impl (Suc n) src dst False rs ou nu og ng s0 =
                 Return (if fault s4 (length (trace s4) + 2) = 0 then err else - 1) s' \<and>
               names s' = names s4 \<and> inodes s' = inodes s4"
proof -
  let ?t = "snd (close dst_fd (snd (closedir dir s4)))"
  let ?u = "if src_orig sc = None then ?t\<lparr>src_orig := None, dst_orig := None\<rparr> else ?t"
  have t: "names ?t = names s4 \<and> inodes ?t = inodes s4"
    using close_unchanged [of "snd (closedir dir s4)" dst_fd] closedir_unchanged [of s4 dir]
    by (simp add: unchanged_def)
  then have u: "names ?u = names s4 \<and> inodes ?u = inodes s4" by simp
  have v: "names (snd (reset_selinux_file_context ?u)) = names s4 \<and>
           inodes (snd (reset_selinux_file_context ?u)) = inodes s4"
    using reset_selinux_unchanged [of ?u] u by (simp add: unchanged_def)
  have f: "fault_now ?u = fault s4 (length (trace s4) + 2)" by (rule reset_fault_now)
  have r: "fst (reset_selinux_file_context ?u) = (if fault s4 (length (trace s4) + 2) = 0 then 0 else - 1)"
    by (simp add: reset_selinux_file_context_def simple_call_def f)
  have "copy_tree_impl (Suc n) src dst False rs ou nu og ng s0 =
      (case reset_selinux_file_context ?u of
         (r, s) \<Rightarrow> if r \<noteq> 0 then Return (- 1) s else Return err s)"
    using assms by (simp add: copy_tree_impl_body_def Let_def)
  with v r show ?thesis
    by (cases "reset_selinux_file_context ?u") auto
qed

text \<open>
  C9, as the code has it. Let \<open>copy_tree_impl\<close> have opened the two directories and let
  its loop have come, without an error, to the stream \<open>ents\<close> in the state \<open>s\<close>. If the
  next entry is a child whose \<open>copy_entry\<close> returns \<open>err \<noteq> 0\<close> in the state \<open>s4\<close>, the
  loop returns \<open>err\<close> in \<open>s4\<close>, whatever entries are left in the stream;
  \<open>copy_tree_impl\<close> returns a failure too, with the file system as the child left it:
  \<open>err\<close> itself when the \<^verbatim>\<open>reset_selinux_file_context\<close> that ends the call succeeds (it
  is the third call after the child, behind \<^verbatim>\<open>closedir\<close> and \<^verbatim>\<open>close\<close>), and \<open>-1\<close>
  when it fails; and every name bound before the child, and before the call, is still
  bound to its inode.
\<close>

theorem child_failure_aborts:
  assumes "openat (dirfd src) (name src) OpenDir s0 = (Some dir, sa)"
    and "openat (dirfd dst) (name dst) OpenDir sa = (Some dst_fd, sb)"
    and "fdopendir dir sb = (Some ents0, sc)"
    and "sd = (if src_orig sc = None
               then sc\<lparr>src_orig := Some (full_path src), dst_orig := Some (full_path dst)\<rparr>
               else sc)"
    and "copy_loop (copy_tree_impl n) n src dst dir dst_fd reset_selinux
           old_uid new_uid old_gid new_gid ents0 0 sd =
         copy_loop (copy_tree_impl n) n src dst dir dst_fd reset_selinux
           old_uid new_uid old_gid new_gid ents 0 s"
    and "readdir dir ents s = (Some (d_name, rest), s1)"
    and "d_name \<noteq> ''.''" and "d_name \<noteq> ''..''"
    and "aprintf (full_path src @ ''/'' @ d_name) s1 = (Some src_name, s2)"
    and "aprintf (full_path dst @ ''/'' @ d_name) s2 = (Some dst_name, s3)"
    and "copy_entry n \<lparr>full_path = src_name, dirfd = dir, name = d_name\<rparr>
           \<lparr>full_path = dst_name, dirfd = dst_fd, name = d_name\<rparr>
           reset_selinux old_uid new_uid old_gid new_gid s3 = Return err s4"
    and "err \<noteq> 0"
  shows "copy_loop (copy_tree_impl n) n src dst dir dst_fd reset_selinux
           old_uid new_uid old_gid new_gid ents 0 s = Return err s4 \<and>
         names s \<subseteq>\<^sub>m names s4 \<and>
         (\<exists>e' s'. copy_tree_impl (Suc n) src dst False reset_selinux
                     old_uid new_uid old_gid new_gid s0 = Return e' s' \<and>
                  e' \<noteq> 0 \<and>
                  e' = (if fault s4 (length (trace s4) + 2) = 0 then err else - 1) \<and>
                  names s' = names s4 \<and> inodes s' = inodes s4 \<and>
                  names s0 \<subseteq>\<^sub>m names s')"
proof -
  have "copy_loop (copy_tree_impl n) n src dst dir dst_fd reset_selinux
           old_uid new_uid old_gid new_gid ents 0 s =
        copy_loop (copy_tree_impl n) n src dst dir dst_fd reset_selinux
           old_uid new_uid old_gid new_gid rest err s4"
    using assms(6-11) unfolding copy_entry_def by (rule copy_loop_child)
  then have A: "copy_loop (copy_tree_impl n) n src dst dir dst_fd reset_selinux
           old_uid new_uid old_gid new_gid ents 0 s = Return err s4"
    using assms(12) by (simp add: copy_loop_failed)
  have "unchanged s s1" using readdir_unchanged [of s dir ents] by (simp only: assms(6) snd_conv)
  moreover have "unchanged s1 s2"
    using aprintf_unchanged [of s1 "full_path src @ ''/'' @ d_name"]
    by (simp only: assms(9) snd_conv)
  moreover have "unchanged s2 s3"
    using aprintf_unchanged [of s2 "full_path dst @ ''/'' @ d_name"]
    by (simp only: assms(10) snd_conv)
  ultimately have "unchanged s s3" by (blast intro: unchanged_trans)
  then have "names s3 = names s" by (simp add: unchanged_def)
  with copy_entry_names [OF assms(11)] have B: "names s \<subseteq>\<^sub>m names s4" by simp
  from copy_tree_impl_after_loop [OF assms(1-4) assms(5) [unfolded A]]
  obtain s' where C: "copy_tree_impl (Suc n) src dst False reset_selinux
       old_uid new_uid old_gid new_gid s0 =
         Return (if fault s4 (length (trace s4) + 2) = 0 then err else - 1) s'"
    "names s' = names s4" "inodes s' = inodes s4" by blast
  from assms(12) have "(if fault s4 (length (trace s4) + 2) = 0 then err else - 1) \<noteq> 0" by simp
  moreover from copy_tree_impl_names [OF C(1)] have "names s0 \<subseteq>\<^sub>m names s'" .
  ultimately show ?thesis using A B C by blast
qed

lemma readdir_ok:
  "fault_now s = 0 \<Longrightarrow> readdir f (e # es) s = (Some (e, es), snd (readdir f (e # es) s))"
  by (simp add: readdir_def Let_def)

lemma aprintf_ok: "fault_now s = 0 \<Longrightarrow> aprintf str s = (Some str, snd (aprintf str s))"
  by (simp add: aprintf_def simple_call_def)

theorem child_failure_aborts_witness:
  "copy_loop (copy_tree_impl 4) 4 (root_of ''skel'') (root_of ''home'') (Fd ''skel'') (Fd ''home'')
     False (- 1) 1001 (- 1) 1001 [''d'', ''z''] 0 clash_at_d = Return 1 clash_end \<and>
   names clash_at_d \<subseteq>\<^sub>m names clash_end \<and>
   names clash_at_d ''home/a'' = Some (2, 32) \<and>
   (\<exists>s'. copy_tree_impl 5 (root_of ''skel'') (root_of ''home'') False False
               (- 1) 1001 (- 1) 1001 clash_state = Return 1 s' \<and>
         names s' ''home/a'' = Some (2, 32) \<and> names s' ''home/z'' = None)"
proof -
  let ?src = "root_of ''skel''" and ?dst = "root_of ''home''"
  let ?sa = "snd (openat AT_FDCWD ''skel'' OpenDir clash_state)"
  let ?sb = "snd (openat AT_FDCWD ''home'' OpenDir ?sa)"
  let ?sc = "snd (fdopendir (Fd ''skel'') ?sb)"
  let ?e0 = "[''.'', ''..'', ''a'', ''d'', ''z'']"
  let ?t1 = "snd (readdir (Fd ''skel'') ?e0 clash_start)"
  let ?t2 = "snd (readdir (Fd ''skel'') [''..'', ''a'', ''d'', ''z''] ?t1)"
  let ?t3 = "snd (readdir (Fd ''skel'') [''a'', ''d'', ''z''] ?t2)"
  let ?t4 = "snd (aprintf ''skel/a'' ?t3)"
  let ?t5 = "snd (aprintf ''home/a'' ?t4)"
  let ?oa = "copy_entry 4 (path_of ''skel'' ''a'') (path_of ''home'' ''a'') False
               (- 1) 1001 (- 1) 1001 ?t5"
  let ?u1 = "snd (readdir (Fd ''skel'') [''d'', ''z''] clash_at_d)"
  let ?u2 = "snd (aprintf ''skel/d'' ?u1)"
  let ?u3 = "snd (aprintf ''home/d'' ?u2)"
  let ?od = "copy_entry 4 (path_of ''skel'' ''d'') (path_of ''home'' ''d'') False
               (- 1) 1001 (- 1) 1001 ?u3"
  have n: "dirfd (root_of p) = AT_FDCWD" "name (root_of p) = p" "full_path (root_of p) = p" for p
    by (simp_all add: root_of_def)
  have c: "\<lparr>full_path = d @ ''/'' @ nm, dirfd = Fd d, name = nm\<rparr> = path_of d nm" for d nm
    by (simp add: path_of_def)
  have "fst (openat AT_FDCWD ''skel'' OpenDir clash_state) = Some (Fd ''skel'')" by code_simp
  then have h1: "openat (dirfd ?src) (name ?src) OpenDir clash_state = (Some (Fd ''skel''), ?sa)"
    by (simp add: n prod_eq_iff)
  have "fst (openat AT_FDCWD ''home'' OpenDir ?sa) = Some (Fd ''home'')" by code_simp
  then have h2: "openat (dirfd ?dst) (name ?dst) OpenDir ?sa = (Some (Fd ''home''), ?sb)"
    by (simp add: n prod_eq_iff)
  have "fst (fdopendir (Fd ''skel'') ?sb) = Some ?e0" by code_simp
  then have h3: "fdopendir (Fd ''skel'') ?sb = (Some ?e0, ?sc)" by (simp add: prod_eq_iff)
  have "src_orig ?sc = None" by code_simp
  then have h4: "clash_start =
      (if src_orig ?sc = None
       then ?sc\<lparr>src_orig := Some (full_path ?src), dst_orig := Some (full_path ?dst)\<rparr>
       else ?sc)"
    by (simp add: clash_start_def n)
  have f: "fault_now clash_start = 0" "fault_now ?t1 = 0" "fault_now ?t2 = 0" "fault_now ?t3 = 0"
    "fault_now ?t4 = 0" "fault_now clash_at_d = 0" "fault_now ?u1 = 0" "fault_now ?u2 = 0"
    by code_simp+
  have "returned ?oa = Some 0" by code_simp
  then have "?oa = Return 0 clash_at_d"
    unfolding clash_at_d_def by (rule returned_final)
  then have ca: "copy_entry_body (copy_tree_impl 4) 4
       \<lparr>full_path = ''skel/a'', dirfd = Fd ''skel'', name = ''a''\<rparr>
       \<lparr>full_path = ''home/a'', dirfd = Fd ''home'', name = ''a''\<rparr>
       False (- 1) 1001 (- 1) 1001 ?t5 = Return 0 clash_at_d"
    using c [of "''skel''" "''a''"] c [of "''home''" "''a''"] by (simp add: copy_entry_def)
  have "returned ?od = Some 1" by code_simp
  then have "?od = Return 1 clash_end"
    unfolding clash_end_def by (rule returned_final)
  then have cd: "copy_entry 4
       \<lparr>full_path = ''skel/d'', dirfd = Fd ''skel'', name = ''d''\<rparr>
       \<lparr>full_path = ''home/d'', dirfd = Fd ''home'', name = ''d''\<rparr>
       False (- 1) 1001 (- 1) 1001 ?u3 = Return 1 clash_end"
    using c [of "''skel''" "''d''"] c [of "''home''" "''d''"] by simp
  have h5: "copy_loop (copy_tree_impl 4) 4 ?src ?dst (Fd ''skel'') (Fd ''home'')
        False (- 1) 1001 (- 1) 1001 ?e0 0 clash_start =
      copy_loop (copy_tree_impl 4) 4 ?src ?dst (Fd ''skel'') (Fd ''home'')
        False (- 1) 1001 (- 1) 1001 [''d'', ''z''] 0 clash_at_d"
    using copy_loop_dot [OF readdir_ok [OF f(1)], where impl = "copy_tree_impl 4" and n = 4
        and src = ?src and dst = ?dst and dst_fd = "Fd ''home''" and rs = False
        and ou = "- 1" and nu = 1001 and og = "- 1" and ng = 1001]
      copy_loop_dot [OF readdir_ok [OF f(2)], where impl = "copy_tree_impl 4" and n = 4
        and src = ?src and dst = ?dst and dst_fd = "Fd ''home''" and rs = False
        and ou = "- 1" and nu = 1001 and og = "- 1" and ng = 1001]
      copy_loop_child [OF readdir_ok [OF f(3)], where impl = "copy_tree_impl 4" and n = 4
        and src = ?src and dst = ?dst and dst_fd = "Fd ''home''" and rs = False
        and ou = "- 1" and nu = 1001 and og = "- 1" and ng = 1001
        and src_name = "''skel/a''" and ?s2.0 = ?t4 and dst_name = "''home/a''" and ?s3.0 = ?t5
        and err = 0 and ?s4.0 = clash_at_d]
      aprintf_ok [OF f(4), of "''skel/a''"] aprintf_ok [OF f(5), of "''home/a''"] ca
    by (simp add: n)
  have h9: "aprintf (full_path ?src @ ''/'' @ ''d'') ?u1 = (Some ''skel/d'', ?u2)"
    using aprintf_ok [OF f(7), of "''skel/d''"] by (simp add: n)
  have h10: "aprintf (full_path ?dst @ ''/'' @ ''d'') ?u2 = (Some ''home/d'', ?u3)"
    using aprintf_ok [OF f(8), of "''home/d''"] by (simp add: n)
  have ne: "''d'' \<noteq> ''.''" "''d'' \<noteq> ''..''" "(1 :: int) \<noteq> 0" by simp_all
  note T = child_failure_aborts [OF h1 h2 h3 h4 h5 readdir_ok [OF f(6)] ne(1,2) h9 h10 cd ne(3)]
  have a: "names clash_at_d ''home/a'' = Some (2, 32)" by code_simp
  have z: "names clash_end ''home/a'' = Some (2, 32)" "names clash_end ''home/z'' = None"
    "fault clash_end (length (trace clash_end) + 2) = 0"
    by code_simp+
  from T a z show ?thesis by (auto simp: eval_nat_numeral)
qed

text \<open>
  The failure does not always go up unchanged. In the tree above the copy of \<open>d\<close> goes
  into the existing \<open>home/d\<close> and fails there, so \<open>copy_entry\<close> returns 1 for \<open>d\<close>;
  the loop stops, and when the \<^verbatim>\<open>reset_selinux_file_context\<close> that follows fails,
  \<open>copy_tree_impl\<close> returns \<open>-1\<close>.
\<close>

theorem child_failure_counterexample:
  "(case copy_entry 4 (path_of ''skel'' ''d'') (path_of ''home'' ''d'') False
           (- 1) 1001 (- 1) 1001 reset_fails_at_d of
      Return err s4 \<Rightarrow>
        err = 1 \<and>
        (case copy_tree_impl 5 (root_of ''skel'') (root_of ''home'') False False
                (- 1) 1001 (- 1) 1001 reset_fails_state of
           Return e' s' \<Rightarrow>
             e' = - 1 \<and> e' \<noteq> err \<and>
             trace s' = trace s4 @ [Closedir (Fd ''skel''), Close (Fd ''home''),
                                    Reset_selinux_file_context] \<and>
             errno s' = EPERM \<and>
             names s' ''home/a'' = Some (2, 32) \<and> names s' ''home/z'' = None
         | Abort s' \<Rightarrow> False
         | Diverge \<Rightarrow> False)
    | Abort s4 \<Rightarrow> False
    | Diverge \<Rightarrow> False)"
  by code_simp

subsection \<open>Ownership\<close>

text \<open>
  No call changes the owner or the group of an entry that is there already: the only
  calls that set them, \<^verbatim>\<open>fchownat\<close> and \<^verbatim>\<open>fchown\<close>, come right after the call that
  created their entry.
\<close>

lemma owns_unchanged: "unchanged x x' \<Longrightarrow> owns p ow x' = owns p ow x"
  by (simp add: owns_def owner_at_def unchanged_lookup)

lemma owner_at_logged [simp]: "owner_at (logged c x) p = owner_at x p"
  by (simp add: owner_at_def)

lemma owner_at_failing [simp]: "owner_at (failing c e x) p = owner_at x p"
  by (simp add: owner_at_def)

lemma owns_logged [simp]: "owns p ow (logged c x) = owns p ow x"
  by (simp add: owns_def owner_at_def)

lemma owns_failing [simp]: "owns p ow (failing c e x) = owns p ow x"
  by (simp add: owns_def owner_at_def)

lemma owns_simple_call [simp]: "owns p ow (snd (simple_call c x)) = owns p ow x"
  by (simp add: simple_call_def)

lemma owns_close [simp]: "owns p ow (snd (close f x)) = owns p ow x"
  by (simp add: close_def)

lemma owns_closedir [simp]: "owns p ow (snd (closedir f x)) = owns p ow x"
  by (simp add: closedir_def)

lemma owns_set_selinux [simp]: "owns p ow (snd (set_selinux_file_context q m x)) = owns p ow x"
  by (simp add: set_selinux_file_context_def)

lemma owns_reset_selinux [simp]: "owns p ow (snd (reset_selinux_file_context x)) = owns p ow x"
  by (simp add: reset_selinux_file_context_def)

lemma owns_aprintf [simp]: "owns p ow (snd (aprintf str x)) = owns p ow x"
  by (simp add: aprintf_def split_beta)

lemma owns_fstatat [simp]: "owns p ow (snd (fstatat d nm nf x)) = owns p ow x"
  by (rule owns_unchanged) simp

lemma owns_areadlink [simp]: "owns p ow (snd (areadlink q x)) = owns p ow x"
  by (rule owns_unchanged) simp

lemma owns_readdir [simp]: "owns p ow (snd (readdir f ents x)) = owns p ow x"
  by (rule owns_unchanged) simp

lemma owns_fdopendir [simp]: "owns p ow (snd (fdopendir f x)) = owns p ow x"
  by (rule owns_unchanged) simp

lemma owns_links_update [simp]: "owns p ow (x\<lparr>links := l\<rparr>) = owns p ow x"
  by (simp add: owns_def owner_at_def lookup_def split: option.splits)

lemma owns_orig_update [simp]: "owns p ow (x\<lparr>src_orig := a, dst_orig := b\<rparr>) = owns p ow x"
  by (simp add: owns_def owner_at_def lookup_def split: option.splits)

lemma owns_offsets_update [simp]: "owns p ow (x\<lparr>offsets := l\<rparr>) = owns p ow x"
  by (simp add: owns_def owner_at_def lookup_def split: option.splits)

lemma owns_inode_update:
  assumes "inodes x k = Some i" and "i_uid i' = i_uid i" and "i_gid i' = i_gid i"
  shows "owns p ow (x\<lparr>inodes := (inodes x)(k \<mapsto> i')\<rparr>) = owns p ow x"
  using assms by (auto simp: owns_def owner_at_def lookup_def split: option.splits)

lemma owns_modify:
  assumes "\<And>i. i_uid (f i) = i_uid i \<and> i_gid (f i) = i_gid i"
  shows "owns p ow (snd (modify c q f x)) = owns p ow x"
proof (cases "fault_now x = 0 \<and> lookup x q \<noteq> None")
  case True
  then obtain k i where l: "lookup x q = Some (k, i)" by auto
  then have "inodes x k = Some i" by (auto simp: lookup_def split: option.splits)
  from owns_inode_update [OF this, of "f i"] assms True l show ?thesis
    by (simp add: modify_def)
next
  case False
  then show ?thesis by (cases "lookup x q") (auto simp: modify_def)
qed

lemma owns_fchmodat [simp]: "owns p ow (snd (fchmodat d nm m x)) = owns p ow x"
  by (simp add: fchmodat_def owns_modify set_mode_def)

lemma owns_fchmod [simp]: "owns p ow (snd (fchmod f m x)) = owns p ow x"
  by (simp add: fchmod_def owns_modify set_mode_def)

lemma owns_utimensat [simp]: "owns p ow (snd (utimensat d nm mt x)) = owns p ow x"
  by (simp add: utimensat_def owns_modify)

lemma owns_write_full [simp]: "owns p ow (snd (write_full f buf x)) = owns p ow x"
  by (simp add: write_full_def owns_modify)

lemma owns_read [simp]: "owns p ow (snd (read f x)) = owns p ow x"
  by (simp add: read_def Let_def split: option.splits prod.splits)

lemma owns_lib_copy:
  assumes "\<And>i i'. i_uid (f i i') = i_uid i' \<and> i_gid (f i i') = i_gid i'"
  shows "owns p ow (snd (lib_copy c ifd ofd f x)) = owns p ow x"
proof (cases "fault_now x = 0 \<and> lookup x (fd_path ifd) \<noteq> None \<and> lookup x (fd_path ofd) \<noteq> None")
  case True
  then obtain k i k' i' where l: "lookup x (fd_path ifd) = Some (k, i)"
    "lookup x (fd_path ofd) = Some (k', i')" by auto
  then have "inodes x k' = Some i'" by (auto simp: lookup_def split: option.splits)
  from owns_inode_update [OF this, of "f i i'"] assms True l show ?thesis
    by (simp add: lib_copy_def)
next
  case False
  then show ?thesis
    by (cases "lookup x (fd_path ifd)"; cases "lookup x (fd_path ofd)") (auto simp: lib_copy_def)
qed

lemma owns_perm_copy_fd [simp]: "owns p ow (snd (perm_copy_fd f g x)) = owns p ow x"
  by (simp add: perm_copy_fd_def owns_lib_copy)

lemma owns_attr_copy_fd [simp]: "owns p ow (snd (attr_copy_fd f g x)) = owns p ow x"
  by (simp add: attr_copy_fd_def owns_lib_copy)

lemma owner_at_enter:
  "owner_at (enter d nm k s) p = owner_at (s\<lparr>names := (names s)(at_path d nm \<mapsto> k)\<rparr>) p"
  by (cases d)
     (auto simp: enter_def Let_def owner_at_def lookup_def split: option.splits)

lemma owns_names: "owns p ow x \<Longrightarrow> \<exists>k i. names x p = Some k \<and> inodes x k = Some i"
  by (auto simp: owns_def owner_at_def lookup_def split: option.splits)

lemma create_fresh:
  assumes "create c d nm i x = (0, s1)"
  shows "\<exists>K. inodes x K = None \<and> names x (at_path d nm) = None \<and>
           names s1 = (names x)(at_path d nm \<mapsto> K) \<and> lookup s1 (at_path d nm) = Some (K, i) \<and>
           s1 = logged c (enter d nm K (x\<lparr>inodes := (inodes x)(K \<mapsto> i),
                                           next_ino := next_ino x + 1\<rparr>))"
proof -
  from assms obtain dv where dv: "parent_dev d x = Some dv"
    and free: "names x (at_path d nm) = None" and fresh: "inodes x (dv, next_ino x) = None"
    and s1: "s1 = logged c (enter d nm (dv, next_ino x)
                  (x\<lparr>inodes := (inodes x)((dv, next_ino x) \<mapsto> i),
                     next_ino := next_ino x + 1\<rparr>))"
    by (cases "names x (at_path d nm)") (auto simp: create_def split: if_splits option.splits)
  from create_ok [OF assms] dv
  have "lookup s1 (at_path d nm) = Some ((dv, next_ino x), i)" by simp
  with free fresh s1 show ?thesis by auto
qed

lemma owns_create_ok:
  assumes "owns p ow x" and "create c d nm i x = (0, s1)"
  shows "owns p ow s1"
proof -
  from create_fresh [OF assms(2)] obtain K where K: "inodes x K = None"
    "names x (at_path d nm) = None"
    "s1 = logged c (enter d nm K (x\<lparr>inodes := (inodes x)(K \<mapsto> i),
                                     next_ino := next_ino x + 1\<rparr>))" by blast
  have "owner_at (x\<lparr>inodes := (inodes x)(K \<mapsto> i), next_ino := next_ino x + 1,
                    names := (names x)(at_path d nm \<mapsto> K)\<rparr>) p = owner_at x p"
    using assms(1) K(1,2)
    by (auto simp: owns_def owner_at_def lookup_def split: option.splits)
  with assms(1) K(3) show ?thesis
    by (simp add: owns_def owner_at_enter)
qed

lemma create_result: "fst (create c d nm i x) = 0 \<or> fst (create c d nm i x) = - 1"
  by (simp add: create_def split: option.splits)

lemma create_failed: "fst (create c d nm i x) \<noteq> 0 \<Longrightarrow> unchanged x (snd (create c d nm i x))"
  by (auto simp: create_def split: option.splits)

lemma owns_create [simp]: "owns p ow x \<Longrightarrow> owns p ow (snd (create c d nm i x))"
proof (cases "fst (create c d nm i x) = 0")
  case True
  then have "create c d nm i x = (0, snd (create c d nm i x))" by (simp add: prod_eq_iff)
  then show "owns p ow x \<Longrightarrow> ?thesis" by (rule owns_create_ok [rotated])
next
  case False
  then show "owns p ow x \<Longrightarrow> ?thesis" using create_failed [of c d nm i x] owns_unchanged by blast
qed

lemma owns_create_modify:
  assumes "owns p ow x" and "fst (create c d nm i x) = 0"
  shows "owns p ow (snd (modify c' (at_path d nm) f (snd (create c d nm i x))))"
proof -
  let ?s1 = "snd (create c d nm i x)"
  from assms(2) have e: "create c d nm i x = (0, ?s1)" by (simp add: prod_eq_iff)
  from create_fresh [OF e] obtain K where K: "inodes x K = None"
    "names x (at_path d nm) = None" "names ?s1 = (names x)(at_path d nm \<mapsto> K)"
    "lookup ?s1 (at_path d nm) = Some (K, i)" by blast
  from owns_names [OF assms(1)] obtain k j where k: "names x p = Some k" "inodes x k = Some j"
    by blast
  with K have n: "names ?s1 p = Some k" "k \<noteq> K" by auto
  have o: "owns p ow ?s1" using assms(1) by simp
  have "owner_at (?s1\<lparr>inodes := (inodes ?s1)(K \<mapsto> f i)\<rparr>) p = owner_at ?s1 p"
    using n by (simp add: owner_at_def lookup_def)
  with o K(4) show ?thesis
    by (simp add: modify_def owns_def)
qed

lemma owns_mkdirat [simp]: "owns p ow x \<Longrightarrow> owns p ow (snd (mkdirat d nm m x))"
  by (simp add: mkdirat_def)

lemma owns_mknodat [simp]: "owns p ow x \<Longrightarrow> owns p ow (snd (mknodat d nm m r x))"
  by (simp add: mknodat_def)

lemma owns_symlinkat [simp]: "owns p ow x \<Longrightarrow> owns p ow (snd (symlinkat t d nm x))"
  by (simp add: symlinkat_def)

lemma owns_openat [simp]: "owns p ow x \<Longrightarrow> owns p ow (snd (openat d nm how x))"
proof (cases how)
  case (OpenCreat m)
  then show "owns p ow x \<Longrightarrow> ?thesis" by (simp add: openat_def split_beta Let_def)
qed (auto simp: openat_def Let_def split: option.splits)

lemma owns_linkat [simp]: "owns p ow x \<Longrightarrow> owns p ow (snd (linkat old d nm x))"
proof (cases "fst (linkat old d nm x) = 0")
  case True
  assume a: "owns p ow x"
  from True obtain k i where l: "lookup x old = Some (k, i)"
    and free: "names x (at_path d nm) = None"
    and s1: "snd (linkat old d nm x) =
        logged (Linkat old d nm) (enter d nm k (x\<lparr>inodes := (inodes x)(k \<mapsto> i\<lparr>i_nlink := i_nlink i + 1\<rparr>)\<rparr>))"
    by (cases "names x (at_path d nm)")
       (auto simp: linkat_def Let_def split: if_splits option.splits prod.splits)
  from l have "inodes x k = Some i" by (auto simp: lookup_def split: option.splits)
  from owns_inode_update [OF this, of "i\<lparr>i_nlink := i_nlink i + 1\<rparr>" p ow] a
  have "owns p ow (x\<lparr>inodes := (inodes x)(k \<mapsto> i\<lparr>i_nlink := i_nlink i + 1\<rparr>)\<rparr>)" by simp
  then have "owner_at (x\<lparr>inodes := (inodes x)(k \<mapsto> i\<lparr>i_nlink := i_nlink i + 1\<rparr>),
                         names := (names x)(at_path d nm \<mapsto> k)\<rparr>) p = Some ow"
    using free by (auto simp: owns_def owner_at_def lookup_def split: option.splits)
  with s1 show ?thesis by (simp add: owns_def owner_at_enter)
next
  case False
  assume a: "owns p ow x"
  from False have "unchanged x (snd (linkat old d nm x))"
    by (auto simp: linkat_def Let_def split: option.splits prod.splits)
  with a show ?thesis by (simp add: owns_unchanged)
qed

lemma owns_perm_copy_path [simp]: "owns p ow x \<Longrightarrow> owns p ow (snd (perm_copy_path src dst x))"
  by (simp add: perm_copy_path_def split_beta split: option.splits)

lemma owns_attr_copy_path [simp]: "owns p ow x \<Longrightarrow> owns p ow (snd (attr_copy_path src dst x))"
  by (simp add: attr_copy_path_def split_beta split: option.splits)

lemma owns_mkdirat_chown:
  "owns p ow x \<Longrightarrow> fst (mkdirat (dirfd dst) (name dst) m x) = 0 \<Longrightarrow>
     owns p ow (snd (chownat_if_needed dst statp ou nu og ng (snd (mkdirat (dirfd dst) (name dst) m x))))"
  by (simp add: mkdirat_def chownat_if_needed_def fchownat_def owns_create_modify)

lemma owns_symlinkat_chown:
  "owns p ow x \<Longrightarrow> fst (symlinkat t (dirfd dst) (name dst) x) = 0 \<Longrightarrow>
     owns p ow (snd (chownat_if_needed dst statp ou nu og ng (snd (symlinkat t (dirfd dst) (name dst) x))))"
  by (simp add: symlinkat_def chownat_if_needed_def fchownat_def owns_create_modify)

lemma mknodat_ok:
  "fst (mknodat d nm m r x) \<noteq> - 1 \<Longrightarrow>
     mknodat d nm m r x = create (Mknodat d nm m r) d nm ((new_inode m x)\<lparr>i_rdev := r\<rparr>) x \<and>
     fst (create (Mknodat d nm m r) d nm ((new_inode m x)\<lparr>i_rdev := r\<rparr>) x) = 0"
  using create_result [of "Mknodat d nm m r" d nm "(new_inode m x)\<lparr>i_rdev := r\<rparr>" x]
  by (auto simp: mknodat_def split: if_splits)

lemma owns_mknodat_chown:
  assumes "owns p ow x" and "fst (mknodat (dirfd dst) (name dst) m r x) \<noteq> - 1"
  shows "owns p ow (snd (chownat_if_needed dst statp ou nu og ng (snd (mknodat (dirfd dst) (name dst) m r x))))"
  using mknodat_ok [OF assms(2)] assms(1)
  by (simp add: chownat_if_needed_def fchownat_def owns_create_modify)

lemma openat_creat:
  "fst (openat d nm (OpenCreat m) x) = Some ofd \<Longrightarrow>
     ofd = Fd (at_path d nm) \<and>
     fst (create (Openat d nm (OpenCreat m)) d nm (new_inode (S_IFREG OR (m AND 4095)) x) x) = 0 \<and>
     snd (openat d nm (OpenCreat m) x) =
       snd (create (Openat d nm (OpenCreat m)) d nm (new_inode (S_IFREG OR (m AND 4095)) x) x)"
  by (auto simp: openat_def Let_def split_beta split: if_splits)

lemma owns_openat_chown:
  assumes "owns p ow x" and "fst (openat d nm (OpenCreat m) x) = Some ofd"
  shows "owns p ow (snd (fchown_if_needed ofd statp ou nu og ng (snd (openat d nm (OpenCreat m) x))))"
  using openat_creat [OF assms(2)] assms(1)
  by (simp add: fchown_if_needed_def fchown_def owns_create_modify)


lemma oowns_simps [simp]:
  "oowns p ow (Return r x) = owns p ow x" "oowns p ow (Abort x) = owns p ow x" "oowns p ow Diverge"
  by (simp_all add: oowns_def)

lemma oowns_case:
  "oowns p ow out \<Longrightarrow> (\<And>r x. owns p ow x \<Longrightarrow> oowns p ow (k r x)) \<Longrightarrow>
     oowns p ow (case out of Return r x \<Rightarrow> k r x | Abort x \<Rightarrow> Abort x | Diverge \<Rightarrow> Diverge)"
  by (cases out) simp_all

lemma oowns_check_link: "owns p ow x \<Longrightarrow> oowns p ow (check_link nm sb x)"
  by (simp add: check_link_def split: option.splits prod.splits)

lemma oowns_copy_hardlink: "owns p ow x \<Longrightarrow> oowns p ow (copy_hardlink dst rs lp x)"
  by (simp add: copy_hardlink_def split_beta Let_def remove_link_def)

lemma oowns_copy_symlink:
  "owns p ow x \<Longrightarrow> oowns p ow (copy_symlink src dst rs statp mt ou nu og ng x)"
  by (simp add: copy_symlink_def split_beta Let_def owns_symlinkat_chown split: option.splits)

lemma oowns_copy_special:
  "owns p ow x \<Longrightarrow> oowns p ow (copy_special src dst rs statp mt ou nu og ng x)"
  by (simp add: copy_special_def split_beta owns_mknodat_chown)

lemma oowns_copy_data: "owns p ow x \<Longrightarrow> oowns p ow (copy_data n ifd ofd x)"
  by (induction n arbitrary: x) (simp_all add: split_beta split: option.splits)

lemma oowns_copy_file:
  "owns p ow x \<Longrightarrow> oowns p ow (copy_file n src dst rs statp mt ou nu og ng x)"
  unfolding copy_file_def split_beta
  by (auto simp: owns_openat_chown split: option.splits intro!: oowns_case oowns_copy_data)

lemma oowns_copy_dir_body:
  assumes "\<And>src dst cr rs ou nu og ng x. owns p ow x \<Longrightarrow> oowns p ow (impl src dst cr rs ou nu og ng x)"
  shows "owns p ow x \<Longrightarrow> oowns p ow (copy_dir_body impl src dst rs statp mt ou nu og ng x)"
  unfolding copy_dir_body_def split_beta
  by (auto simp: owns_mkdirat_chown intro!: oowns_case assms split: option.splits)

lemma oowns_copy_entry_body:
  assumes "\<And>src dst cr rs ou nu og ng x. owns p ow x \<Longrightarrow> oowns p ow (impl src dst cr rs ou nu og ng x)"
  shows "owns p ow x \<Longrightarrow> oowns p ow (copy_entry_body impl n src dst rs ou nu og ng x)"
  unfolding copy_entry_body_def split_beta Let_def
  by (auto intro!: oowns_case oowns_copy_dir_body assms oowns_copy_symlink oowns_check_link
        oowns_copy_hardlink oowns_copy_special oowns_copy_file
      split: option.splits)

lemma oowns_copy_loop:
  assumes "\<And>src dst cr rs ou nu og ng x. owns p ow x \<Longrightarrow> oowns p ow (impl src dst cr rs ou nu og ng x)"
  shows "owns p ow x \<Longrightarrow> oowns p ow (copy_loop impl n src dst dir dst_fd rs ou nu og ng ents err x)"
proof (induction ents arbitrary: err x)
  case Nil
  then show ?case
    by (subst copy_loop.simps) (simp add: readdir_def Let_def)
next
  case (Cons e es)
  have r: "fst (readdir dir (e # es) x) = None \<or> fst (readdir dir (e # es) x) = Some (e, es)"
    by (simp add: readdir_def Let_def)
  from Cons.prems r show ?case
    by (subst copy_loop.simps)
       (auto simp: split_beta intro!: oowns_case Cons.IH oowns_copy_entry_body assms
             split: option.splits)
qed

lemma oowns_copy_tree_impl_body:
  assumes "\<And>src dst cr rs ou nu og ng x. owns p ow x \<Longrightarrow> oowns p ow (impl src dst cr rs ou nu og ng x)"
  shows "owns p ow x \<Longrightarrow> oowns p ow (copy_tree_impl_body impl n src dst cr rs ou nu og ng x)"
  unfolding copy_tree_impl_body_def split_beta Let_def
  by (auto intro!: oowns_case oowns_copy_entry_body oowns_copy_loop assms
      split: option.splits)

lemma oowns_copy_tree_impl:
  "owns p ow x \<Longrightarrow> oowns p ow (copy_tree_impl n src dst cr rs ou nu og ng x)"
proof (induction n arbitrary: src dst cr rs ou nu og ng x)
  case 0
  then show ?case by simp
next
  case (Suc n)
  from Suc.prems show ?case
    by (simp only: copy_tree_impl.simps) (rule oowns_copy_tree_impl_body, rule Suc.IH)
qed

lemma oowns_copy_entry: "owns p ow x \<Longrightarrow> oowns p ow (copy_entry n src dst rs ou nu og ng x)"
  unfolding copy_entry_def by (rule oowns_copy_entry_body) (rule oowns_copy_tree_impl)


lemma gives_simps [simp]:
  "gives p ow (Return r x) = (r \<noteq> 0 \<or> owns p ow x)" "gives p ow (Abort x)" "gives p ow Diverge"
  by (simp_all add: gives_def)

lemma gives_case:
  "oowns p ow out \<Longrightarrow> (\<And>r x. owns p ow x \<Longrightarrow> gives p ow (k r x)) \<Longrightarrow>
     gives p ow (case out of Return r x \<Rightarrow> k r x | Abort x \<Rightarrow> Abort x | Diverge \<Rightarrow> Diverge)"
  by (cases out) simp_all

lemma modify_result: "fst (modify c p f x) = 0 \<or> fst (modify c p f x) = - 1"
  by (simp add: modify_def split: option.splits)

lemma modify_gives:
  assumes "fst (modify c p (set_owner (tmp_id ou nu u) (tmp_id og ng g)) x) \<noteq> - 1"
    and "u \<noteq> - 1" and "g \<noteq> - 1"
  shows "owns p (tmp_id ou nu u, tmp_id og ng g)
           (snd (modify c p (set_owner (tmp_id ou nu u) (tmp_id og ng g)) x))"
proof -
  let ?m = "modify c p (set_owner (tmp_id ou nu u) (tmp_id og ng g)) x"
  from assms(1) modify_result [of c p _ x] have "?m = (0, snd ?m)"
    by (auto simp: prod_eq_iff)
  from modify_ok [OF this] obtain k i where
    "lookup (snd ?m) p = Some (k, set_owner (tmp_id ou nu u) (tmp_id og ng g) i)" by blast
  with set_owner_tmp_id [OF assms(2,3), of ou nu og ng i] show ?thesis
    by (simp add: owns_def owner_at_def)
qed

lemma chownat_gives:
  "fst (chownat_if_needed dst statp ou nu og ng x) \<noteq> - 1 \<Longrightarrow>
   st_uid statp \<noteq> - 1 \<Longrightarrow> st_gid statp \<noteq> - 1 \<Longrightarrow>
     owns (at_path (dirfd dst) (name dst))
       (tmp_id ou nu (st_uid statp), tmp_id og ng (st_gid statp))
       (snd (chownat_if_needed dst statp ou nu og ng x))"
  unfolding chownat_if_needed_def fchownat_def by (rule modify_gives)

lemma chownat_gives0:
  "fst (chownat_if_needed dst statp ou nu og ng x) = 0 \<Longrightarrow>
   st_uid statp \<noteq> - 1 \<Longrightarrow> st_gid statp \<noteq> - 1 \<Longrightarrow>
     owns (at_path (dirfd dst) (name dst))
       (tmp_id ou nu (st_uid statp), tmp_id og ng (st_gid statp))
       (snd (chownat_if_needed dst statp ou nu og ng x))"
  by (rule chownat_gives) simp_all

lemma fchown_gives0:
  "fst (fchown_if_needed ofd statp ou nu og ng x) = 0 \<Longrightarrow>
   st_uid statp \<noteq> - 1 \<Longrightarrow> st_gid statp \<noteq> - 1 \<Longrightarrow>
     owns (fd_path ofd)
       (tmp_id ou nu (st_uid statp), tmp_id og ng (st_gid statp))
       (snd (fchown_if_needed ofd statp ou nu og ng x))"
  unfolding fchown_if_needed_def fchown_def by (rule modify_gives) simp_all

lemma gives_copy_symlink:
  "st_uid statp \<noteq> - 1 \<Longrightarrow> st_gid statp \<noteq> - 1 \<Longrightarrow>
     gives (at_path (dirfd dst) (name dst))
       (tmp_id ou nu (st_uid statp), tmp_id og ng (st_gid statp))
       (copy_symlink src dst rs statp mt ou nu og ng x)"
  by (simp add: copy_symlink_def split_beta Let_def chownat_gives0 split: option.splits)

lemma gives_copy_special:
  "st_uid statp \<noteq> - 1 \<Longrightarrow> st_gid statp \<noteq> - 1 \<Longrightarrow>
     gives (at_path (dirfd dst) (name dst))
       (tmp_id ou nu (st_uid statp), tmp_id og ng (st_gid statp))
       (copy_special src dst rs statp mt ou nu og ng x)"
  by (simp add: copy_special_def split_beta chownat_gives)

lemma openat_creat_fd:
  "fst (openat d nm (OpenCreat m) x) = Some ofd \<Longrightarrow> fd_path ofd = at_path d nm"
  by (auto dest: openat_creat)

lemma gives_copy_file:
  "st_uid statp \<noteq> - 1 \<Longrightarrow> st_gid statp \<noteq> - 1 \<Longrightarrow>
     gives (at_path (dirfd dst) (name dst))
       (tmp_id ou nu (st_uid statp), tmp_id og ng (st_gid statp))
       (copy_file n src dst rs statp mt ou nu og ng x)"
  unfolding copy_file_def split_beta
  by (auto simp: openat_creat_fd [symmetric] fchown_gives0 split: option.splits
           intro!: gives_case oowns_copy_data)

lemma gives_copy_dir_body:
  assumes "\<And>src dst cr rs ou nu og ng x.
             owns p ow x \<Longrightarrow> oowns p ow (impl src dst cr rs ou nu og ng x)"
    and "p = at_path (dirfd dst) (name dst)"
    and "ow = (tmp_id ou nu (st_uid statp), tmp_id og ng (st_gid statp))"
    and "lookup x p = None" and "st_uid statp \<noteq> - 1" and "st_gid statp \<noteq> - 1"
  shows "gives p ow (copy_dir_body impl src dst rs statp mt ou nu og ng x)"
proof -
  let ?x1 = "snd (set_selinux_file_context (full_path dst) S_IFDIR x)"
  have "lookup ?x1 (at_path (dirfd dst) (name dst)) = None"
    using assms(2,4) unchanged_lookup [OF set_selinux_unchanged [of x "full_path dst" S_IFDIR]]
    by simp
  then have n: "fst (fstatat (dirfd dst) (name dst) True ?x1) = None" by (rule fstatat_None)
  show ?thesis
    unfolding copy_dir_body_def split_beta assms(2,3)
    using assms(5,6)
    by (auto simp: n chownat_gives0 intro!: gives_case assms(1) [unfolded assms(2,3)])
qed


lemma owner_at_unchanged: "unchanged x x' \<Longrightarrow> owner_at x' p = owner_at x p"
  by (simp add: owner_at_def unchanged_lookup)

lemma owner_at_links_update [simp]: "owner_at (x\<lparr>links := l\<rparr>) p = owner_at x p"
  by (simp add: owner_at_def lookup_def split: option.splits)

lemma linkat_owner:
  assumes "linkat old d nm x = (0, x1)"
  shows "owner_at x1 (at_path d nm) = owner_at x old"
proof -
  from assms obtain k i where l: "lookup x old = Some (k, i)"
    and s1: "x1 = logged (Linkat old d nm)
                    (enter d nm k (x\<lparr>inodes := (inodes x)(k \<mapsto> i\<lparr>i_nlink := i_nlink i + 1\<rparr>)\<rparr>))"
    by (cases "names x (at_path d nm)")
       (auto simp: linkat_def Let_def split: if_splits option.splits prod.splits)
  from l s1 show ?thesis
    by (simp add: owner_at_enter) (simp add: owner_at_def lookup_def)
qed

lemma copy_hardlink_owner:
  assumes "copy_hardlink dst rs lp x = Return 0 x'"
  shows "owner_at x' (at_path (dirfd dst) (name dst)) = owner_at x (ln_name (links x ! lp))"
proof -
  obtain r x1 where l: "linkat (ln_name (links x ! lp)) (dirfd dst) (name dst) x = (r, x1)"
    by (cases "linkat (ln_name (links x ! lp)) (dirfd dst) (name dst) x")
  with assms have r: "r = 0" and "\<exists>ls. x' = x1\<lparr>links := ls\<rparr>"
    by (auto simp: copy_hardlink_def Let_def remove_link_def split: if_splits)
  then obtain ls where "x' = x1\<lparr>links := ls\<rparr>" by blast
  with linkat_owner [OF l [unfolded r]] show ?thesis by simp
qed

text \<open>
  C4, as the code has it. Let the probe of the source give \<open>sb\<close>, with an owner and a
  group that are ids (\<open>-1\<close> is no id: \<^verbatim>\<open>chown\<close> reads it as "leave it as it is"). An
  entry that \<open>copy_entry\<close> copies with success by the symlink, the special-file or the
  regular-file strategy (the source is not a directory, the destination is absent at
  the second probe and the registry does not resolve the source), and a directory that
  \<open>copy_dir\<close> newly creates, ends with the owner \<open>new_uid\<close> if \<open>old_uid\<close> is unset or
  is the source's owner, and \<open>new_uid\<close> is set, and otherwise with the source's owner;
  the group follows the same rule with \<open>old_gid\<close> and \<open>new_gid\<close>. An entry the
  registry resolves becomes a name of the recorded copy and has the owner and group
  that copy has. And every entry that has an owner before \<open>copy_entry\<close>, an existing
  destination directory among them, has the same owner and group after it.
\<close>

theorem copied_entry_owner:
  assumes "fstatat (dirfd src) (name src) True s = (Some sb, s1)"
  shows "(st_uid sb \<noteq> - 1 \<and> st_gid sb \<noteq> - 1 \<and> \<not> S_ISDIR (st_mode sb) \<and>
          fstatat (dirfd dst) (name dst) True s1 = (None, s2) \<and>
          (S_ISLNK (st_mode sb) \<or> find_link (st_dev sb) (st_ino sb) (links s) = None) \<and>
          copy_entry n src dst reset_selinux old_uid new_uid old_gid new_gid s = Return 0 s' \<longrightarrow>
            owner_at s' (at_path (dirfd dst) (name dst)) =
              Some (if (old_uid = - 1 \<or> st_uid sb = old_uid) \<and> new_uid \<noteq> - 1
                    then new_uid else st_uid sb,
                    if (old_gid = - 1 \<or> st_gid sb = old_gid) \<and> new_gid \<noteq> - 1
                    then new_gid else st_gid sb)) \<and>
         (st_uid sb \<noteq> - 1 \<and> st_gid sb \<noteq> - 1 \<and> S_ISDIR (st_mode sb) \<and>
          lookup s (at_path (dirfd dst) (name dst)) = None \<and>
          copy_dir n src dst reset_selinux sb (st_atim sb, st_mtim sb)
            old_uid new_uid old_gid new_gid s1 = Return 0 s3 \<and>
          fstatat (dirfd dst) (name dst) True s3 = (Some tmp_sb, s4) \<longrightarrow>
            copy_entry n src dst reset_selinux old_uid new_uid old_gid new_gid s = Return 0 s4 \<and>
            owner_at s4 (at_path (dirfd dst) (name dst)) =
              Some (if (old_uid = - 1 \<or> st_uid sb = old_uid) \<and> new_uid \<noteq> - 1
                    then new_uid else st_uid sb,
                    if (old_gid = - 1 \<or> st_gid sb = old_gid) \<and> new_gid \<noteq> - 1
                    then new_gid else st_gid sb)) \<and>
         (\<not> S_ISDIR (st_mode sb) \<and> \<not> S_ISLNK (st_mode sb) \<and>
          fstatat (dirfd dst) (name dst) True s1 = (None, s2) \<and>
          find_link (st_dev sb) (st_ino sb) (links s) = Some lp \<and>
          copy_entry n src dst reset_selinux old_uid new_uid old_gid new_gid s = Return 0 s5 \<longrightarrow>
            owner_at s5 (at_path (dirfd dst) (name dst)) =
              owner_at s (ln_name (links s ! lp))) \<and>
         (owner_at s q = Some ow \<and>
          copy_entry n src dst reset_selinux old_uid new_uid old_gid new_gid s = Return r s6 \<longrightarrow>
            owner_at s6 q = Some ow)"
proof (intro conjI impI)
  let ?mt = "(st_atim sb, st_mtim sb)"
  let ?P = "at_path (dirfd dst) (name dst)"
  let ?ow = "(tmp_id old_uid new_uid (st_uid sb), tmp_id old_gid new_gid (st_gid sb))"
  assume h: "st_uid sb \<noteq> - 1 \<and> st_gid sb \<noteq> - 1 \<and> \<not> S_ISDIR (st_mode sb) \<and>
          fstatat (dirfd dst) (name dst) True s1 = (None, s2) \<and>
          (S_ISLNK (st_mode sb) \<or> find_link (st_dev sb) (st_ino sb) (links s) = None) \<and>
          copy_entry n src dst reset_selinux old_uid new_uid old_gid new_gid s = Return 0 s'"
  from h have u: "st_uid sb \<noteq> - 1" and g: "st_gid sb \<noteq> - 1" and nd: "\<not> S_ISDIR (st_mode sb)"
    and rp: "fstatat (dirfd dst) (name dst) True s1 = (None, s2)"
    and nh: "S_ISLNK (st_mode sb) \<or> find_link (st_dev sb) (st_ino sb) (links s) = None"
    and ok: "copy_entry n src dst reset_selinux old_uid new_uid old_gid new_gid s = Return 0 s'"
    by simp_all
  have l2: "links s2 = links s"
    using fstatat_links [OF assms] fstatat_links [OF rp] by (simp add: unchanged_def)
  have "owns ?P ?ow s'"
  proof (cases "S_ISLNK (st_mode sb)")
    case True
    with ok nd rp have "copy_symlink src dst reset_selinux sb ?mt
        old_uid new_uid old_gid new_gid s2 = Return 0 s'"
      by (simp add: copy_entry_probed [OF assms])
    with gives_copy_symlink [OF u g, of dst old_uid new_uid old_gid new_gid src reset_selinux ?mt s2]
    show ?thesis by simp
  next
    case False
    with nh have f: "find_link (st_dev sb) (st_ino sb) (links s2) = None" by (simp add: l2)
    from ok nd rp False have c: "(case check_link (full_path src) sb s2 of
        Diverge \<Rightarrow> Diverge | Abort s \<Rightarrow> Abort s
      | Return (Some lp) s \<Rightarrow> copy_hardlink dst reset_selinux lp s
      | Return None s \<Rightarrow>
          if \<not> S_ISREG (st_mode sb)
          then copy_special src dst reset_selinux sb ?mt old_uid new_uid old_gid new_gid s
          else copy_file n src dst reset_selinux sb ?mt old_uid new_uid old_gid new_gid s)
       = Return 0 s'"
      by (simp add: copy_entry_probed [OF assms])
    then obtain s2' where "copy_special src dst reset_selinux sb ?mt
           old_uid new_uid old_gid new_gid s2' = Return 0 s' \<or>
         copy_file n src dst reset_selinux sb ?mt old_uid new_uid old_gid new_gid s2' = Return 0 s'"
      using f by (auto simp: check_link_def split: option.splits if_splits prod.splits)
    with gives_copy_special [OF u g, of dst old_uid new_uid old_gid new_gid src reset_selinux ?mt s2']
      gives_copy_file [OF u g, of dst old_uid new_uid old_gid new_gid n src reset_selinux ?mt s2']
    show ?thesis by auto
  qed
  then show "owner_at s' ?P =
      Some (if (old_uid = - 1 \<or> st_uid sb = old_uid) \<and> new_uid \<noteq> - 1
            then new_uid else st_uid sb,
            if (old_gid = - 1 \<or> st_gid sb = old_gid) \<and> new_gid \<noteq> - 1
            then new_gid else st_gid sb)"
    by (simp only: owns_def tmp_id_eq)
next
  let ?mt = "(st_atim sb, st_mtim sb)"
  let ?P = "at_path (dirfd dst) (name dst)"
  let ?ow = "(tmp_id old_uid new_uid (st_uid sb), tmp_id old_gid new_gid (st_gid sb))"
  assume h: "st_uid sb \<noteq> - 1 \<and> st_gid sb \<noteq> - 1 \<and> S_ISDIR (st_mode sb) \<and>
          lookup s (at_path (dirfd dst) (name dst)) = None \<and>
          copy_dir n src dst reset_selinux sb (st_atim sb, st_mtim sb)
            old_uid new_uid old_gid new_gid s1 = Return 0 s3 \<and>
          fstatat (dirfd dst) (name dst) True s3 = (Some tmp_sb, s4)"
  from h have u: "st_uid sb \<noteq> - 1" and g: "st_gid sb \<noteq> - 1" and d: "S_ISDIR (st_mode sb)"
    and ab: "lookup s ?P = None"
    and cd: "copy_dir n src dst reset_selinux sb ?mt old_uid new_uid old_gid new_gid s1 = Return 0 s3"
    and rp: "fstatat (dirfd dst) (name dst) True s3 = (Some tmp_sb, s4)"
    by simp_all
  from d cd rp show "copy_entry n src dst reset_selinux old_uid new_uid old_gid new_gid s = Return 0 s4"
    by (simp add: copy_entry_probed [OF assms])
  have a1: "lookup s1 ?P = None"
    using fstatat_links [OF assms] ab by (simp add: unchanged_lookup)
  have "gives ?P ?ow (copy_dir_body (copy_tree_impl n) src dst reset_selinux sb ?mt
                        old_uid new_uid old_gid new_gid s1)"
    by (rule gives_copy_dir_body [OF oowns_copy_tree_impl refl refl a1 u g])
  with cd have "owns ?P ?ow s3" by (simp add: copy_dir_def)
  then have "owns ?P ?ow s4" using owns_unchanged [OF fstatat_links [OF rp]] by simp
  then show "owner_at s4 ?P =
      Some (if (old_uid = - 1 \<or> st_uid sb = old_uid) \<and> new_uid \<noteq> - 1
            then new_uid else st_uid sb,
            if (old_gid = - 1 \<or> st_gid sb = old_gid) \<and> new_gid \<noteq> - 1
            then new_gid else st_gid sb)"
    by (simp only: owns_def tmp_id_eq)
next
  let ?mt = "(st_atim sb, st_mtim sb)"
  assume h: "\<not> S_ISDIR (st_mode sb) \<and> \<not> S_ISLNK (st_mode sb) \<and>
          fstatat (dirfd dst) (name dst) True s1 = (None, s2) \<and>
          find_link (st_dev sb) (st_ino sb) (links s) = Some lp \<and>
          copy_entry n src dst reset_selinux old_uid new_uid old_gid new_gid s = Return 0 s5"
  from h have nd: "\<not> S_ISDIR (st_mode sb)" and nl: "\<not> S_ISLNK (st_mode sb)"
    and rp: "fstatat (dirfd dst) (name dst) True s1 = (None, s2)"
    and fl: "find_link (st_dev sb) (st_ino sb) (links s) = Some lp"
    and ok: "copy_entry n src dst reset_selinux old_uid new_uid old_gid new_gid s = Return 0 s5"
    by simp_all
  have un: "unchanged s s2"
    using fstatat_links [OF assms] fstatat_links [OF rp] by (rule unchanged_trans)
  then have l2: "links s2 = links s" by (simp add: unchanged_def)
  from ok nd nl rp have c: "(case check_link (full_path src) sb s2 of
        Diverge \<Rightarrow> Diverge | Abort s \<Rightarrow> Abort s
      | Return (Some lp) s \<Rightarrow> copy_hardlink dst reset_selinux lp s
      | Return None s \<Rightarrow>
          if \<not> S_ISREG (st_mode sb)
          then copy_special src dst reset_selinux sb ?mt old_uid new_uid old_gid new_gid s
          else copy_file n src dst reset_selinux sb ?mt old_uid new_uid old_gid new_gid s)
       = Return 0 s5"
    by (simp add: copy_entry_probed [OF assms])
  then have "copy_hardlink dst reset_selinux lp s2 = Return 0 s5"
    using fl l2 by (auto simp: check_link_def split: option.splits if_splits prod.splits)
  from copy_hardlink_owner [OF this] l2 owner_at_unchanged [OF un]
  show "owner_at s5 (at_path (dirfd dst) (name dst)) = owner_at s (ln_name (links s ! lp))"
    by simp
next
  assume h: "owner_at s q = Some ow \<and>
          copy_entry n src dst reset_selinux old_uid new_uid old_gid new_gid s = Return r s6"
  then have "owns q ow s" by (simp add: owns_def)
  from oowns_copy_entry [OF this, of n src dst reset_selinux old_uid new_uid old_gid new_gid] h
  show "owner_at s6 q = Some ow" by (simp add: owns_def)
qed

theorem copied_entry_owner_witness:
  "owner_at (final tree_state
       (copy_entry 3 (path_of ''skel'' ''a'') (path_of ''home'' ''a'') False
          0 1001 (- 1) 1001 tree_state)) ''home/a'' = Some (1001, 1001) \<and>
   owner_at (final tree_state
       (copy_entry 3 (path_of ''skel'' ''d'') (path_of ''home'' ''d'') False
          5 1001 (- 1) 1001 tree_state)) ''home/d'' = Some (0, 1001) \<and>
   owner_at (final walking_state
       (copy_entry 3 (path_of ''skel'' ''b'') (path_of ''home'' ''b'') False
          (- 1) 1001 (- 1) 1001 walking_state)) ''home/b'' = Some (1001, 1001) \<and>
   owner_at (final merge_state
       (copy_entry 3 (path_of ''skel'' ''d'') (path_of ''home'' ''d'') False
          (- 1) 1001 (- 1) 1001 merge_state)) ''home/d'' = Some (0, 0)"
proof -
  let ?pa = "fstatat (Fd ''skel'') ''a'' True tree_state"
  let ?qa = "fstatat (Fd ''home'') ''a'' True (snd ?pa)"
  let ?oa = "copy_entry 3 (path_of ''skel'' ''a'') (path_of ''home'' ''a'') False
               0 1001 (- 1) 1001 tree_state"
  let ?pd = "fstatat (Fd ''skel'') ''d'' True tree_state"
  let ?cd = "copy_dir 3 (path_of ''skel'' ''d'') (path_of ''home'' ''d'') False stat_d
               (st_atim stat_d, st_mtim stat_d) 5 1001 (- 1) 1001 (snd ?pd)"
  let ?qd = "fstatat (Fd ''home'') ''d'' True (final tree_state ?cd)"
  let ?pb = "fstatat (Fd ''skel'') ''b'' True walking_state"
  let ?qb = "fstatat (Fd ''home'') ''b'' True (snd ?pb)"
  let ?ob = "copy_entry 3 (path_of ''skel'' ''b'') (path_of ''home'' ''b'') False
               (- 1) 1001 (- 1) 1001 walking_state"
  let ?pm = "fstatat (Fd ''skel'') ''d'' True merge_state"
  let ?om = "copy_entry 3 (path_of ''skel'' ''d'') (path_of ''home'' ''d'') False
               (- 1) 1001 (- 1) 1001 merge_state"
  have n: "dirfd (path_of d nm) = Fd d" "name (path_of d nm) = nm" for d nm
    by (simp_all add: path_of_def)
  have "fst ?pa = Some stat_a" by code_simp
  then have pa: "fstatat (dirfd (path_of ''skel'' ''a'')) (name (path_of ''skel'' ''a'')) True
      tree_state = (Some stat_a, snd ?pa)"
    by (simp add: n prod_eq_iff)
  have "fst ?qa = None" by code_simp
  then have qa: "fstatat (dirfd (path_of ''home'' ''a'')) (name (path_of ''home'' ''a'')) True
      (snd ?pa) = (None, snd ?qa)"
    by (simp add: n prod_eq_iff)
  have ua: "st_uid stat_a \<noteq> - 1" "st_gid stat_a \<noteq> - 1" "st_uid stat_a = 0" "st_gid stat_a = 0"
    by code_simp+
  have ta: "\<not> S_ISDIR (st_mode stat_a)" "\<not> S_ISLNK (st_mode stat_a)" by code_simp+
  have fa: "find_link (st_dev stat_a) (st_ino stat_a) (links tree_state) = None" by code_simp
  have "returned ?oa = Some 0" by code_simp
  then have oa: "?oa = Return 0 (final tree_state ?oa)" by (rule returned_final)
  have "fst ?pd = Some stat_d" by code_simp
  then have pd: "fstatat (dirfd (path_of ''skel'' ''d'')) (name (path_of ''skel'' ''d'')) True
      tree_state = (Some stat_d, snd ?pd)"
    by (simp add: n prod_eq_iff)
  have ud: "st_uid stat_d \<noteq> - 1" "st_gid stat_d \<noteq> - 1" "st_uid stat_d = 0" "st_gid stat_d = 0"
    by code_simp+
  have td: "S_ISDIR (st_mode stat_d)" by code_simp
  have ld: "lookup tree_state (at_path (dirfd (path_of ''home'' ''d'')) (name (path_of ''home'' ''d'')))
      = None" by code_simp
  have "returned ?cd = Some 0" by code_simp
  then have cd: "?cd = Return 0 (final tree_state ?cd)" by (rule returned_final)
  have "fst ?qd \<noteq> None" by code_simp
  then obtain tmp where qd: "fstatat (dirfd (path_of ''home'' ''d'')) (name (path_of ''home'' ''d''))
      True (final tree_state ?cd) = (Some tmp, snd ?qd)"
    by (cases "fst ?qd") (auto simp: n prod_eq_iff)
  have "fst ?pb = Some stat_a" by code_simp
  then have pb: "fstatat (dirfd (path_of ''skel'' ''b'')) (name (path_of ''skel'' ''b'')) True
      walking_state = (Some stat_a, snd ?pb)"
    by (simp add: n prod_eq_iff)
  have "fst ?qb = None" by code_simp
  then have qb: "fstatat (dirfd (path_of ''home'' ''b'')) (name (path_of ''home'' ''b'')) True
      (snd ?pb) = (None, snd ?qb)"
    by (simp add: n prod_eq_iff)
  have fb: "find_link (st_dev stat_a) (st_ino stat_a) (links walking_state) = Some 0" by code_simp
  have "returned ?ob = Some 0" by code_simp
  then have ob: "?ob = Return 0 (final walking_state ?ob)" by (rule returned_final)
  have wa: "owner_at walking_state (ln_name (links walking_state ! 0)) = Some (1001, 1001)"
    by code_simp
  have "fst ?pm = Some stat_d" by code_simp
  then have pm: "fstatat (dirfd (path_of ''skel'' ''d'')) (name (path_of ''skel'' ''d'')) True
      merge_state = (Some stat_d, snd ?pm)"
    by (simp add: n prod_eq_iff)
  have "returned ?om = Some 0" by code_simp
  then have om: "?om = Return 0 (final merge_state ?om)" by (rule returned_final)
  have wm: "owner_at merge_state ''home/d'' = Some (0, 0)" by code_simp
  from copied_entry_owner [OF pa, THEN conjunct1, rule_format,
      OF conjI [OF ua(1) conjI [OF ua(2) conjI [OF ta(1) conjI [OF qa conjI [OF disjI2 [OF fa] oa]]]]]]
  have A: "owner_at (final tree_state ?oa) ''home/a'' = Some (1001, 1001)"
    by (simp add: n ua)
  from copied_entry_owner [OF pd, THEN conjunct2, THEN conjunct1, rule_format,
      OF conjI [OF ud(1) conjI [OF ud(2) conjI [OF td conjI [OF ld conjI [OF cd qd]]]]]]
  have B: "copy_entry 3 (path_of ''skel'' ''d'') (path_of ''home'' ''d'') False
           5 1001 (- 1) 1001 tree_state = Return 0 (snd ?qd)"
    "owner_at (snd ?qd) ''home/d'' = Some (0, 1001)"
    by (simp_all add: n ud)
  from copied_entry_owner [OF pb, THEN conjunct2, THEN conjunct2, THEN conjunct1, rule_format,
      OF conjI [OF ta(1) conjI [OF ta(2) conjI [OF qb conjI [OF fb ob]]]]]
  have C: "owner_at (final walking_state ?ob) ''home/b'' = Some (1001, 1001)"
    by (simp add: n wa)
  from copied_entry_owner [OF pm, THEN conjunct2, THEN conjunct2, THEN conjunct2, rule_format,
      OF conjI [OF wm om]]
  have D: "owner_at (final merge_state ?om) ''home/d'' = Some (0, 0)" .
  from A B C D show ?thesis by (simp add: final_def)
qed

text \<open>
  Where the claim as the specification words it fails. A source owned by 7 copied with
  \<open>old_uid = 5\<close> and \<open>new_uid = 7\<close> keeps its owner, which is \<open>new_uid\<close>, though
  neither is \<open>old_uid\<close> unset nor is it the source's owner. A directory copied into an
  existing directory leaves that directory's owner as it was, 0 here, whatever
  \<open>new_uid\<close> is. And a second \<open>copy_tree\<close>, for the user 1002, finds in the registry
  the entry the first one left for the inode of \<open>a\<close> and links \<open>home2/a\<close> to the copy
  the first made for the user 1001.
\<close>

theorem remap_counterexample:
  "(case copy_tree 5 ''skel'' ''home'' False False 5 7 (- 1) (- 1) seven_state of
      Return r s \<Rightarrow>
        r = 0 \<and> owner_at s ''skel/a'' = Some (7, 7) \<and> owner_at s ''home/a'' = Some (7, 7) \<and>
        \<not> (((5::uid_t) = - 1 \<or> (7::uid_t) = 5) \<and> (7::uid_t) \<noteq> - 1)
    | Abort s \<Rightarrow> False
    | Diverge \<Rightarrow> False) \<and>
   (case copy_entry 3 (path_of ''skel'' ''d'') (path_of ''home'' ''d'') False
           (- 1) 1001 (- 1) 1001 merge_state of
      Return r s \<Rightarrow>
        r = 0 \<and> owner_at s ''skel/d'' = Some (0, 0) \<and> owner_at s ''home/d'' = Some (0, 0) \<and>
        owner_at merge_state ''home/d'' = Some (0, 0)
    | Abort s \<Rightarrow> False
    | Diverge \<Rightarrow> False) \<and>
   (case copy_tree 5 ''skel'' ''home'' False False (- 1) 1001 (- 1) 1001 two_homes_state of
      Return r s \<Rightarrow>
        r = 0 \<and>
        (case copy_tree 5 ''skel'' ''home2'' False False (- 1) 1002 (- 1) 1002 s of
           Return r' s' \<Rightarrow>
             r' = 0 \<and> owner_at s' ''skel/a'' = Some (0, 0) \<and>
             owner_at s' ''home2/a'' = Some (1001, 1001) \<and>
             owner_at s' ''home2/b'' = Some (1002, 1002)
         | Abort s' \<Rightarrow> False
         | Diverge \<Rightarrow> False)
    | Abort s \<Rightarrow> False
    | Diverge \<Rightarrow> False)"
  by code_simp

end
